(* ===== verification/Prelude.thy ===== *)
theory Prelude
  imports Main "HOL-Library.Char_ord"
begin

text \<open>
  Shared vocabulary of the development: the effect type in which every statement, query and
  handler of the program is written, its sequencing and exception operators, the rule
  collection \<open>keeps_intros\<close> that carries an invariant through a whole handler, and generic
  lemmas on lists.

  A computation of type \<open>('e, 's, 'a) eff\<close> reads a state \<open>'s\<close>, and either raises an error
  of type \<open>'e\<close> or yields an \<open>'a\<close>; in both cases it returns the state it leaves behind,
  because an exception in the code does not undo the effects made before it.
\<close>

named_theorems keeps_intros
named_theorems eff_simps

section \<open>Effects\<close>

type_synonym ('e, 's, 'a) eff = "'s \<Rightarrow> ('e + 'a) \<times> 's"

definition ret :: "'a \<Rightarrow> ('e, 's, 'a) eff" where
  "ret x = (\<lambda>s. (Inr x, s))"

definition throw :: "'e \<Rightarrow> ('e, 's, 'a) eff" where
  "throw e = (\<lambda>s. (Inl e, s))"

definition await :: "('e, 's, 'a) eff \<Rightarrow> ('a \<Rightarrow> ('e, 's, 'b) eff) \<Rightarrow> ('e, 's, 'b) eff" where
  "await m f = (\<lambda>s. case m s of (Inl e, t) \<Rightarrow> (Inl e, t) | (Inr x, t) \<Rightarrow> f x t)"

definition try_catch :: "('e, 's, 'a) eff \<Rightarrow> ('e \<Rightarrow> ('e, 's, 'a) eff) \<Rightarrow> ('e, 's, 'a) eff" where
  "try_catch m h = (\<lambda>s. case m s of (Inl e, t) \<Rightarrow> h e t | (Inr x, t) \<Rightarrow> (Inr x, t))"

text \<open>
  \<open>try \<dots> finally\<close>: the finaliser runs on both exits; if it raises, its error wins.
\<close>

definition try_finally :: "('e, 's, 'a) eff \<Rightarrow> ('e, 's, unit) eff \<Rightarrow> ('e, 's, 'a) eff" where
  "try_finally m fin = (\<lambda>s. case m s of (r, t) \<Rightarrow>
     (case fin t of (Inl e, u) \<Rightarrow> (Inl e, u) | (Inr _, u) \<Rightarrow> (r, u)))"

definition get_state :: "('s \<Rightarrow> 'a) \<Rightarrow> ('e, 's, 'a) eff" where
  "get_state g = (\<lambda>s. (Inr (g s), s))"

definition modify :: "('s \<Rightarrow> 's) \<Rightarrow> ('e, 's, unit) eff" where
  "modify g = (\<lambda>s. (Inr (), g s))"

definition guard_not :: "bool \<Rightarrow> 'e \<Rightarrow> ('e, 's, unit) eff" where
  "guard_not b e = (if b then throw e else ret ())"

text \<open>A loop \<open>for (const x of xs) await f(x)\<close>: it stops at the first error.\<close>

fun for_each :: "'a list \<Rightarrow> ('a \<Rightarrow> ('e, 's, unit) eff) \<Rightarrow> ('e, 's, unit) eff" where
  "for_each [] f = ret ()"
| "for_each (x # xs) f = await (f x) (\<lambda>_. for_each xs f)"

abbreviation result :: "('e, 's, 'a) eff \<Rightarrow> 's \<Rightarrow> 'e + 'a" where
  "result m s \<equiv> fst (m s)"

abbreviation final :: "('e, 's, 'a) eff \<Rightarrow> 's \<Rightarrow> 's" where
  "final m s \<equiv> snd (m s)"

lemma ret_apply [simp]: "ret x s = (Inr x, s)"
  by (simp add: ret_def)

lemma throw_apply [simp]: "throw e s = (Inl e, s)"
  by (simp add: throw_def)

lemma get_state_apply [simp]: "get_state g s = (Inr (g s), s)"
  by (simp add: get_state_def)

lemma modify_apply [simp]: "modify g s = (Inr (), g s)"
  by (simp add: modify_def)

lemma await_Inl [simp]: "m s = (Inl e, t) \<Longrightarrow> await m f s = (Inl e, t)"
  by (simp add: await_def)

lemma await_Inr [simp]: "m s = (Inr x, t) \<Longrightarrow> await m f s = f x t"
  by (simp add: await_def)

lemma await_ret [simp]: "await (ret x) f = f x"
  by (simp add: await_def fun_eq_iff)

lemma await_throw [simp]: "await (throw e) f = throw e"
  by (simp add: await_def fun_eq_iff)

lemma await_assoc: "await (await m f) g = await m (\<lambda>x. await (f x) g)"
  by (auto simp: await_def fun_eq_iff split: prod.split sum.split)

lemma await_get_state [simp]: "await (get_state g) f s = f (g s) s"
  by (simp add: await_def)

lemma await_modify [simp]: "await (modify g) f s = f () (g s)"
  by (simp add: await_def)

lemma guard_not_False [simp]: "guard_not False e = ret ()"
  by (simp add: guard_not_def)

lemma guard_not_True [simp]: "guard_not True e = throw e"
  by (simp add: guard_not_def)

lemma await_InrE:
  assumes "await m f s = (Inr y, u)"
  obtains x t where "m s = (Inr x, t)" and "f x t = (Inr y, u)"
  using assms by (auto simp: await_def split: prod.splits sum.splits)

lemma await_guard_InrE:
  assumes "await (guard_not b e) f s = (Inr y, u)"
  obtains "\<not> b" and "f () s = (Inr y, u)"
  using assms by (cases b) auto

section \<open>Invariants of effects\<close>

text \<open>
  \<open>keeps I m\<close>: running \<open>m\<close> from a state satisfying \<open>I\<close> leaves a state satisfying \<open>I\<close>,
  whether it returns or raises.
\<close>

definition keeps :: "('s \<Rightarrow> bool) \<Rightarrow> ('e, 's, 'a) eff \<Rightarrow> bool" where
  "keeps I m \<longleftrightarrow> (\<forall>s. I s \<longrightarrow> I (snd (m s)))"

lemma keepsI: "(\<And>s. I s \<Longrightarrow> I (snd (m s))) \<Longrightarrow> keeps I m"
  by (simp add: keeps_def)

lemma keepsD: "keeps I m \<Longrightarrow> I s \<Longrightarrow> I (snd (m s))"
  by (simp add: keeps_def)

lemma keepsE: "keeps I m \<Longrightarrow> I s \<Longrightarrow> m s = (r, t) \<Longrightarrow> I t"
  by (metis keepsD snd_conv)

lemma keeps_ret [keeps_intros]: "keeps I (ret x)"
  by (simp add: keeps_def)

lemma keeps_throw [keeps_intros]: "keeps I (throw e)"
  by (simp add: keeps_def)

lemma keeps_get_state [keeps_intros]: "keeps I (get_state g)"
  by (simp add: keeps_def)

lemma keeps_guard_not [keeps_intros]: "keeps I (guard_not b e)"
  by (simp add: keeps_def guard_not_def)

lemma keeps_await [keeps_intros]:
  "keeps I m \<Longrightarrow> (\<And>x. keeps I (f x)) \<Longrightarrow> keeps I (await m f)"
  by (auto simp: keeps_def await_def split: prod.splits sum.splits)

lemma keeps_try_catch [keeps_intros]:
  "keeps I m \<Longrightarrow> (\<And>e. keeps I (h e)) \<Longrightarrow> keeps I (try_catch m h)"
  by (auto simp: keeps_def try_catch_def split: prod.splits sum.splits)

lemma keeps_try_finally [keeps_intros]:
  "keeps I m \<Longrightarrow> keeps I fin \<Longrightarrow> keeps I (try_finally m fin)"
  by (auto simp: keeps_def try_finally_def split: prod.splits sum.splits)

lemma keeps_if [keeps_intros]:
  "(b \<Longrightarrow> keeps I m) \<Longrightarrow> (\<not> b \<Longrightarrow> keeps I n) \<Longrightarrow> keeps I (if b then m else n)"
  by simp

lemma keeps_case_option [keeps_intros]:
  "(x = None \<Longrightarrow> keeps I m) \<Longrightarrow> (\<And>y. x = Some y \<Longrightarrow> keeps I (f y)) \<Longrightarrow>
   keeps I (case x of None \<Rightarrow> m | Some y \<Rightarrow> f y)"
  by (cases x) auto

lemma keeps_case_sum [keeps_intros]:
  "(\<And>e. x = Inl e \<Longrightarrow> keeps I (f e)) \<Longrightarrow> (\<And>y. x = Inr y \<Longrightarrow> keeps I (g y)) \<Longrightarrow>
   keeps I (case x of Inl e \<Rightarrow> f e | Inr y \<Rightarrow> g y)"
  by (cases x) auto

lemma keeps_case_prod [keeps_intros]:
  "(\<And>a b. x = (a, b) \<Longrightarrow> keeps I (f a b)) \<Longrightarrow> keeps I (case x of (a, b) \<Rightarrow> f a b)"
  by (cases x) auto

lemma keeps_for_each [keeps_intros]:
  "(\<And>x. keeps I (f x)) \<Longrightarrow> keeps I (for_each xs f)"
  by (induction xs) (auto intro!: keeps_intros)

section \<open>Lists\<close>

lemma find_Some_iff_mem:
  "distinct (map f xs) \<Longrightarrow> find (\<lambda>x. f x = k) xs = Some x \<longleftrightarrow> x \<in> set xs \<and> f x = k"
  by (induction xs) force+

lemma find_None_map: "find (\<lambda>x. f x = k) xs = None \<longleftrightarrow> k \<notin> f ` set xs"
  by (auto simp: find_None_iff)

lemma find_SomeD: "find P xs = Some x \<Longrightarrow> x \<in> set xs \<and> P x"
  by (auto simp: find_Some_iff)

lemma find_snoc: "(\<And>y. y \<in> set xs \<Longrightarrow> \<not> P y) \<Longrightarrow> P x \<Longrightarrow> find P (xs @ [x]) = Some x"
  by (induction xs) auto

lemma distinct_map_inj:
  "distinct (map f xs) \<Longrightarrow> x \<in> set xs \<Longrightarrow> y \<in> set xs \<Longrightarrow> f x = f y \<Longrightarrow> x = y"
  by (auto simp: distinct_map dest: inj_onD)

lemma filter_eq_if_notin: "(\<And>x. x \<in> set ys \<Longrightarrow> \<not> P x) \<Longrightarrow> filter P (xs @ ys) = filter P xs"
  by (simp add: filter_empty_conv)

text \<open>Replacing, in a table, the row with key \<open>k\<close>.\<close>

definition update_row :: "('r \<Rightarrow> 'k) \<Rightarrow> 'k \<Rightarrow> ('r \<Rightarrow> 'r) \<Rightarrow> 'r list \<Rightarrow> 'r list" where
  "update_row key k f rows = map (\<lambda>r. if key r = k then f r else r) rows"

lemma length_update_row [simp]: "length (update_row key k f rows) = length rows"
  by (simp add: update_row_def)

lemma map_update_row:
  "(\<And>r. r \<in> set rows \<Longrightarrow> key r = k \<Longrightarrow> g (f r) = g r) \<Longrightarrow> map g (update_row key k f rows) = map g rows"
  by (auto simp: update_row_def)

lemma set_update_row:
  "x \<in> set (update_row key k f rows) \<Longrightarrow>
   (\<exists>r \<in> set rows. key r = k \<and> x = f r) \<or> (x \<in> set rows \<and> key x \<noteq> k)"
  by (auto simp: update_row_def)

lemma find_update_row_other:
  "j \<noteq> k \<Longrightarrow> (\<And>r. r \<in> set rows \<Longrightarrow> key r = k \<Longrightarrow> key (f r) = k) \<Longrightarrow>
   find (\<lambda>r. key r = j) (update_row key k f rows) = find (\<lambda>r. key r = j) rows"
  by (induction rows) (auto simp: update_row_def)

lemma sum_list_update_row:
  fixes g :: "'r \<Rightarrow> int"
  assumes "distinct (map key rows)" "r \<in> set rows" "key r = k"
  shows "sum_list (map g (update_row key k f rows)) = sum_list (map g rows) - g r + g (f r)"
  using assms
proof (induction rows)
  case Nil
  then show ?case by simp
next
  case (Cons x rows)
  show ?case
  proof (cases "key x = k")
    case True
    have ne: "\<forall>y \<in> set rows. key y \<noteq> k"
      using Cons.prems(1) True by (metis distinct.simps(2) image_eqI list.set_map list.simps(9))
    with Cons.prems have "x = r" by auto
    from ne have "update_row key k f rows = rows"
      by (induction rows) (auto simp: update_row_def)
    with \<open>x = r\<close> True show ?thesis by (simp add: update_row_def)
  next
    case False
    with Cons show ?thesis by (auto simp: update_row_def)
  qed
qed

end
