(* ===== verification/Errors.thy ===== *)
theory Errors
  imports Prelude
begin

text \<open>
  \<open>src/lib/errors.js\<close>: the values the code throws, the constructors of application errors
  and the mapping of database errors to application errors.

  Anything thrown is a \<open>js_error\<close>: \<open>instanceof_AppError\<close> is the test
  \<open>err instanceof AppError\<close>, and a field a thrown object may lack (\<open>code\<close>, \<open>details\<close>,
  \<open>type\<close>) is an option whose \<open>None\<close> is \<open>undefined\<close>. \<open>err_statusCode\<close> is read by the
  code on application errors only.
\<close>

section \<open>Thrown values\<close>

record issue =
  issue_location :: string
  issue_path :: string
  issue_message :: string

record js_error =
  instanceof_AppError :: bool
  err_name :: string
  err_statusCode :: int
  err_code :: "string option"
  err_message :: string
  err_details :: "issue list option"
  err_type :: "string option"

definition AppError :: "int \<Rightarrow> string \<Rightarrow> string \<Rightarrow> issue list option \<Rightarrow> js_error" where
  "AppError statusCode code message details =
     \<lparr>instanceof_AppError = True, err_name = ''AppError'', err_statusCode = statusCode,
      err_code = Some code, err_message = message, err_details = details, err_type = None\<rparr>"

text \<open>An error object of another class (a driver error, a \<open>RangeError\<close>, \<open>UnrecoverableError\<close>).\<close>

definition other_error :: "string \<Rightarrow> string option \<Rightarrow> string \<Rightarrow> js_error" where
  "other_error name code message =
     \<lparr>instanceof_AppError = False, err_name = name, err_statusCode = 0,
      err_code = code, err_message = message, err_details = None, err_type = None\<rparr>"

section \<open>Constructors of application errors\<close>

definition badRequest :: "string \<Rightarrow> string \<Rightarrow> issue list option \<Rightarrow> js_error" where
  "badRequest code message details = AppError 400 code message details"

definition unauthorized :: "string option \<Rightarrow> string option \<Rightarrow> js_error" where
  "unauthorized message code =
     AppError 401 (case code of None \<Rightarrow> ''UNAUTHORIZED'' | Some c \<Rightarrow> c)
       (case message of None \<Rightarrow> ''Authentication required'' | Some m \<Rightarrow> m) None"

definition forbidden :: "string option \<Rightarrow> js_error" where
  "forbidden message = AppError 403 ''FORBIDDEN''
     (case message of None \<Rightarrow> ''You do not have permission to perform this action'' | Some m \<Rightarrow> m) None"

definition notFound :: "string option \<Rightarrow> string option \<Rightarrow> js_error" where
  "notFound message code =
     AppError 404 (case code of None \<Rightarrow> ''NOT_FOUND'' | Some c \<Rightarrow> c)
       (case message of None \<Rightarrow> ''Resource not found'' | Some m \<Rightarrow> m) None"

definition conflict :: "string \<Rightarrow> string \<Rightarrow> js_error" where
  "conflict code message = AppError 409 code message None"

section \<open>Database errors\<close>

definition DATABASE_ERRORS :: "string \<Rightarrow> (int \<times> string) option" where
  "DATABASE_ERRORS = map_of
     [(''WL001'', (400, ''INVALID_AMOUNT'')),
      (''WL002'', (400, ''SELF_TRANSFER_NOT_ALLOWED'')),
      (''WL003'', (404, ''SENDER_WALLET_NOT_FOUND'')),
      (''WL004'', (404, ''RECIPIENT_NOT_FOUND'')),
      (''WL005'', (422, ''INSUFFICIENT_FUNDS''))]"

definition mapDatabaseError :: "js_error \<Rightarrow> js_error" where
  "mapDatabaseError err =
     (case Option.bind (err_code err) DATABASE_ERRORS of
        Some (statusCode, code) \<Rightarrow> AppError statusCode code (err_message err) None
      | None \<Rightarrow>
          if err_code err = Some ''23505''
          then conflict ''DUPLICATE_RESOURCE'' ''Resource already exists''
          else if err_code err = Some ''23514''
          then badRequest ''CONSTRAINT_VIOLATION'' ''Request violates a data integrity rule'' None
          else err)"

lemmas app_error_defs =
  AppError_def badRequest_def unauthorized_def forbidden_def notFound_def conflict_def other_error_def

lemma DATABASE_ERRORS_simps [simp]:
  "DATABASE_ERRORS ''WL001'' = Some (400, ''INVALID_AMOUNT'')"
  "DATABASE_ERRORS ''WL002'' = Some (400, ''SELF_TRANSFER_NOT_ALLOWED'')"
  "DATABASE_ERRORS ''WL003'' = Some (404, ''SENDER_WALLET_NOT_FOUND'')"
  "DATABASE_ERRORS ''WL004'' = Some (404, ''RECIPIENT_NOT_FOUND'')"
  "DATABASE_ERRORS ''WL005'' = Some (422, ''INSUFFICIENT_FUNDS'')"
  by (simp_all add: DATABASE_ERRORS_def)

text \<open>The error codes the mapping knows.\<close>

definition mapped_code :: "string \<Rightarrow> bool" where
  "mapped_code c \<longleftrightarrow> DATABASE_ERRORS c \<noteq> None \<or> c = ''23505'' \<or> c = ''23514''"

lemma mapped_code_iff:
  "mapped_code c \<longleftrightarrow> c \<in> set [''WL001'', ''WL002'', ''WL003'', ''WL004'', ''WL005'', ''23505'', ''23514'']"
  by (simp only: mapped_code_def DATABASE_ERRORS_def map_of_eq_None_iff) auto

lemma mapDatabaseError_unmapped:
  assumes "\<And>c. err_code e = Some c \<Longrightarrow> \<not> mapped_code c"
  shows "mapDatabaseError e = e"
proof (cases "err_code e")
  case None
  then show ?thesis by (simp add: mapDatabaseError_def)
next
  case (Some c)
  with assms have "DATABASE_ERRORS c = None" "c \<noteq> ''23505''" "c \<noteq> ''23514''"
    by (simp_all only: mapped_code_def) blast+
  with Some show ?thesis by (simp only: mapDatabaseError_def) simp
qed

lemma mapDatabaseError_mapped:
  assumes "err_code e = Some c" and "mapped_code c"
  shows "instanceof_AppError (mapDatabaseError e)"
proof (cases "DATABASE_ERRORS c")
  case None
  with assms show ?thesis
    by (auto simp: mapDatabaseError_def mapped_code_def AppError_def conflict_def badRequest_def)
next
  case (Some p)
  with assms show ?thesis
    by (cases p) (simp add: mapDatabaseError_def AppError_def)
qed

lemma mapDatabaseError_isApp:
  "instanceof_AppError (mapDatabaseError e) \<longleftrightarrow>
   instanceof_AppError e \<or> (\<exists>c. err_code e = Some c \<and> mapped_code c)"
  by (metis mapDatabaseError_mapped mapDatabaseError_unmapped)

end
