(* ===== verification/Schema.thy ===== *)
theory Schema
  imports Prelude
begin

text \<open>
  The PostgreSQL schema of \<open>db/migrations/001_create_schema.sql\<close> and the triggers of
  \<open>db/migrations/002_create_ledger_triggers.sql\<close>: one record per table, the database as the
  record of its tables, identity sequences and session settings, and one function per kind of
  statement, which checks the constraints of the table it writes and fires its triggers.

  A statement is an effect over the database whose error is an SQLSTATE with a message. A
  \<open>BIGINT\<close> is an \<open>int\<close> whose range is checked where the SQL computes one, since PostgreSQL
  raises \<open>22003\<close> instead of wrapping around. Columns the program never writes as \<open>NULL\<close> are
  not options. Identity sequences are not transactional: a rolled back statement keeps them.
\<close>

section \<open>Types and tables\<close>

datatype user_role = USER | ADMIN
datatype receipt_status = NOT_REQUIRED | PENDING | GENERATED | FAILED
datatype ledger_entry_type = OPENING | DEBIT | CREDIT

type_synonym uuid = string

record user_row =
  u_id :: int
  u_username :: string
  u_password_hash :: string
  u_full_name :: string
  u_role :: user_role
  u_created_at :: int
  u_updated_at :: int

record wallet_row =
  w_id :: int
  w_user_id :: int
  w_balance :: int
  w_created_at :: int
  w_updated_at :: int

record tx_row =
  t_id :: uuid
  t_from_wallet_id :: int
  t_to_wallet_id :: int
  t_amount :: int
  t_description :: "string option"
  t_receipt_status :: receipt_status
  t_receipt_url :: "string option"
  t_receipt_object_key :: "string option"
  t_created_at :: int
  t_updated_at :: int

record ledger_row =
  l_id :: int
  l_wallet_id :: int
  l_transaction_id :: "uuid option"
  l_entry_type :: ledger_entry_type
  l_amount :: int
  l_balance_before :: int
  l_balance_after :: int
  l_created_at :: int

text \<open>
  \<open>now_ts\<close> is the transaction timestamp \<open>now()\<close>, \<open>next_uuid\<close> the value the next call of
  \<open>gen_random_uuid()\<close> returns, and \<open>current_tx\<close> the setting \<open>app.current_transaction_id\<close>
  (\<open>None\<close> when it is unset or empty).
\<close>

record db =
  users :: "user_row list"
  wallets :: "wallet_row list"
  transactions :: "tx_row list"
  transaction_ledger :: "ledger_row list"
  users_seq :: int
  wallets_seq :: int
  ledger_seq :: int
  now_ts :: int
  next_uuid :: uuid
  current_tx :: "uuid option"

record sql_error =
  sqlstate :: string
  sqlerrm :: string

type_synonym 'a sql = "(sql_error, db, 'a) eff"

abbreviation sql_err :: "string \<Rightarrow> string \<Rightarrow> sql_error" where
  "sql_err st msg \<equiv> \<lparr>sqlstate = st, sqlerrm = msg\<rparr>"

section \<open>Constraints\<close>

definition int8_ok :: "int \<Rightarrow> bool" where
  "int8_ok n \<longleftrightarrow> - (2 ^ 63) \<le> n \<and> n < 2 ^ 63"

text \<open>
  Storing a value into \<open>VARCHAR(n)\<close>: too long a value raises \<open>22001\<close>, unless the excess
  characters are all spaces, which are cut off.
\<close>

definition varchar :: "nat \<Rightarrow> string \<Rightarrow> sql_error + string" where
  "varchar n s =
     (if length s \<le> n then Inr s
      else if set (drop n s) \<subseteq> {CHR '' ''} then Inr (take n s)
      else Inl (sql_err ''22001'' ''value too long for type character varying''))"

definition username_char :: "char \<Rightarrow> bool" where
  "username_char c \<longleftrightarrow>
     (CHR ''a'' \<le> c \<and> c \<le> CHR ''z'') \<or> (CHR ''0'' \<le> c \<and> c \<le> CHR ''9'') \<or> c = CHR ''_''"

definition username_format :: "string \<Rightarrow> bool" where
  "username_format s \<longleftrightarrow> 3 \<le> length s \<and> length s \<le> 50 \<and> list_all username_char s"

definition users_check :: "user_row \<Rightarrow> bool" where
  "users_check u \<longleftrightarrow> username_format (u_username u) \<and> (\<exists>c \<in> set (u_full_name u). c \<noteq> CHR '' '')"

definition wallets_check :: "wallet_row \<Rightarrow> bool" where
  "wallets_check w \<longleftrightarrow> 0 \<le> w_balance w"

definition transactions_check :: "tx_row \<Rightarrow> bool" where
  "transactions_check t \<longleftrightarrow>
     0 < t_amount t \<and>
     t_from_wallet_id t \<noteq> t_to_wallet_id t \<and>
     ((t_receipt_status t = GENERATED) =
      (t_receipt_url t \<noteq> None \<and> t_receipt_object_key t \<noteq> None))"

definition ledger_check :: "ledger_row \<Rightarrow> bool" where
  "ledger_check l \<longleftrightarrow>
     0 < l_amount l \<and>
     0 \<le> l_balance_before l \<and> 0 \<le> l_balance_after l \<and>
     (l_transaction_id l \<noteq> None \<or> l_entry_type l = OPENING) \<and>
     ((l_entry_type l = DEBIT \<and> l_balance_after l = l_balance_before l - l_amount l) \<or>
      (l_entry_type l = CREDIT \<and> l_balance_after l = l_balance_before l + l_amount l) \<or>
      (l_entry_type l = OPENING \<and> l_balance_before l = 0 \<and> l_balance_after l = l_amount l))"

definition check_violation :: sql_error where
  "check_violation = sql_err ''23514'' ''new row violates check constraint''"

definition unique_violation :: sql_error where
  "unique_violation = sql_err ''23505'' ''duplicate key value violates unique constraint''"

definition foreign_key_violation :: sql_error where
  "foreign_key_violation = sql_err ''23503'' ''insert or update violates foreign key constraint''"

definition bigint_out_of_range :: sql_error where
  "bigint_out_of_range = sql_err ''22003'' ''bigint out of range''"

definition lift_check :: "sql_error + 'a \<Rightarrow> 'a sql" where
  "lift_check r = (case r of Inl e \<Rightarrow> throw e | Inr x \<Rightarrow> ret x)"

section \<open>Inserting rows\<close>

definition insert_user :: "string \<Rightarrow> string \<Rightarrow> string \<Rightarrow> user_role \<Rightarrow> user_row sql" where
  "insert_user username password_hash full_name role =
     await (get_state id) (\<lambda>d.
     await (modify (\<lambda>d. d\<lparr>users_seq := users_seq d + 1\<rparr>)) (\<lambda>_.
     await (lift_check (varchar 50 username)) (\<lambda>uname.
     await (lift_check (varchar 100 full_name)) (\<lambda>fname.
     let row = \<lparr>u_id = users_seq d, u_username = uname, u_password_hash = password_hash,
                u_full_name = fname, u_role = role, u_created_at = now_ts d, u_updated_at = now_ts d\<rparr> in
     await (guard_not (\<not> users_check row) check_violation) (\<lambda>_.
     await (guard_not (u_id row \<in> u_id ` set (users d) \<or> u_username row \<in> u_username ` set (users d))
              unique_violation) (\<lambda>_.
     await (modify (\<lambda>d. d\<lparr>users := users d @ [row]\<rparr>)) (\<lambda>_.
     ret row)))))))"

text \<open>A ledger row; the identity column is filled from its sequence.\<close>

definition insert_ledger ::
  "int \<Rightarrow> uuid option \<Rightarrow> ledger_entry_type \<Rightarrow> int \<Rightarrow> int \<Rightarrow> int \<Rightarrow> unit sql" where
  "insert_ledger wallet_id transaction_id entry_type amount balance_before balance_after =
     await (get_state id) (\<lambda>d.
     await (modify (\<lambda>d. d\<lparr>ledger_seq := ledger_seq d + 1\<rparr>)) (\<lambda>_.
     let row = \<lparr>l_id = ledger_seq d, l_wallet_id = wallet_id, l_transaction_id = transaction_id,
                l_entry_type = entry_type, l_amount = amount, l_balance_before = balance_before,
                l_balance_after = balance_after, l_created_at = now_ts d\<rparr> in
     await (guard_not (\<not> ledger_check row) check_violation) (\<lambda>_.
     await (guard_not (l_id row \<in> l_id ` set (transaction_ledger d) \<or>
              (transaction_id \<noteq> None \<and>
               (\<exists>l \<in> set (transaction_ledger d).
                  l_transaction_id l = transaction_id \<and> l_wallet_id l = wallet_id)))
              unique_violation) (\<lambda>_.
     await (guard_not (wallet_id \<notin> w_id ` set (wallets d) \<or>
              (\<exists>t. transaction_id = Some t \<and> t \<notin> t_id ` set (transactions d)))
              foreign_key_violation) (\<lambda>_.
     modify (\<lambda>d. d\<lparr>transaction_ledger := transaction_ledger d @ [row]\<rparr>))))))"

section \<open>The ledger trigger\<close>

text \<open>The branch \<open>TG_OP = 'INSERT'\<close> of \<open>fn_wallet_balance_ledger\<close>, fired after a wallet is inserted.\<close>

definition fn_wallet_balance_ledger_insert :: "wallet_row \<Rightarrow> unit sql" where
  "fn_wallet_balance_ledger_insert NEW =
     (if 0 < w_balance NEW
      then insert_ledger (w_id NEW) None OPENING (w_balance NEW) 0 (w_balance NEW)
      else ret ())"

text \<open>The rest of the function, fired after an update of \<open>balance\<close>.\<close>

definition fn_wallet_balance_ledger_update :: "wallet_row \<Rightarrow> wallet_row \<Rightarrow> unit sql" where
  "fn_wallet_balance_ledger_update OLD NEW =
     await (get_state current_tx) (\<lambda>v_transaction_id.
     await (guard_not (v_transaction_id = None)
              (sql_err ''WL006'' ''Wallet balance can only be changed by transfer_funds'')) (\<lambda>_.
     insert_ledger (w_id NEW) v_transaction_id
       (if w_balance NEW < w_balance OLD then DEBIT else CREDIT)
       \<bar>w_balance NEW - w_balance OLD\<bar> (w_balance OLD) (w_balance NEW)))"

text \<open>\<open>fn_ledger_append_only\<close>, the trigger before every update or delete of a ledger row.\<close>

definition fn_ledger_append_only :: "string \<Rightarrow> 'a sql" where
  "fn_ledger_append_only tg_op =
     throw (sql_err ''WL007'' (''transaction_ledger is append-only: '' @ tg_op @ '' is not allowed''))"

text \<open>
  An \<open>UPDATE\<close> or \<open>DELETE\<close> on \<open>transaction_ledger\<close> runs the trigger for each row it selects,
  and raises at the first.
\<close>

definition update_ledger :: "(ledger_row \<Rightarrow> bool) \<Rightarrow> (ledger_row \<Rightarrow> ledger_row) \<Rightarrow> nat sql" where
  "update_ledger sel f =
     await (get_state (filter sel \<circ> transaction_ledger)) (\<lambda>rows.
     await (for_each rows (\<lambda>_. fn_ledger_append_only ''UPDATE'')) (\<lambda>_.
     await (modify (\<lambda>d. d\<lparr>transaction_ledger :=
              map (\<lambda>l. if sel l then f l else l) (transaction_ledger d)\<rparr>)) (\<lambda>_.
     ret (length rows))))"

definition delete_ledger :: "(ledger_row \<Rightarrow> bool) \<Rightarrow> nat sql" where
  "delete_ledger sel =
     await (get_state (filter sel \<circ> transaction_ledger)) (\<lambda>rows.
     await (for_each rows (\<lambda>_. fn_ledger_append_only ''DELETE'')) (\<lambda>_.
     await (modify (\<lambda>d. d\<lparr>transaction_ledger := filter (Not \<circ> sel) (transaction_ledger d)\<rparr>)) (\<lambda>_.
     ret (length rows))))"

section \<open>Wallets and transactions\<close>

definition insert_wallet :: "int \<Rightarrow> int \<Rightarrow> wallet_row sql" where
  "insert_wallet user_id balance =
     await (get_state id) (\<lambda>d.
     await (modify (\<lambda>d. d\<lparr>wallets_seq := wallets_seq d + 1\<rparr>)) (\<lambda>_.
     let row = \<lparr>w_id = wallets_seq d, w_user_id = user_id, w_balance = balance,
                w_created_at = now_ts d, w_updated_at = now_ts d\<rparr> in
     await (guard_not (\<not> int8_ok balance) bigint_out_of_range) (\<lambda>_.
     await (guard_not (\<not> wallets_check row) check_violation) (\<lambda>_.
     await (guard_not (w_id row \<in> w_id ` set (wallets d) \<or> user_id \<in> w_user_id ` set (wallets d))
              unique_violation) (\<lambda>_.
     await (guard_not (user_id \<notin> u_id ` set (users d)) foreign_key_violation) (\<lambda>_.
     await (modify (\<lambda>d. d\<lparr>wallets := wallets d @ [row]\<rparr>)) (\<lambda>_.
     await (fn_wallet_balance_ledger_insert row) (\<lambda>_.
     ret row))))))))"

text \<open>The trigger \<open>fn_set_updated_at\<close> on the two tables the program updates.\<close>

definition set_updated_at_wallet :: "db \<Rightarrow> wallet_row \<Rightarrow> wallet_row" where
  "set_updated_at_wallet d w = w\<lparr>w_updated_at := now_ts d\<rparr>"

definition set_updated_at_tx :: "db \<Rightarrow> tx_row \<Rightarrow> tx_row" where
  "set_updated_at_tx d t = t\<lparr>t_updated_at := now_ts d\<rparr>"

text \<open>
  \<open>UPDATE wallets SET balance = balance + delta WHERE id = wid\<close>: the new balance is range
  checked, \<open>updated_at\<close> set, the row checked and stored, and the ledger trigger fired when the
  balance changed.
\<close>

definition update_wallet_balance :: "int \<Rightarrow> int \<Rightarrow> unit sql" where
  "update_wallet_balance wid delta =
     await (get_state id) (\<lambda>d.
     case find (\<lambda>w. w_id w = wid) (wallets d) of
       None \<Rightarrow> ret ()
     | Some OLD \<Rightarrow>
         let NEW = set_updated_at_wallet d (OLD\<lparr>w_balance := w_balance OLD + delta\<rparr>) in
         await (guard_not (\<not> int8_ok (w_balance NEW)) bigint_out_of_range) (\<lambda>_.
         await (guard_not (\<not> wallets_check NEW) check_violation) (\<lambda>_.
         await (modify (\<lambda>d. d\<lparr>wallets := update_row w_id wid (\<lambda>_. NEW) (wallets d)\<rparr>)) (\<lambda>_.
         if w_balance OLD \<noteq> w_balance NEW then fn_wallet_balance_ledger_update OLD NEW else ret ()))))"

definition insert_transaction ::
  "int \<Rightarrow> int \<Rightarrow> int \<Rightarrow> string option \<Rightarrow> receipt_status \<Rightarrow> uuid sql" where
  "insert_transaction from_wallet_id to_wallet_id amount description status =
     await (get_state id) (\<lambda>d.
     await (case description of
              None \<Rightarrow> ret None
            | Some s \<Rightarrow> await (lift_check (varchar 255 s)) (\<lambda>v. ret (Some v))) (\<lambda>descr.
     let row = \<lparr>t_id = next_uuid d, t_from_wallet_id = from_wallet_id, t_to_wallet_id = to_wallet_id,
                t_amount = amount, t_description = descr, t_receipt_status = status,
                t_receipt_url = None, t_receipt_object_key = None,
                t_created_at = now_ts d, t_updated_at = now_ts d\<rparr> in
     await (guard_not (\<not> transactions_check row) check_violation) (\<lambda>_.
     await (guard_not (t_id row \<in> t_id ` set (transactions d)) unique_violation) (\<lambda>_.
     await (guard_not (from_wallet_id \<notin> w_id ` set (wallets d) \<or> to_wallet_id \<notin> w_id ` set (wallets d))
              foreign_key_violation) (\<lambda>_.
     await (modify (\<lambda>d. d\<lparr>transactions := transactions d @ [row]\<rparr>)) (\<lambda>_.
     ret (t_id row)))))))"

text \<open>
  \<open>UPDATE transactions SET \<dots> WHERE id = tid AND cond\<close>: every new row passes the checks or the
  statement fails; the result is the row count.
\<close>

definition update_transactions ::
  "(tx_row \<Rightarrow> bool) \<Rightarrow> (tx_row \<Rightarrow> tx_row) \<Rightarrow> nat sql" where
  "update_transactions sel f =
     await (get_state id) (\<lambda>d.
     let new = (\<lambda>t. set_updated_at_tx d (f t)) in
     await (guard_not (\<exists>t \<in> set (transactions d). sel t \<and> \<not> transactions_check (new t))
              check_violation) (\<lambda>_.
     await (modify (\<lambda>d. d\<lparr>transactions := map (\<lambda>t. if sel t then new t else t) (transactions d)\<rparr>)) (\<lambda>_.
     ret (length (filter sel (transactions d))))))"

section \<open>Atomic statements\<close>

text \<open>
  The database after a rollback to \<open>d0\<close>: its tables again, the sequences as the failed
  statement left them, and the transaction-local setting gone.
\<close>

definition rollback_to :: "db \<Rightarrow> db \<Rightarrow> db" where
  "rollback_to d0 d =
     d\<lparr>users := users d0, wallets := wallets d0, transactions := transactions d0,
       transaction_ledger := transaction_ledger d0, current_tx := None\<rparr>"

definition commit_db :: "db \<Rightarrow> db" where
  "commit_db d = d\<lparr>current_tx := None\<rparr>"

text \<open>A statement run on its own is a transaction of its own.\<close>

definition autocommit :: "'a sql \<Rightarrow> 'a sql" where
  "autocommit m = (\<lambda>d. case m d of
     (Inl e, d') \<Rightarrow> (Inl e, rollback_to d d')
   | (Inr x, d') \<Rightarrow> (Inr x, commit_db d'))"

end
