(* ===== verification/Integrity.thy ===== *)
theory Integrity
  imports Schema
begin

text \<open>
  The integrity of the database: what the constraints of the schema promise of every committed
  state (unique keys, foreign keys, row checks) and what the ledger promises on top of them
  (each wallet's statement is a chain from 0 to its balance, each transfer has exactly its
  debit and its credit, and the money in the wallets is the money that was issued). The locale
  \<open>invariant_statement\<close> is the contract of a statement that keeps such a property.
\<close>

section \<open>The invariant\<close>

definition wf_users :: "db \<Rightarrow> bool" where
  "wf_users d \<longleftrightarrow>
     distinct (map u_id (users d)) \<and> distinct (map u_username (users d)) \<and>
     (\<forall>u \<in> set (users d). u_id u < users_seq d \<and> users_check u)"

definition wf_wallets :: "db \<Rightarrow> bool" where
  "wf_wallets d \<longleftrightarrow>
     distinct (map w_id (wallets d)) \<and> distinct (map w_user_id (wallets d)) \<and>
     (\<forall>w \<in> set (wallets d). w_id w < wallets_seq d \<and> 0 \<le> w_balance w \<and> int8_ok (w_balance w) \<and>
        w_user_id w \<in> u_id ` set (users d))"

definition wf_transactions :: "db \<Rightarrow> bool" where
  "wf_transactions d \<longleftrightarrow>
     distinct (map t_id (transactions d)) \<and>
     (\<forall>t \<in> set (transactions d). transactions_check t \<and>
        t_from_wallet_id t \<in> w_id ` set (wallets d) \<and> t_to_wallet_id t \<in> w_id ` set (wallets d))"

definition wf_ledger :: "db \<Rightarrow> bool" where
  "wf_ledger d \<longleftrightarrow>
     distinct (map l_id (transaction_ledger d)) \<and>
     (\<forall>l \<in> set (transaction_ledger d). l_id l < ledger_seq d \<and> ledger_check l \<and>
        l_wallet_id l \<in> w_id ` set (wallets d) \<and>
        (l_transaction_id l = None \<longleftrightarrow> l_entry_type l = OPENING) \<and>
        (\<forall>t. l_transaction_id l = Some t \<longrightarrow> t \<in> t_id ` set (transactions d)))"

text \<open>The statement of a wallet, and the chain of balances it runs through.\<close>

definition statement :: "db \<Rightarrow> int \<Rightarrow> ledger_row list" where
  "statement d wid = filter (\<lambda>l. l_wallet_id l = wid) (transaction_ledger d)"

fun ledger_chain :: "int \<Rightarrow> ledger_row list \<Rightarrow> int option" where
  "ledger_chain b [] = Some b"
| "ledger_chain b (l # ls) = (if l_balance_before l = b then ledger_chain (l_balance_after l) ls else None)"

definition ledger_agrees :: "db \<Rightarrow> bool" where
  "ledger_agrees d \<longleftrightarrow>
     (\<forall>w \<in> set (wallets d). ledger_chain 0 (statement d (w_id w)) = Some (w_balance w))"

definition entries_of :: "db \<Rightarrow> uuid \<Rightarrow> (int \<times> ledger_entry_type \<times> int) list" where
  "entries_of d tid = map (\<lambda>l. (l_wallet_id l, l_entry_type l, l_amount l))
     (filter (\<lambda>l. l_transaction_id l = Some tid) (transaction_ledger d))"

definition double_entry :: "db \<Rightarrow> bool" where
  "double_entry d \<longleftrightarrow>
     (\<forall>t \<in> set (transactions d). entries_of d (t_id t) =
        [(t_from_wallet_id t, DEBIT, t_amount t), (t_to_wallet_id t, CREDIT, t_amount t)])"

definition total_balance :: "db \<Rightarrow> int" where
  "total_balance d = sum_list (map w_balance (wallets d))"

definition opening_amount :: "ledger_row \<Rightarrow> int" where
  "opening_amount l = (if l_entry_type l = OPENING then l_amount l else 0)"

definition issued :: "db \<Rightarrow> int" where
  "issued d = sum_list (map opening_amount (transaction_ledger d))"

definition db_ok :: "db \<Rightarrow> bool" where
  "db_ok d \<longleftrightarrow> wf_users d \<and> wf_wallets d \<and> wf_transactions d \<and> wf_ledger d \<and>
     ledger_agrees d \<and> double_entry d \<and> total_balance d = issued d \<and> current_tx d = None"

lemmas wf_defs = wf_users_def wf_wallets_def wf_transactions_def wf_ledger_def

definition empty_db :: db where
  "empty_db = \<lparr>users = [], wallets = [], transactions = [], transaction_ledger = [],
     users_seq = 1, wallets_seq = 1, ledger_seq = 1, now_ts = 0, next_uuid = ''u0'', current_tx = None\<rparr>"

lemma db_ok_empty: "db_ok empty_db"
  by (simp add: db_ok_def wf_defs ledger_agrees_def double_entry_def total_balance_def issued_def empty_db_def)

section \<open>Rows of a wallet and of a user\<close>

definition wallet_of :: "db \<Rightarrow> int \<Rightarrow> wallet_row option" where
  "wallet_of d uid = find (\<lambda>w. w_user_id w = uid) (wallets d)"

definition wallet_by_id :: "db \<Rightarrow> int \<Rightarrow> wallet_row option" where
  "wallet_by_id d wid = find (\<lambda>w. w_id w = wid) (wallets d)"

lemma wallet_of_SomeD: "wallet_of d uid = Some w \<Longrightarrow> w \<in> set (wallets d) \<and> w_user_id w = uid"
  unfolding wallet_of_def by (rule find_SomeD)

lemma wallet_of_iff:
  "wf_wallets d \<Longrightarrow> wallet_of d uid = Some w \<longleftrightarrow> w \<in> set (wallets d) \<and> w_user_id w = uid"
  by (simp add: wallet_of_def find_Some_iff_mem wf_wallets_def)

lemma wallet_by_id_iff:
  "wf_wallets d \<Longrightarrow> wallet_by_id d wid = Some w \<longleftrightarrow> w \<in> set (wallets d) \<and> w_id w = wid"
  by (simp add: wallet_by_id_def find_Some_iff_mem wf_wallets_def)

lemma ledger_chain_append:
  "ledger_chain b (xs @ ys) = Option.bind (ledger_chain b xs) (\<lambda>c. ledger_chain c ys)"
  by (induction xs arbitrary: b) auto

lemma statement_snoc:
  "statement (d\<lparr>transaction_ledger := transaction_ledger d @ ls\<rparr>) wid =
   statement d wid @ filter (\<lambda>l. l_wallet_id l = wid) ls"
  by (simp add: statement_def)

text \<open>What the chain says: the statement sums up to the balance, and ends in it.\<close>

definition signed_amount :: "ledger_row \<Rightarrow> int" where
  "signed_amount l = (case l_entry_type l of DEBIT \<Rightarrow> - l_amount l | _ \<Rightarrow> l_amount l)"

lemma ledger_check_step: "ledger_check l \<Longrightarrow> l_balance_after l = l_balance_before l + signed_amount l"
  by (cases "l_entry_type l") (auto simp: ledger_check_def signed_amount_def)

lemma ledger_chain_sum:
  "list_all ledger_check ls \<Longrightarrow> ledger_chain b ls = Some c \<Longrightarrow> c = b + sum_list (map signed_amount ls)"
proof (induction ls arbitrary: b)
  case Nil
  then show ?case by simp
next
  case (Cons l ls)
  then have "ledger_chain (l_balance_after l) ls = Some c" and "b = l_balance_before l"
    by (simp_all split: if_splits)
  moreover from Cons.prems have "list_all ledger_check ls" "ledger_check l" by simp_all
  ultimately have "c = l_balance_after l + sum_list (map signed_amount ls)"
    by (simp add: Cons.IH)
  with \<open>ledger_check l\<close> \<open>b = _\<close> show ?case by (simp add: ledger_check_step)
qed

lemma ledger_chain_last:
  "ledger_chain b ls = Some c \<Longrightarrow> ls \<noteq> [] \<Longrightarrow> l_balance_after (last ls) = c"
  by (induction ls arbitrary: b) (auto split: if_splits)

section \<open>Statements that keep the integrity\<close>

definition seqs_le :: "db \<Rightarrow> db \<Rightarrow> bool" where
  "seqs_le d d' \<longleftrightarrow> users_seq d \<le> users_seq d' \<and> wallets_seq d \<le> wallets_seq d' \<and> ledger_seq d \<le> ledger_seq d'"

lemma seqs_le_refl [simp]: "seqs_le d d"
  by (simp add: seqs_le_def)

lemma seqs_le_trans: "seqs_le a b \<Longrightarrow> seqs_le b c \<Longrightarrow> seqs_le a c"
  by (simp add: seqs_le_def)

definition tables :: "db \<Rightarrow> user_row list \<times> wallet_row list \<times> tx_row list \<times> ledger_row list" where
  "tables d = (users d, wallets d, transactions d, transaction_ledger d)"

lemma tables_rollback [simp]: "tables (rollback_to d0 d) = tables d0"
  by (simp add: tables_def rollback_to_def)

lemma tables_commit [simp]: "tables (commit_db d) = tables d"
  by (simp add: tables_def commit_db_def)

text \<open>The invariant depends on the tables, and on the sequences only from below.\<close>

lemma db_ok_cong:
  "db_ok d \<Longrightarrow> tables d' = tables d \<Longrightarrow> seqs_le d d' \<Longrightarrow> current_tx d' = None \<Longrightarrow> db_ok d'"
  by (force simp: db_ok_def wf_defs ledger_agrees_def double_entry_def total_balance_def issued_def
      statement_def entries_of_def tables_def seqs_le_def)

text \<open>
  A property of the database that a rollback restores: it looks at the tables only, and at the
  sequences only from below.
\<close>

locale db_invariant =
  fixes P :: "db \<Rightarrow> bool"
  assumes tables_only: "P d \<Longrightarrow> tables d' = tables d \<Longrightarrow> seqs_le d d' \<Longrightarrow> current_tx d' = None \<Longrightarrow> P d'"
begin

lemma rollback: "P d \<Longrightarrow> seqs_le d d' \<Longrightarrow> P (rollback_to d d')"
  by (erule tables_only) (simp_all add: seqs_le_def rollback_to_def tables_def)

lemma commit: "P d \<Longrightarrow> P (commit_db d)"
  by (erule tables_only) (simp_all add: seqs_le_def commit_db_def tables_def)

end

interpretation whole: db_invariant db_ok
  by unfold_locales (rule db_ok_cong)

lemma db_ok_session [simp]:
  "db_ok (d\<lparr>now_ts := n, next_uuid := u\<rparr>) \<longleftrightarrow> db_ok d"
  by (simp add: db_ok_def wf_defs ledger_agrees_def double_entry_def total_balance_def issued_def
      statement_def entries_of_def)

lemma keeps_seqs_mono: "keeps (seqs_le d0) m \<Longrightarrow> seqs_le d0 d \<Longrightarrow> seqs_le d0 (snd (m d))"
  by (rule keepsD)

locale invariant_statement = db_invariant P for P :: "db \<Rightarrow> bool" +
  fixes stmt :: "'a sql"
  assumes success: "P d \<Longrightarrow> stmt d = (Inr x, d') \<Longrightarrow> P d'"
    and seqs: "keeps (seqs_le d0) stmt"
begin

lemma seqs_mono: "seqs_le d (snd (stmt d))"
  using seqs [of d] by (simp add: keeps_def)

lemma autocommit_keeps: "keeps P (autocommit stmt)"
proof (rule keepsI)
  fix d
  assume ok: "P d"
  obtain r d' where eq: "stmt d = (r, d')" by (cases "stmt d")
  with seqs_mono [of d] have le: "seqs_le d d'" by simp
  show "P (snd (autocommit stmt d))"
  proof (cases r)
    case (Inl e)
    with ok le eq show ?thesis by (simp add: autocommit_def rollback)
  next
    case (Inr x)
    with ok eq have "P d'" by (auto intro: success)
    with Inr eq show ?thesis by (simp add: autocommit_def commit)
  qed
qed

lemma autocommit_error_unchanged:
  "autocommit stmt d = (Inl e, d') \<Longrightarrow> tables d' = tables d"
  by (auto simp: autocommit_def split: prod.splits sum.splits)

end

lemma keeps_seqs_modify:
  "(\<And>d. users_seq d \<le> users_seq (g d) \<and> wallets_seq d \<le> wallets_seq (g d) \<and> ledger_seq d \<le> ledger_seq (g d))
   \<Longrightarrow> keeps (seqs_le d0) (modify g)"
  by (rule keepsI) (auto simp: seqs_le_def intro: order_trans)

lemma keeps_lift_check [keeps_intros]: "keeps I (lift_check r)"
  by (cases r) (simp_all add: lift_check_def keeps_intros)

lemma keeps_Let [keeps_intros]: "keeps I (f x) \<Longrightarrow> keeps I (let y = x in f y)"
  by simp

lemma lift_check_InrE:
  assumes "await (lift_check r) f s = (Inr y, u)"
  obtains x where "r = Inr x" and "f x s = (Inr y, u)"
  using assms by (cases r) (auto simp: lift_check_def)

section \<open>New users and new wallets\<close>

lemma seqs_insert_user: "keeps (seqs_le d0) (insert_user u h f r)"
  unfolding insert_user_def by (intro keeps_intros keeps_seqs_modify) auto

lemma seqs_insert_ledger: "keeps (seqs_le d0) (insert_ledger w t e a b c)"
  unfolding insert_ledger_def by (intro keeps_intros keeps_seqs_modify) auto

lemma seqs_insert_wallet: "keeps (seqs_le d0) (insert_wallet u b)"
  unfolding insert_wallet_def fn_wallet_balance_ledger_insert_def
  by (intro keeps_intros keeps_seqs_modify seqs_insert_ledger) auto

lemma insert_user_InrD:
  assumes "insert_user username hash full_name role d = (Inr row, d')"
  shows "d' = d\<lparr>users_seq := users_seq d + 1, users := users d @ [row]\<rparr> \<and>
    u_id row = users_seq d \<and> u_role row = role \<and> u_password_hash row = hash \<and>
    varchar 50 username = Inr (u_username row) \<and> varchar 100 full_name = Inr (u_full_name row) \<and>
    u_created_at row = now_ts d \<and> users_check row \<and>
    u_id row \<notin> u_id ` set (users d) \<and> u_username row \<notin> u_username ` set (users d)"
  using assms
  by (auto simp: insert_user_def Let_def elim!: await_InrE await_guard_InrE lift_check_InrE
      simp: guard_not_def lift_check_def split: if_splits sum.splits)

lemma insert_ledger_InrD:
  assumes "insert_ledger wid tid et a b c d = (Inr (), d')"
  obtains row where
    "d' = d\<lparr>ledger_seq := ledger_seq d + 1, transaction_ledger := transaction_ledger d @ [row]\<rparr>"
    "row = \<lparr>l_id = ledger_seq d, l_wallet_id = wid, l_transaction_id = tid, l_entry_type = et,
       l_amount = a, l_balance_before = b, l_balance_after = c, l_created_at = now_ts d\<rparr>"
    "ledger_check row" "wid \<in> w_id ` set (wallets d)"
    "\<And>t. tid = Some t \<Longrightarrow> t \<in> t_id ` set (transactions d)"
  using assms
  by (auto simp: insert_ledger_def Let_def elim!: await_InrE await_guard_InrE
      simp: guard_not_def split: if_splits)


lemma insert_wallet_InrD:
  assumes "insert_wallet uid balance d = (Inr row, d')"
  obtains ls where
    "d' = d\<lparr>wallets_seq := wallets_seq d + 1, wallets := wallets d @ [row],
       ledger_seq := ledger_seq d + int (length ls), transaction_ledger := transaction_ledger d @ ls\<rparr>"
    "row = \<lparr>w_id = wallets_seq d, w_user_id = uid, w_balance = balance,
       w_created_at = now_ts d, w_updated_at = now_ts d\<rparr>"
    "ls = (if 0 < balance
       then [\<lparr>l_id = ledger_seq d, l_wallet_id = wallets_seq d, l_transaction_id = None, l_entry_type = OPENING,
              l_amount = balance, l_balance_before = 0, l_balance_after = balance, l_created_at = now_ts d\<rparr>]
       else [])"
    "0 \<le> balance" "int8_ok balance" "uid \<notin> w_user_id ` set (wallets d)" "uid \<in> u_id ` set (users d)"
proof -
  let ?row = "\<lparr>w_id = wallets_seq d, w_user_id = uid, w_balance = balance,
       w_created_at = now_ts d, w_updated_at = now_ts d\<rparr>"
  let ?d = "d\<lparr>wallets_seq := wallets_seq d + 1, wallets := wallets d @ [?row]\<rparr>"
  from assms have guards: "0 \<le> balance" "int8_ok balance" "uid \<notin> w_user_id ` set (wallets d)"
      "uid \<in> u_id ` set (users d)"
    and row: "row = ?row" and trig: "fn_wallet_balance_ledger_insert ?row ?d = (Inr (), d')"
    by (auto simp: insert_wallet_def Let_def wallets_check_def guard_not_def elim!: await_InrE
        split: if_splits)
  show ?thesis
  proof (cases "0 < balance")
    case False
    with trig have "d' = ?d" by (simp add: fn_wallet_balance_ledger_insert_def)
    with guards row False show ?thesis by (intro that [of "[]"]) simp_all
  next
    case True
    with trig have "insert_ledger (wallets_seq d) None OPENING balance 0 balance ?d = (Inr (), d')"
      by (simp add: fn_wallet_balance_ledger_insert_def)
    then obtain l where
      "d' = ?d\<lparr>ledger_seq := ledger_seq d + 1, transaction_ledger := transaction_ledger d @ [l]\<rparr>"
      "l = \<lparr>l_id = ledger_seq d, l_wallet_id = wallets_seq d, l_transaction_id = None, l_entry_type = OPENING,
              l_amount = balance, l_balance_before = 0, l_balance_after = balance, l_created_at = now_ts d\<rparr>"
      by (rule insert_ledger_InrD) simp
    with guards row True show ?thesis by (intro that [of "[l]"]) simp_all
  qed
qed

lemma insert_user_db_ok: "db_ok d \<Longrightarrow> insert_user u h f r d = (Inr row, d') \<Longrightarrow> db_ok d'"
  by (drule insert_user_InrD)
     (force simp: db_ok_def wf_defs ledger_agrees_def double_entry_def total_balance_def issued_def
       statement_def entries_of_def)

text \<open>A new wallet has an id no ledger row uses, so its statement is its opening entry.\<close>

lemma fresh_wallet_statement:
  "wf_wallets d \<Longrightarrow> wf_ledger d \<Longrightarrow> statement d (wallets_seq d) = []"
  by (force simp: statement_def wf_defs filter_empty_conv)

lemma insert_wallet_db_ok:
  assumes ok: "db_ok d" and ins: "insert_wallet uid balance d = (Inr row, d')"
  shows "db_ok d'"
proof -
  from ins obtain ls where d': "d' = d\<lparr>wallets_seq := wallets_seq d + 1, wallets := wallets d @ [row],
       ledger_seq := ledger_seq d + int (length ls), transaction_ledger := transaction_ledger d @ ls\<rparr>"
    and row: "row = \<lparr>w_id = wallets_seq d, w_user_id = uid, w_balance = balance,
       w_created_at = now_ts d, w_updated_at = now_ts d\<rparr>"
    and ls: "ls = (if 0 < balance
       then [\<lparr>l_id = ledger_seq d, l_wallet_id = wallets_seq d, l_transaction_id = None, l_entry_type = OPENING,
              l_amount = balance, l_balance_before = 0, l_balance_after = balance, l_created_at = now_ts d\<rparr>]
       else [])"
    and g: "0 \<le> balance" "int8_ok balance" "uid \<notin> w_user_id ` set (wallets d)" "uid \<in> u_id ` set (users d)"
    by (rule insert_wallet_InrD)
  from ok have wf: "wf_users d" "wf_wallets d" "wf_transactions d" "wf_ledger d" "ledger_agrees d"
    "double_entry d" "total_balance d = issued d" "current_tx d = None"
    by (simp_all add: db_ok_def)
  have "wf_users d'" using wf(1) d' by (simp add: wf_users_def)
  moreover have "wf_wallets d'" using wf(2) d' row g by (force simp: wf_wallets_def)
  moreover have "wf_transactions d'" using wf(3) d' by (auto simp: wf_transactions_def)
  moreover have "wf_ledger d'" using wf(4) d' row ls g
    by (force simp: wf_ledger_def ledger_check_def)
  moreover have "ledger_agrees d'"
  proof -
    have st: "statement d' wid = statement d wid @ filter (\<lambda>l. l_wallet_id l = wid) ls" for wid
      using d' by (simp add: statement_def)
    have "ledger_chain 0 (statement d' (wallets_seq d)) = Some balance"
      using fresh_wallet_statement [OF wf(2,4)] ls g by (simp add: st)
    moreover have "ledger_chain 0 (statement d' (w_id w)) = Some (w_balance w)" if "w \<in> set (wallets d)" for w
    proof -
      have "w_id w \<noteq> wallets_seq d" using wf(2) that by (force simp: wf_wallets_def)
      with that wf(5) ls show ?thesis by (simp add: st ledger_agrees_def)
    qed
    ultimately show ?thesis using d' row by (auto simp: ledger_agrees_def)
  qed
  moreover have "double_entry d'" using wf(6) d' ls by (simp add: double_entry_def entries_of_def)
  moreover have "total_balance d' = issued d'" using wf(7) d' row ls g
    by (simp add: total_balance_def issued_def opening_amount_def)
  ultimately show ?thesis using wf(8) d' by (simp add: db_ok_def)
qed

interpretation ins_user: invariant_statement db_ok "insert_user u h f r" for u h f r
  by unfold_locales (blast intro: insert_user_db_ok, rule seqs_insert_user)

interpretation ins_wallet: invariant_statement db_ok "insert_wallet uid balance" for uid balance
  by unfold_locales (blast intro: insert_wallet_db_ok, rule seqs_insert_wallet)

section \<open>Updating the receipt columns\<close>

text \<open>An update of transactions that leaves their ids, wallets and amounts alone.\<close>

definition keeps_transfer_columns :: "(tx_row \<Rightarrow> tx_row) \<Rightarrow> bool" where
  "keeps_transfer_columns f \<longleftrightarrow> (\<forall>t. t_id (f t) = t_id t \<and> t_from_wallet_id (f t) = t_from_wallet_id t \<and>
     t_to_wallet_id (f t) = t_to_wallet_id t \<and> t_amount (f t) = t_amount t)"

lemma seqs_update_transactions: "keeps (seqs_le d0) (update_transactions sel f)"
  unfolding update_transactions_def by (intro keeps_intros keeps_seqs_modify) auto

lemma update_transactions_InrD:
  assumes "update_transactions sel f d = (Inr n, d')"
  shows "d' = d\<lparr>transactions := map (\<lambda>t. if sel t then set_updated_at_tx d (f t) else t) (transactions d)\<rparr> \<and>
    n = length (filter sel (transactions d)) \<and>
    (\<forall>t \<in> set (transactions d). sel t \<longrightarrow> transactions_check (set_updated_at_tx d (f t)))"
  using assms by (auto simp: update_transactions_def Let_def guard_not_def split: if_splits)

lemma update_transactions_db_ok:
  assumes "keeps_transfer_columns f" and ok: "db_ok d" and "update_transactions sel f d = (Inr n, d')"
  shows "db_ok d'"
proof -
  define g where "g = (\<lambda>t. if sel t then set_updated_at_tx d (f t) else t)"
  from update_transactions_InrD [OF assms(3)]
  have d': "d' = d\<lparr>transactions := map g (transactions d)\<rparr>"
    and chk: "\<forall>t \<in> set (transactions d). sel t \<longrightarrow> transactions_check (set_updated_at_tx d (f t))"
    by (auto simp: g_def)
  from assms(1) have cols: "t_id (g t) = t_id t" "t_from_wallet_id (g t) = t_from_wallet_id t"
    "t_to_wallet_id (g t) = t_to_wallet_id t" "t_amount (g t) = t_amount t" for t
    by (simp_all add: keeps_transfer_columns_def set_updated_at_tx_def g_def)
  from ok have "wf_transactions d" by (simp add: db_ok_def)
  with chk have "\<forall>t \<in> set (transactions d). transactions_check (g t)"
    by (simp add: g_def wf_transactions_def)
  with \<open>wf_transactions d\<close> have "wf_transactions d'"
    using d' cols by (simp add: wf_transactions_def comp_def)
  moreover from ok have "wf_ledger d'"
    using d' cols by (simp add: db_ok_def wf_ledger_def image_image)
  moreover from ok have "double_entry d'"
    using d' cols by (simp add: db_ok_def double_entry_def entries_of_def)
  ultimately show ?thesis using ok d'
    by (simp add: db_ok_def wf_users_def wf_wallets_def ledger_agrees_def statement_def
        total_balance_def issued_def)
qed

lemma integrity_update_transactions:
  "keeps_transfer_columns f \<Longrightarrow> invariant_statement db_ok (update_transactions sel f)"
  by unfold_locales (blast intro: update_transactions_db_ok, rule seqs_update_transactions)

end
