(* ===== verification/Js_Text.thy ===== *)
theory Js_Text
  imports Prelude
begin

text \<open>
  The string, number and date functions of JavaScript the program uses: \<open>trim\<close>,
  \<open>toLowerCase\<close>, \<open>split(/\s+/)\<close>, \<open>String(n)\<close> and \<open>Number(s)\<close> on integers,
  \<open>Intl.NumberFormat('en-US').format\<close> on integers and \<open>Date.prototype.toISOString\<close>.
  A string is the list of its code units, all below 256.
\<close>

section \<open>White space and case\<close>

definition js_space :: "char \<Rightarrow> bool" where
  "js_space c \<longleftrightarrow> (of_char c :: nat) \<in> {9, 10, 11, 12, 13, 32, 160}"

definition js_trim :: "string \<Rightarrow> string" where
  "js_trim s = rev (dropWhile js_space (rev (dropWhile js_space s)))"

definition js_lower :: "char \<Rightarrow> char" where
  "js_lower c = (let n = (of_char c :: nat) in
     if (65 \<le> n \<and> n \<le> 90) \<or> (192 \<le> n \<and> n \<le> 222 \<and> n \<noteq> 215) then char_of (n + 32) else c)"

definition toLowerCase :: "string \<Rightarrow> string" where
  "toLowerCase s = map js_lower s"

lemma length_dropWhile_space:
  "dropWhile (Not \<circ> js_space) s \<noteq> [] \<Longrightarrow>
   length (dropWhile js_space (dropWhile (Not \<circ> js_space) s)) < length s"
proof -
  assume ne: "dropWhile (Not \<circ> js_space) s \<noteq> []"
  then obtain c r where cr: "dropWhile (Not \<circ> js_space) s = c # r" by (cases "dropWhile (Not \<circ> js_space) s") auto
  then have "js_space c" by (auto dest: dropWhile_eq_Cons_conv [THEN iffD1])
  with cr have "length (dropWhile js_space (dropWhile (Not \<circ> js_space) s)) \<le> length r"
    by (simp add: length_dropWhile_le)
  also have "length r < length (dropWhile (Not \<circ> js_space) s)" using cr by simp
  also have "\<dots> \<le> length s" by (rule length_dropWhile_le)
  finally show ?thesis .
qed

text \<open>\<open>s.split(/\s+/)\<close>: never empty, and an empty last part when \<open>s\<close> ends in white space.\<close>

function js_split_ws :: "string \<Rightarrow> string list" where
  "js_split_ws s =
     (let part = takeWhile (Not \<circ> js_space) s; rest = dropWhile (Not \<circ> js_space) s
      in if rest = [] then [part] else part # js_split_ws (dropWhile js_space rest))"
  by pat_completeness auto

termination
  by (relation "measure length") (auto intro: length_dropWhile_space)

declare js_split_ws.simps [simp del]

lemma js_split_ws_word: "list_all (Not \<circ> js_space) s \<Longrightarrow> js_split_ws s = [s]"
  by (subst js_split_ws.simps) (simp add: list_all_iff takeWhile_eq_all_conv [THEN iffD2] dropWhile_eq_Nil_conv)

lemma js_split_ws_cons:
  assumes "list_all (Not \<circ> js_space) a" and "js_space c"
  shows "js_split_ws (a @ c # s) = a # js_split_ws (dropWhile js_space (c # s))"
  using assms by (subst js_split_ws.simps) (simp add: list_all_iff takeWhile_append2 dropWhile_append2)

lemma js_trim_id: "s \<noteq> [] \<Longrightarrow> \<not> js_space (hd s) \<Longrightarrow> \<not> js_space (last s) \<Longrightarrow> js_trim s = s"
proof -
  assume "s \<noteq> []" "\<not> js_space (hd s)" "\<not> js_space (last s)"
  then have "dropWhile js_space s = s" "dropWhile js_space (rev s) = rev s"
    by (cases s, simp_all) (cases "rev s", simp_all add: hd_rev [symmetric])
  then show ?thesis by (simp add: js_trim_def)
qed

section \<open>Integers as text\<close>

definition digit_char :: "nat \<Rightarrow> char" where
  "digit_char n = char_of (48 + n)"

definition is_digit :: "char \<Rightarrow> bool" where
  "is_digit c \<longleftrightarrow> 48 \<le> (of_char c :: nat) \<and> (of_char c :: nat) \<le> 57"

definition digit_value :: "char \<Rightarrow> nat" where
  "digit_value c = of_char c - 48"

fun digits :: "nat \<Rightarrow> string" where
  "digits n = (if n < 10 then [digit_char n] else digits (n div 10) @ [digit_char (n mod 10)])"

declare digits.simps [simp del]

definition digits_value :: "string \<Rightarrow> nat" where
  "digits_value ds = foldl (\<lambda>a c. 10 * a + digit_value c) 0 ds"

lemma of_char_digit: "n < 10 \<Longrightarrow> (of_char (digit_char n) :: nat) = 48 + n"
  by (simp add: digit_char_def)

lemma digit_value_char [simp]: "n < 10 \<Longrightarrow> digit_value (digit_char n) = n"
  by (simp add: digit_value_def of_char_digit)

lemma is_digit_char [simp]: "n < 10 \<Longrightarrow> is_digit (digit_char n)"
  by (simp add: is_digit_def of_char_digit)

lemma digits_all: "list_all is_digit (digits n)"
  by (induction n rule: digits.induct) (subst digits.simps, simp)

lemma digits_nonempty: "digits n \<noteq> []"
  by (subst digits.simps) simp

lemma digits_value_digits: "digits_value (digits n) = n"
proof (induction n rule: digits.induct)
  case (1 n)
  show ?case
  proof (cases "n < 10")
    case True
    then show ?thesis by (subst digits.simps) (simp add: digits_value_def)
  next
    case False
    with 1 have "digits_value (digits (n div 10)) = n div 10" by simp
    with False show ?thesis by (subst digits.simps) (simp add: digits_value_def)
  qed
qed

definition js_String :: "int \<Rightarrow> string" where
  "js_String n = (if n < 0 then CHR ''-'' # digits (nat (- n)) else digits (nat n))"

text \<open>\<open>Number(s)\<close> where \<open>s\<close> is the decimal text of an integer; \<open>None\<close> is \<open>NaN\<close>.\<close>

definition js_Number :: "string \<Rightarrow> int option" where
  "js_Number s =
     (if s = [] then Some 0
      else if list_all is_digit s then Some (int (digits_value s))
      else if hd s = CHR ''-'' \<and> tl s \<noteq> [] \<and> list_all is_digit (tl s) then Some (- int (digits_value (tl s)))
      else None)"

lemma js_Number_String [simp]: "js_Number (js_String n) = Some n"
proof -
  have "\<not> is_digit (CHR ''-'')" by (simp add: is_digit_def)
  then show ?thesis
    by (simp add: js_Number_def js_String_def digits_nonempty digits_all digits_value_digits)
qed

lemma js_String_inject: "js_String m = js_String n \<longleftrightarrow> m = n"
  by (metis js_Number_String option.inject)

text \<open>\<open>Intl.NumberFormat('en-US')\<close> on integers: a comma between groups of three digits.\<close>

fun group_rev :: "string \<Rightarrow> string" where
  "group_rev (a # b # c # d # ds) = a # b # c # CHR '','' # group_rev (d # ds)"
| "group_rev ds = ds"

definition format_en_US :: "int \<Rightarrow> string" where
  "format_en_US n = (if n < 0 then ''-'' else []) @ rev (group_rev (rev (digits (nat \<bar>n\<bar>))))"

lemma filter_group_rev: "list_all is_digit ds \<Longrightarrow> filter is_digit (group_rev ds) = ds"
proof (induction ds rule: group_rev.induct)
  case (1 a b c d ds)
  have "\<not> is_digit (CHR '','')" by (simp add: is_digit_def)
  with 1 show ?case by simp
qed (simp_all add: list_all_iff)

lemma filter_digit_format: "filter is_digit (format_en_US n) = digits (nat \<bar>n\<bar>)"
proof -
  have "\<not> is_digit (CHR ''-'')" by (simp add: is_digit_def)
  moreover have "list_all is_digit (rev (digits (nat \<bar>n\<bar>)))"
    using digits_all [of "nat \<bar>n\<bar>"] by (simp add: list_all_iff)
  ultimately show ?thesis
    by (simp add: format_en_US_def rev_filter [symmetric] filter_group_rev)
qed

section \<open>Dates\<close>

text \<open>The civil date of a day number since 1970-01-01 in the proleptic Gregorian calendar.\<close>

definition civil_from_days :: "int \<Rightarrow> int \<times> int \<times> int" where
  "civil_from_days z0 =
     (let z = z0 + 719468;
          era = z div 146097;
          doe = z mod 146097;
          yoe = (doe - doe div 1460 + doe div 36524 - doe div 146096) div 365;
          doy = doe - (365 * yoe + yoe div 4 - yoe div 100);
          mp = (5 * doy + 2) div 153;
          day = doy - (153 * mp + 2) div 5 + 1;
          month = (if mp < 10 then mp + 3 else mp - 9)
      in (yoe + era * 400 + (if month \<le> 2 then 1 else 0), month, day))"

definition pad :: "nat \<Rightarrow> int \<Rightarrow> string" where
  "pad k n = (let ds = digits (nat n) in replicate (k - length ds) (CHR ''0'') @ ds)"

text \<open>\<open>new Date(ms).toISOString()\<close>\<close>

definition toISOString :: "int \<Rightarrow> string" where
  "toISOString ms =
     (case civil_from_days (ms div 86400000) of (y, m, d) \<Rightarrow>
        let t = ms mod 86400000 in
        (if 0 \<le> y \<and> y \<le> 9999 then pad 4 y else (if y < 0 then ''-'' else ''+'') @ pad 6 \<bar>y\<bar>) @
        ''-'' @ pad 2 m @ ''-'' @ pad 2 d @ ''T'' @
        pad 2 (t div 3600000) @ '':'' @ pad 2 (t div 60000 mod 60) @ '':'' @
        pad 2 (t div 1000 mod 60) @ ''.'' @ pad 3 (t mod 1000) @ ''Z'')"

end
