(* ===== verification/World.thy ===== *)
theory World
  imports Errors Integrity Js_Text
begin

text \<open>
  The process and its surroundings: the objects the JavaScript code passes around, the trace of
  the calls it makes outside itself, the environment that answers them, and
  \<open>src/db/pool.js\<close> (the BIGINT parser, queries and \<open>withTransaction\<close>).

  Code that is not in the repository (the PostgreSQL connection, BullMQ, Socket.io, MinIO,
  bcrypt) is the \<open>env\<close> record, whose answers are arbitrary functions of all the calls made so
  far, so a theorem about every \<open>env\<close> covers every behaviour and every failure of them. Other
  sessions of the database act through \<open>others\<close>, before any statement this process sends. A
  query may also fail because its connection is lost, before the server ran it or after.
\<close>

section \<open>Objects of the program\<close>

record party =
  p_userId :: int
  p_username :: string
  p_fullName :: string

record transaction =
  tx_id :: uuid
  tx_amount :: int
  tx_description :: "string option"
  tx_receiptStatus :: receipt_status
  tx_receiptUrl :: "string option"
  tx_receiptObjectKey :: "string option"
  tx_createdAt :: int
  tx_from :: party
  tx_to :: party

record user_obj =
  user_id :: int
  user_username :: string
  user_fullName :: string
  user_role :: string
  user_passwordHash :: string
  user_createdAt :: int

record wallet_obj =
  wallet_id :: int
  wallet_userId :: int
  wallet_balance :: int
  wallet_createdAt :: int
  wallet_updatedAt :: int

record ledger_obj =
  entry_id :: int
  entry_transactionId :: "uuid option"
  entry_type :: ledger_entry_type
  entry_amount :: int
  entry_balanceBefore :: int
  entry_balanceAfter :: int
  entry_createdAt :: int

record notification =
  n_transactionId :: uuid
  n_amount :: int
  n_description :: "string option"
  n_sender :: party
  n_createdAt :: int

record 'a page =
  items :: "'a list"
  total :: int

section \<open>Calls and their environment\<close>

datatype ev =
    EvConnect | EvRelease | EvBegin | EvCommit | EvRollback
  | EvQuery string
  | EvEnqueue string uuid uuid
  | EvEmit string string notification
  | EvPut string string string string
  | EvPresign string string int
  | EvBucketExists string
  | EvMakeBucket string string
  | EvHash string int
  | EvCompare string
  | EvPing
  | EvLog string string

datatype fault = Up | DownBefore js_error | DownAfter js_error

record env =
  others :: "ev list \<Rightarrow> db \<Rightarrow> db"
  db_fault :: "ev list \<Rightarrow> fault"
  connect_fault :: "ev list \<Rightarrow> js_error option"
  gen_uuid :: "ev list \<Rightarrow> uuid"
  clock :: "ev list \<Rightarrow> int"
  queue_add :: "ev list \<Rightarrow> js_error + unit"
  io_emit :: "ev list \<Rightarrow> js_error + unit"
  put_object :: "ev list \<Rightarrow> js_error + unit"
  presigned_get :: "ev list \<Rightarrow> js_error + string"
  bucket_exists :: "ev list \<Rightarrow> js_error + bool"
  make_bucket :: "ev list \<Rightarrow> js_error + unit"
  bcrypt_hash :: "ev list \<Rightarrow> js_error + string"
  bcrypt_compare :: "string \<Rightarrow> string \<Rightarrow> bool"

text \<open>
  \<open>open_tx\<close> is the transaction the process has open on a client: the database when it began,
  and whether a statement of it has failed (PostgreSQL then refuses every further statement).
\<close>

record world =
  database :: db
  trace :: "ev list"
  open_tx :: "(db \<times> bool) option"

type_synonym 'a js = "(js_error, world, 'a) eff"

definition call :: "ev \<Rightarrow> (ev list \<Rightarrow> js_error + 'a) \<Rightarrow> 'a js" where
  "call e answer = (\<lambda>w. let tr = trace w @ [e] in (answer tr, w\<lparr>trace := tr\<rparr>))"

definition log_msg :: "string \<Rightarrow> string \<Rightarrow> unit js" where
  "log_msg level msg = call (EvLog level msg) (\<lambda>_. Inr ())"

section \<open>Queries\<close>

definition pg_error :: "sql_error \<Rightarrow> js_error" where
  "pg_error e = other_error ''error'' (Some (sqlstate e)) (sqlerrm e)"

text \<open>The session at the start of a transaction: other sessions have acted, time has moved on.\<close>

definition session_start :: "env \<Rightarrow> ev list \<Rightarrow> db \<Rightarrow> db" where
  "session_start E tr d = (others E tr d)\<lparr>now_ts := clock E tr, next_uuid := gen_uuid E tr\<rparr>"

definition sql_result :: "(sql_error + 'a) \<Rightarrow> js_error + 'a" where
  "sql_result r = (case r of Inl e \<Rightarrow> Inl (pg_error e) | Inr x \<Rightarrow> Inr x)"

text \<open>\<open>pool.query(\<dots>)\<close>: a statement in a transaction of its own.\<close>

definition pool_query :: "env \<Rightarrow> string \<Rightarrow> 'a sql \<Rightarrow> 'a js" where
  "pool_query E lbl stmt = (\<lambda>w.
     let tr = trace w @ [EvQuery lbl];
         d = session_start E tr (database w);
         w' = w\<lparr>trace := tr\<rparr>
     in case db_fault E tr of
          Up \<Rightarrow> (sql_result (fst (autocommit stmt d)), w'\<lparr>database := snd (autocommit stmt d)\<rparr>)
        | DownBefore e \<Rightarrow> (Inl e, w'\<lparr>database := d\<rparr>)
        | DownAfter e \<Rightarrow> (Inl e, w'\<lparr>database := snd (autocommit stmt d)\<rparr>))"

definition aborted_error :: js_error where
  "aborted_error = other_error ''error'' (Some ''25P02'')
     ''current transaction is aborted, commands ignored until end of transaction block''"

definition not_queryable :: js_error where
  "not_queryable = other_error ''Error'' None
     ''Client has encountered a connection error and is not queryable''"

text \<open>
  \<open>client.query(\<dots>)\<close> inside a transaction. A lost connection makes the server roll back, and the
  client refuses every further query.
\<close>

definition client_query :: "env \<Rightarrow> string \<Rightarrow> 'a sql \<Rightarrow> 'a js" where
  "client_query E lbl stmt = (\<lambda>w.
     let tr = trace w @ [EvQuery lbl]; w' = w\<lparr>trace := tr\<rparr>
     in case open_tx w of
          None \<Rightarrow> (Inl not_queryable, w')
        | Some (d0, aborted) \<Rightarrow>
            (case db_fault E tr of
               Up \<Rightarrow>
                 if aborted then (Inl aborted_error, w')
                 else (case stmt (database w) of
                         (Inl e, d') \<Rightarrow> (Inl (pg_error e), w'\<lparr>database := d', open_tx := Some (d0, True)\<rparr>)
                       | (Inr x, d') \<Rightarrow> (Inr x, w'\<lparr>database := d'\<rparr>))
             | DownBefore e \<Rightarrow> (Inl e, w'\<lparr>database := rollback_to d0 (database w), open_tx := None\<rparr>)
             | DownAfter e \<Rightarrow> (Inl e, w'\<lparr>database := rollback_to d0 (database w), open_tx := None\<rparr>)))"

text \<open>The parameter \<open>executor\<close> of the repositories: the pool, or the client of a transaction.\<close>

datatype executor = Pool | Client

definition query :: "env \<Rightarrow> executor \<Rightarrow> string \<Rightarrow> 'a sql \<Rightarrow> 'a js" where
  "query E ex lbl stmt = (case ex of Pool \<Rightarrow> pool_query E lbl stmt | Client \<Rightarrow> client_query E lbl stmt)"

section \<open>The BIGINT parser\<close>

definition MAX_SAFE_INTEGER :: int where
  "MAX_SAFE_INTEGER = 9007199254740991"

definition isSafeInteger :: "int \<Rightarrow> bool" where
  "isSafeInteger n \<longleftrightarrow> \<bar>n\<bar> \<le> MAX_SAFE_INTEGER"

definition parse_int8 :: "int \<Rightarrow> js_error + int" where
  "parse_int8 value =
     (if \<not> isSafeInteger value
      then Inl (other_error ''RangeError'' None
             (''BIGINT value '' @ js_String value @ '' exceeds Number.MAX_SAFE_INTEGER''))
      else Inr value)"

text \<open>The driver parses every BIGINT column of a row; the first one out of range fails the query.\<close>

fun parse_int8s :: "int list \<Rightarrow> unit js" where
  "parse_int8s [] = ret ()"
| "parse_int8s (n # ns) = (case parse_int8 n of Inl e \<Rightarrow> throw e | Inr _ \<Rightarrow> parse_int8s ns)"

section \<open>Transactions on a client\<close>

definition pool_connect :: "env \<Rightarrow> unit js" where
  "pool_connect E = call EvConnect (\<lambda>tr. case connect_fault E tr of None \<Rightarrow> Inr () | Some e \<Rightarrow> Inl e)"

definition client_release :: "unit js" where
  "client_release = call EvRelease (\<lambda>_. Inr ())"

definition client_begin :: "env \<Rightarrow> unit js" where
  "client_begin E = (\<lambda>w.
     let tr = trace w @ [EvBegin]; d = session_start E tr (database w); w' = w\<lparr>trace := tr, database := d\<rparr>
     in case db_fault E tr of
          Up \<Rightarrow> (Inr (), w'\<lparr>open_tx := Some (d, False)\<rparr>)
        | DownBefore e \<Rightarrow> (Inl e, w')
        | DownAfter e \<Rightarrow> (Inl e, w'))"

definition client_rollback_state :: "world \<Rightarrow> world" where
  "client_rollback_state w = (case open_tx w of None \<Rightarrow> w
     | Some (d0, _) \<Rightarrow> w\<lparr>database := rollback_to d0 (database w), open_tx := None\<rparr>)"

text \<open>\<open>COMMIT\<close> of a transaction in which a statement failed rolls back, without an error.\<close>

definition client_commit_state :: "world \<Rightarrow> world" where
  "client_commit_state w = (case open_tx w of None \<Rightarrow> w
     | Some (d0, True) \<Rightarrow> client_rollback_state w
     | Some (d0, False) \<Rightarrow> w\<lparr>database := commit_db (database w), open_tx := None\<rparr>)"

definition client_commit :: "env \<Rightarrow> unit js" where
  "client_commit E = (\<lambda>w.
     let tr = trace w @ [EvCommit]; w' = w\<lparr>trace := tr\<rparr>
     in case db_fault E tr of
          Up \<Rightarrow> (Inr (), client_commit_state w')
        | DownBefore e \<Rightarrow> (Inl e, client_rollback_state w')
        | DownAfter e \<Rightarrow> (Inl e, client_commit_state w'))"

definition client_rollback :: "env \<Rightarrow> unit js" where
  "client_rollback E = (\<lambda>w.
     let tr = trace w @ [EvRollback]; w' = client_rollback_state (w\<lparr>trace := tr\<rparr>)
     in case db_fault E tr of
          Up \<Rightarrow> (Inr (), w') | DownBefore e \<Rightarrow> (Inl e, w') | DownAfter e \<Rightarrow> (Inl e, w'))"

definition withTransaction :: "env \<Rightarrow> 'a js \<Rightarrow> 'a js" where
  "withTransaction E work =
     await (pool_connect E) (\<lambda>_.
     try_finally
       (try_catch
          (await (client_begin E) (\<lambda>_.
           await work (\<lambda>result.
           await (client_commit E) (\<lambda>_.
           ret result))))
          (\<lambda>err.
           await (try_catch (client_rollback E)
                    (\<lambda>rollbackErr. log_msg ''error'' ''Failed to rollback transaction'')) (\<lambda>_.
           throw err)))
       client_release)"

section \<open>Keeping the database whole\<close>

text \<open>
  A property \<open>P\<close> of the database, between transactions and inside one: there it holds again
  after a rollback, and holds already unless a statement has failed.
\<close>

definition world_inv :: "(db \<Rightarrow> bool) \<Rightarrow> world \<Rightarrow> bool" where
  "world_inv P w \<longleftrightarrow> (case open_tx w of None \<Rightarrow> P (database w)
     | Some (d0, aborted) \<Rightarrow> P d0 \<and> seqs_le d0 (database w) \<and> (\<not> aborted \<longrightarrow> P (database w)))"

text \<open>Outside a transaction: the property, with no transaction open.\<close>

definition idle_inv :: "(db \<Rightarrow> bool) \<Rightarrow> world \<Rightarrow> bool" where
  "idle_inv P w \<longleftrightarrow> P (database w) \<and> open_tx w = None"

text \<open>The other sessions keep the property too.\<close>

definition others_keep :: "(db \<Rightarrow> bool) \<Rightarrow> env \<Rightarrow> bool" where
  "others_keep P E \<longleftrightarrow> (\<forall>tr d. P d \<longrightarrow> P (others E tr d) \<and> current_tx (others E tr d) = None)"

lemma keeps_call [keeps_intros]: "(\<And>w tr. I w \<Longrightarrow> I (w\<lparr>trace := tr\<rparr>)) \<Longrightarrow> keeps I (call e answer)"
  by (rule keepsI) (simp add: call_def Let_def)

lemma world_inv_trace [simp]: "world_inv P (w\<lparr>trace := tr\<rparr>) = world_inv P w"
  by (cases "open_tx w") (auto simp: world_inv_def)

lemma idle_inv_iff: "idle_inv P w \<longleftrightarrow> world_inv P w \<and> open_tx w = None"
  by (auto simp: idle_inv_def world_inv_def)

lemma idle_inv_trace [simp]: "idle_inv P (w\<lparr>trace := tr\<rparr>) = idle_inv P w"
  by (simp add: idle_inv_def)

lemma keeps_log_msg [keeps_intros]: "(\<And>w tr. I w \<Longrightarrow> I (w\<lparr>trace := tr\<rparr>)) \<Longrightarrow> keeps I (log_msg l m)"
  by (simp add: log_msg_def keeps_intros)

lemma keeps_parse_int8s [keeps_intros]: "keeps I (parse_int8s ns)"
  by (induction ns) (auto simp only: parse_int8s.simps intro!: keeps_intros)

lemma pool_query_database:
  "database (snd (pool_query E lbl stmt w)) \<in>
     (let d = session_start E (trace w @ [EvQuery lbl]) (database w) in {d, snd (autocommit stmt d)}) \<and>
   open_tx (snd (pool_query E lbl stmt w)) = open_tx w"
  by (simp add: pool_query_def Let_def split: fault.splits)

lemma open_tx_rollback_state [simp]: "open_tx (client_rollback_state w) = None"
  by (auto simp: client_rollback_state_def split: option.splits)

lemma open_tx_commit_state [simp]: "open_tx (client_commit_state w) = None"
  by (auto simp: client_commit_state_def split: option.splits bool.splits)

lemma client_commit_closes: "open_tx (snd (client_commit E w)) = None"
  by (simp add: client_commit_def Let_def split: fault.splits)

lemma client_rollback_closes: "open_tx (snd (client_rollback E w)) = None"
  by (simp add: client_rollback_def Let_def split: fault.splits)

text \<open>The \<open>try\<close> block and the \<open>catch\<close> block of \<open>withTransaction\<close>.\<close>

abbreviation tx_body :: "env \<Rightarrow> 'a js \<Rightarrow> 'a js" where
  "tx_body E work \<equiv> await (client_begin E) (\<lambda>_. await work (\<lambda>result. await (client_commit E) (\<lambda>_. ret result)))"

abbreviation tx_handler :: "env \<Rightarrow> js_error \<Rightarrow> 'a js" where
  "tx_handler E err \<equiv> await (try_catch (client_rollback E)
     (\<lambda>rollbackErr. log_msg ''error'' ''Failed to rollback transaction'')) (\<lambda>_. throw err)"

lemma tx_body_closes:
  assumes "await work (\<lambda>result. await (client_commit E) (\<lambda>_. ret result)) u = (Inr x, t)"
  shows "open_tx t = None"
  using assms client_commit_closes [of E] by (auto elim!: await_InrE) (metis snd_conv)

context db_invariant
begin

lemma session_start_inv:
  assumes "others_keep P E" "P d"
  shows "P (session_start E tr d)"
proof -
  from assms have "P (others E tr d)" "current_tx (others E tr d) = None" by (auto simp: others_keep_def)
  then show ?thesis
    by (elim tables_only) (simp_all add: session_start_def tables_def seqs_le_def)
qed

lemma keeps_pool_query:
  assumes env: "others_keep P E" and st: "invariant_statement P stmt" and w: "world_inv P w" "open_tx w = None"
  shows "world_inv P (snd (pool_query E lbl stmt w))"
proof -
  let ?d = "session_start E (trace w @ [EvQuery lbl]) (database w)"
  from w have "P (database w)" by (simp add: world_inv_def)
  with env have d: "P ?d" by (rule session_start_inv)
  moreover have "P (snd (autocommit stmt ?d))"
    using invariant_statement.autocommit_keeps [OF st] d by (rule keepsD)
  ultimately show ?thesis
    using pool_query_database [of E lbl stmt w] w(2) by (auto simp: world_inv_def Let_def)
qed

lemma world_inv_rollback_state: "world_inv P w \<Longrightarrow> world_inv P (client_rollback_state w)"
  by (auto simp: world_inv_def client_rollback_state_def rollback split: option.splits)

lemma world_inv_commit_state: "world_inv P w \<Longrightarrow> world_inv P (client_commit_state w)"
  by (auto simp: client_commit_state_def world_inv_rollback_state split: option.splits bool.splits)
     (simp add: world_inv_def commit)

lemma keeps_client_query:
  assumes env: "others_keep P E" and st: "invariant_statement P stmt" and w: "world_inv P w"
  shows "world_inv P (snd (client_query E lbl stmt w))"
proof (cases "open_tx w")
  case None
  with assms show ?thesis by (simp add: client_query_def Let_def)
next
  case (Some p)
  obtain d0 ab where p: "p = (d0, ab)" by (cases p)
  with Some w have ok: "P d0" "seqs_le d0 (database w)" "\<not> ab \<Longrightarrow> P (database w)"
    by (simp_all add: world_inv_def)
  have rb: "P (rollback_to d0 (database w))" using ok by (simp add: rollback)
  have le: "seqs_le d0 d'" if "stmt (database w) = (r, d')" for r d'
    using invariant_statement.seqs [OF st] ok(2) that by (rule keepsE)
  show ?thesis
    using Some p ok rb le invariant_statement.success [OF st ok(3)]
    by (auto simp: client_query_def Let_def world_inv_def split: fault.splits prod.splits sum.splits)
qed

lemma keeps_query [keeps_intros]:
  "others_keep P E \<Longrightarrow> invariant_statement P stmt \<Longrightarrow> keeps (world_inv P) (query E Client lbl stmt)"
  by (rule keepsI) (simp add: query_def keeps_client_query)

lemma keeps_idle_query [keeps_intros]:
  "others_keep P E \<Longrightarrow> invariant_statement P stmt \<Longrightarrow> keeps (idle_inv P) (query E Pool lbl stmt)"
  by (rule keepsI) (simp add: query_def idle_inv_iff keeps_pool_query pool_query_database)

lemma keeps_world_idle [keeps_intros]: "keeps (world_inv P) client_release"
  by (simp add: client_release_def keeps_intros)

lemma keeps_client_begin: "others_keep P E \<Longrightarrow> idle_inv P w \<Longrightarrow> world_inv P (snd (client_begin E w))"
  by (auto simp: client_begin_def Let_def world_inv_def idle_inv_def session_start_inv split: fault.splits)

lemma keeps_client_commit: "keeps (world_inv P) (client_commit E)"
  by (rule keepsI)
     (simp add: client_commit_def Let_def world_inv_commit_state world_inv_rollback_state split: fault.splits)

lemma keeps_client_rollback: "keeps (world_inv P) (client_rollback E)"
  by (rule keepsI) (simp add: client_rollback_def Let_def world_inv_rollback_state split: fault.splits)

lemma tx_body_ok:
  assumes env: "others_keep P E" and work: "keeps (world_inv P) work" and w: "idle_inv P w" and run: "tx_body E work w = (r, t)"
  shows "world_inv P t" and "r = Inr x \<Longrightarrow> open_tx t = None"
proof -
  obtain b u where bu: "client_begin E w = (b, u)" by (cases "client_begin E w")
  with keeps_client_begin [OF env w] have u: "world_inv P u" by simp
  have k: "keeps (world_inv P) (await work (\<lambda>result. await (client_commit E) (\<lambda>_. ret result)))"
    by (intro keeps_intros work keeps_client_commit)
  show "world_inv P t"
    using run bu u keepsE [OF k] by (cases b) auto
  show "open_tx t = None" if "r = Inr x"
    using run bu that tx_body_closes by (cases b) auto
qed

lemma tx_handler_ok:
  assumes w: "world_inv P w" and run: "tx_handler E err w = (r, t)"
  shows "world_inv P t \<and> open_tx t = None \<and> r = Inl err"
proof -
  have k: "keeps (world_inv P) (tx_handler E err)" by (intro keeps_intros keeps_client_rollback) simp
  from keepsE [OF k w run] have "world_inv P t" .
  then show ?thesis
    using run client_rollback_closes [of E w]
    by (auto simp: await_def try_catch_def log_msg_def call_def Let_def split: prod.splits sum.splits)
qed

lemma keeps_withTransaction [keeps_intros]:
  assumes env: "others_keep P E" and work: "keeps (world_inv P) work"
  shows "keeps (idle_inv P) (withTransaction E work)"
proof -
  have main: "idle_inv P (snd (try_finally (try_catch (tx_body E work) (tx_handler E)) client_release w))"
    if w: "idle_inv P w" for w
  proof -
    obtain r t where bt: "tx_body E work w = (r, t)" by (cases "tx_body E work w")
    note body = tx_body_ok [OF env work w bt]
    obtain r' t' where ct: "try_catch (tx_body E work) (tx_handler E) w = (r', t')"
      by (cases "try_catch (tx_body E work) (tx_handler E) w")
    have "world_inv P t' \<and> open_tx t' = None"
    proof (cases r)
      case (Inl e)
      with bt ct have "tx_handler E e t = (r', t')" by (simp add: try_catch_def)
      with tx_handler_ok [OF body(1)] show ?thesis by blast
    next
      case (Inr x)
      with bt ct body show ?thesis by (auto simp: try_catch_def)
    qed
    with ct show ?thesis
      by (simp add: try_finally_def client_release_def call_def Let_def idle_inv_iff)
  qed
  have "keeps (idle_inv P) (pool_connect E)" unfolding pool_connect_def by (intro keeps_intros) simp
  then show ?thesis unfolding withTransaction_def
    by (rule keeps_await) (rule keepsI, rule main)
qed

end

end
