(* ===== verification/Transfer_Funds.thy ===== *)
theory Transfer_Funds
  imports Integrity
begin

text \<open>
  The stored procedure \<open>transfer_funds\<close> of \<open>db/migrations/003_create_transfer_procedure.sql\<close>,
  statement by statement, its result on every branch, and the facts that make a transfer
  correct: money is neither created nor lost, the sender is never overdrawn, the ledger gets
  exactly one debit and one credit, and a failed transfer changes no table.
\<close>

section \<open>The procedure\<close>

definition wl :: "string \<Rightarrow> sql_error" where
  "wl code = sql_err code
     (if code = ''WL001'' then ''Transfer amount must be greater than zero''
      else if code = ''WL002'' then ''Cannot transfer funds to the same wallet''
      else if code = ''WL003'' then ''Sender wallet not found''
      else if code = ''WL004'' then ''Recipient wallet not found''
      else ''Insufficient funds'')"

text \<open>\<open>SELECT * FROM wallets WHERE user_id IN (from, to) ORDER BY id FOR UPDATE\<close>\<close>

definition locked_wallets :: "int \<Rightarrow> int \<Rightarrow> db \<Rightarrow> wallet_row list" where
  "locked_wallets from_user to_user d =
     sort_key w_id (filter (\<lambda>w. w_user_id w = from_user \<or> w_user_id w = to_user) (wallets d))"

text \<open>The loop over the locked rows, which fills \<open>v_from_wallet\<close> and \<open>v_to_wallet\<close>.\<close>

fun pick_wallets ::
  "int \<Rightarrow> wallet_row list \<Rightarrow> wallet_row option \<times> wallet_row option \<Rightarrow> wallet_row option \<times> wallet_row option" where
  "pick_wallets from_user [] v = v"
| "pick_wallets from_user (w # ws) (v_from, v_to) =
     (if w_user_id w = from_user then pick_wallets from_user ws (Some w, v_to)
      else pick_wallets from_user ws (v_from, Some w))"

definition transfer_funds ::
  "int \<Rightarrow> int \<Rightarrow> int option \<Rightarrow> string option \<Rightarrow> int \<Rightarrow> (uuid \<times> receipt_status) sql" where
  "transfer_funds p_from_user_id p_to_user_id p_amount p_description p_receipt_threshold =
     (case p_amount of
        None \<Rightarrow> throw (wl ''WL001'')
      | Some amount \<Rightarrow>
          await (guard_not (amount \<le> 0) (wl ''WL001'')) (\<lambda>_.
          await (guard_not (p_from_user_id = p_to_user_id) (wl ''WL002'')) (\<lambda>_.
          await (get_state (locked_wallets p_from_user_id p_to_user_id)) (\<lambda>rows.
          case pick_wallets p_from_user_id rows (None, None) of
            (None, _) \<Rightarrow> throw (wl ''WL003'')
          | (Some v_from_wallet, None) \<Rightarrow> throw (wl ''WL004'')
          | (Some v_from_wallet, Some v_to_wallet) \<Rightarrow>
              await (guard_not (w_balance v_from_wallet < amount) (wl ''WL005'')) (\<lambda>_.
              let o_receipt_status = (if amount > p_receipt_threshold then PENDING else NOT_REQUIRED) in
              await (insert_transaction (w_id v_from_wallet) (w_id v_to_wallet) amount p_description
                       o_receipt_status) (\<lambda>o_transaction_id.
              await (modify (\<lambda>d. d\<lparr>current_tx := Some o_transaction_id\<rparr>)) (\<lambda>_.
              await (update_wallet_balance (w_id v_from_wallet) (- amount)) (\<lambda>_.
              await (update_wallet_balance (w_id v_to_wallet) amount) (\<lambda>_.
              await (modify (\<lambda>d. d\<lparr>current_tx := None\<rparr>)) (\<lambda>_.
              ret (o_transaction_id, o_receipt_status)))))))))))"

section \<open>The rows the loop picks\<close>

lemma pick_wallets_None:
  "fst (pick_wallets f rows v) = None \<longleftrightarrow> fst v = None \<and> (\<forall>w \<in> set rows. w_user_id w \<noteq> f)"
  "snd (pick_wallets f rows v) = None \<longleftrightarrow> snd v = None \<and> (\<forall>w \<in> set rows. w_user_id w = f)"
  by (induction f rows v rule: pick_wallets.induct) auto

lemma pick_wallets_Some:
  "fst (pick_wallets f rows v) = Some w \<Longrightarrow> fst v = Some w \<or> (w \<in> set rows \<and> w_user_id w = f)"
  "snd (pick_wallets f rows v) = Some w \<Longrightarrow> snd v = Some w \<or> (w \<in> set rows \<and> w_user_id w \<noteq> f)"
  by (induction f rows v rule: pick_wallets.induct) (auto split: if_splits)

lemma set_locked_wallets:
  "set (locked_wallets f t d) = {w \<in> set (wallets d). w_user_id w = f \<or> w_user_id w = t}"
  by (auto simp: locked_wallets_def)

lemma locked_wallets_sorted: "sorted (map w_id (locked_wallets f t d))"
  by (simp add: locked_wallets_def)

lemma pick_locked_wallets:
  assumes wf: "wf_wallets d" and ne: "f \<noteq> t"
  shows "pick_wallets f (locked_wallets f t d) (None, None) = (wallet_of d f, wallet_of d t)"
proof -
  let ?p = "pick_wallets f (locked_wallets f t d) (None, None)"
  have "fst ?p = wallet_of d f"
  proof (cases "fst ?p")
    case None
    then have "wallet_of d f = None"
      by (auto simp: pick_wallets_None set_locked_wallets wallet_of_def find_None_iff)
    with None show ?thesis by simp
  next
    case (Some w)
    from pick_wallets_Some(1) [OF Some] have "wallet_of d f = Some w"
      by (simp add: wallet_of_iff [OF wf] set_locked_wallets)
    with Some show ?thesis by simp
  qed
  moreover have "snd ?p = wallet_of d t"
  proof (cases "snd ?p")
    case None
    with ne have "wallet_of d t = None"
      by (force simp: pick_wallets_None set_locked_wallets wallet_of_def find_None_iff)
    with None show ?thesis by simp
  next
    case (Some w)
    from pick_wallets_Some(2) [OF Some] have "wallet_of d t = Some w"
      by (auto simp: wallet_of_iff [OF wf] set_locked_wallets)
    with Some show ?thesis by simp
  qed
  ultimately show ?thesis by (cases ?p) simp
qed

section \<open>The writes of a transfer\<close>

definition description_column :: "string option \<Rightarrow> sql_error + string option" where
  "description_column ds = (case ds of None \<Rightarrow> Inr None | Some s \<Rightarrow>
     (case varchar 255 s of Inl e \<Rightarrow> Inl e | Inr v \<Rightarrow> Inr (Some v)))"

definition new_transaction ::
  "db \<Rightarrow> wallet_row \<Rightarrow> wallet_row \<Rightarrow> int \<Rightarrow> string option \<Rightarrow> receipt_status \<Rightarrow> tx_row" where
  "new_transaction d fw tw amount descr st =
     \<lparr>t_id = next_uuid d, t_from_wallet_id = w_id fw, t_to_wallet_id = w_id tw, t_amount = amount,
      t_description = descr, t_receipt_status = st, t_receipt_url = None, t_receipt_object_key = None,
      t_created_at = now_ts d, t_updated_at = now_ts d\<rparr>"

definition transfer_entry :: "db \<Rightarrow> int \<Rightarrow> wallet_row \<Rightarrow> ledger_entry_type \<Rightarrow> int \<Rightarrow> ledger_row" where
  "transfer_entry d i w et amount =
     \<lparr>l_id = i, l_wallet_id = w_id w, l_transaction_id = Some (next_uuid d), l_entry_type = et,
      l_amount = amount, l_balance_before = w_balance w,
      l_balance_after = (if et = DEBIT then w_balance w - amount else w_balance w + amount),
      l_created_at = now_ts d\<rparr>"

definition paid :: "db \<Rightarrow> int \<Rightarrow> wallet_row \<Rightarrow> wallet_row" where
  "paid d delta w = w\<lparr>w_balance := w_balance w + delta, w_updated_at := now_ts d\<rparr>"

text \<open>The database a successful transfer leaves.\<close>

definition transfer_post ::
  "db \<Rightarrow> wallet_row \<Rightarrow> wallet_row \<Rightarrow> int \<Rightarrow> string option \<Rightarrow> receipt_status \<Rightarrow> db" where
  "transfer_post d fw tw amount descr st =
     d\<lparr>wallets := update_row w_id (w_id tw) (\<lambda>_. paid d amount tw)
         (update_row w_id (w_id fw) (\<lambda>_. paid d (- amount) fw) (wallets d)),
       transactions := transactions d @ [new_transaction d fw tw amount descr st],
       transaction_ledger := transaction_ledger d @
         [transfer_entry d (ledger_seq d) fw DEBIT amount, transfer_entry d (ledger_seq d + 1) tw CREDIT amount],
       ledger_seq := ledger_seq d + 2,
       current_tx := None\<rparr>"

lemma insert_transaction_eq:
  "insert_transaction fid tid a ds st d =
     (case description_column ds of
        Inl e \<Rightarrow> (Inl e, d)
      | Inr descr \<Rightarrow>
          let row = \<lparr>t_id = next_uuid d, t_from_wallet_id = fid, t_to_wallet_id = tid, t_amount = a,
                t_description = descr, t_receipt_status = st, t_receipt_url = None,
                t_receipt_object_key = None, t_created_at = now_ts d, t_updated_at = now_ts d\<rparr> in
          if \<not> transactions_check row then (Inl check_violation, d)
          else if next_uuid d \<in> t_id ` set (transactions d) then (Inl unique_violation, d)
          else if fid \<notin> w_id ` set (wallets d) \<or> tid \<notin> w_id ` set (wallets d)
          then (Inl foreign_key_violation, d)
          else (Inr (next_uuid d), d\<lparr>transactions := transactions d @ [row]\<rparr>))"
  by (cases ds) (auto simp: insert_transaction_def description_column_def lift_check_def Let_def
      guard_not_def await_def split: sum.splits)

text \<open>One balance update inside a transfer, with the ledger row its trigger writes.\<close>

lemma update_wallet_balance_transfer:
  assumes w: "find (\<lambda>w. w_id w = wid) (wallets d) = Some w"
    and delta: "delta \<noteq> 0" and pos: "0 \<le> w_balance w" "0 \<le> w_balance w + delta"
    and tx: "current_tx d = Some tid" "tid \<in> t_id ` set (transactions d)"
    and fresh: "\<forall>l \<in> set (transaction_ledger d). l_id l \<noteq> ledger_seq d \<and>
      \<not> (l_transaction_id l = Some tid \<and> l_wallet_id l = wid)"
  shows "update_wallet_balance wid delta d =
    (if int8_ok (w_balance w + delta)
     then (Inr (), d\<lparr>wallets := update_row w_id wid (\<lambda>_. paid d delta w) (wallets d),
        ledger_seq := ledger_seq d + 1,
        transaction_ledger := transaction_ledger d @
          [\<lparr>l_id = ledger_seq d, l_wallet_id = wid, l_transaction_id = Some tid,
            l_entry_type = (if delta < 0 then DEBIT else CREDIT), l_amount = \<bar>delta\<bar>,
            l_balance_before = w_balance w, l_balance_after = w_balance w + delta,
            l_created_at = now_ts d\<rparr>]\<rparr>)
     else (Inl bigint_out_of_range, d))"
proof (cases "int8_ok (w_balance w + delta)")
  case False
  with w show ?thesis by (simp add: update_wallet_balance_def set_updated_at_wallet_def Let_def)
next
  case True
  let ?d = "d\<lparr>wallets := update_row w_id wid (\<lambda>_. paid d delta w) (wallets d)\<rparr>"
  from w have wid: "w_id w = wid" "w \<in> set (wallets d)" by (auto dest: find_SomeD)
  have "map w_id (wallets ?d) = map w_id (wallets d)"
    using wid by (simp add: map_update_row paid_def)
  then have mem: "wid \<in> w_id ` set (wallets ?d)"
    using wid by (metis image_eqI list.set_map)
  have "update_wallet_balance wid delta d = fn_wallet_balance_ledger_update w (paid d delta w) ?d"
    using w True pos delta
    by (simp add: update_wallet_balance_def set_updated_at_wallet_def wallets_check_def paid_def Let_def)
  also have "\<dots> = insert_ledger wid (Some tid) (if delta < 0 then DEBIT else CREDIT) \<bar>delta\<bar> (w_balance w)
      (w_balance w + delta) ?d"
    using wid tx by (simp add: fn_wallet_balance_ledger_update_def paid_def)
  finally show ?thesis
    using True delta pos tx mem fresh
    by (auto simp: insert_ledger_def ledger_check_def Let_def guard_not_def)
qed

section \<open>The result on every branch\<close>

text \<open>The outcome of \<open>CALL transfer_funds(\<dots>)\<close>, read off the code: the first test that fails decides.\<close>

definition transfer_outcome ::
  "int \<Rightarrow> int \<Rightarrow> int option \<Rightarrow> string option \<Rightarrow> int \<Rightarrow> db \<Rightarrow> (sql_error + uuid \<times> receipt_status) \<times> db" where
  "transfer_outcome f t amount ds threshold d =
     (case amount of None \<Rightarrow> (Inl (wl ''WL001''), d) | Some a \<Rightarrow>
      if a \<le> 0 then (Inl (wl ''WL001''), d)
      else if f = t then (Inl (wl ''WL002''), d)
      else case wallet_of d f of None \<Rightarrow> (Inl (wl ''WL003''), d) | Some fw \<Rightarrow>
      (case wallet_of d t of None \<Rightarrow> (Inl (wl ''WL004''), d) | Some tw \<Rightarrow>
       if w_balance fw < a then (Inl (wl ''WL005''), d)
       else case description_column ds of Inl e \<Rightarrow> (Inl e, d) | Inr descr \<Rightarrow>
       if next_uuid d \<in> t_id ` set (transactions d) then (Inl unique_violation, d)
       else if \<not> int8_ok (w_balance tw + a) then (Inl bigint_out_of_range, d\<lparr>ledger_seq := ledger_seq d + 1\<rparr>)
       else let st = (if a > threshold then PENDING else NOT_REQUIRED) in
         (Inr (next_uuid d, st), transfer_post d fw tw a descr st)))"


lemma rollback_unchanged [simp]: "current_tx d = None \<Longrightarrow> rollback_to d d = d"
  by (simp add: rollback_to_def)

text \<open>The procedure after its guards, for the wallets it found.\<close>

lemma transfer_writes:
  assumes ok: "db_ok d" and fw: "fw \<in> set (wallets d)" and tw: "tw \<in> set (wallets d)"
    and ne: "w_id fw \<noteq> w_id tw" and a: "0 < a" "a \<le> w_balance fw"
    and descr: "description_column ds = Inr descr" and fresh: "next_uuid d \<notin> t_id ` set (transactions d)"
    and st: "st \<noteq> GENERATED"
  shows "await (insert_transaction (w_id fw) (w_id tw) a ds st) (\<lambda>tid.
      await (modify (\<lambda>d. d\<lparr>current_tx := Some tid\<rparr>)) (\<lambda>_.
      await (update_wallet_balance (w_id fw) (- a)) (\<lambda>_.
      await (update_wallet_balance (w_id tw) a) (\<lambda>_.
      await (modify (\<lambda>d. d\<lparr>current_tx := None\<rparr>)) (\<lambda>_. ret (tid, st)))))) d =
    (if int8_ok (w_balance tw + a) then (Inr (next_uuid d, st), transfer_post d fw tw a descr st)
     else (Inl bigint_out_of_range,
       d\<lparr>transactions := transactions d @ [new_transaction d fw tw a descr st],
         wallets := update_row w_id (w_id fw) (\<lambda>_. paid d (- a) fw) (wallets d),
         transaction_ledger := transaction_ledger d @ [transfer_entry d (ledger_seq d) fw DEBIT a],
         ledger_seq := ledger_seq d + 1, current_tx := Some (next_uuid d)\<rparr>))"
proof -
  from ok have wf: "wf_wallets d" "wf_ledger d" by (simp_all add: db_ok_def)
  from wf(1) fw tw have bal: "0 \<le> w_balance fw" "0 \<le> w_balance tw" "int8_ok (w_balance fw)"
    by (simp_all add: wf_wallets_def)
  from bal a have rng: "int8_ok (w_balance fw - a)" by (simp add: int8_ok_def)
  let ?tx = "new_transaction d fw tw a descr st"
  let ?d1 = "d\<lparr>transactions := transactions d @ [?tx], current_tx := Some (next_uuid d)\<rparr>"
  let ?deb = "transfer_entry d (ledger_seq d) fw DEBIT a"
  let ?d2 = "?d1\<lparr>wallets := update_row w_id (w_id fw) (\<lambda>_. paid d (- a) fw) (wallets d),
     ledger_seq := ledger_seq d + 1, transaction_ledger := transaction_ledger d @ [?deb]\<rparr>"
  have ins: "insert_transaction (w_id fw) (w_id tw) a ds st d =
      (Inr (next_uuid d), d\<lparr>transactions := transactions d @ [?tx]\<rparr>)"
    using descr fresh fw tw ne a st
    by (simp add: insert_transaction_eq transactions_check_def new_transaction_def Let_def)
  have unused: "\<forall>l \<in> set (transaction_ledger d). l_id l \<noteq> ledger_seq d \<and> l_id l \<noteq> ledger_seq d + 1 \<and>
      l_transaction_id l \<noteq> Some (next_uuid d)"
    using wf(2) fresh by (force simp: wf_ledger_def)
  have find_fw: "find (\<lambda>w. w_id w = w_id fw) (wallets d) = Some fw"
    and find_tw: "find (\<lambda>w. w_id w = w_id tw) (wallets d) = Some tw"
    using wf(1) fw tw by (simp_all add: find_Some_iff_mem wf_wallets_def)
  have upd1: "update_wallet_balance (w_id fw) (- a) ?d1 = (Inr (), ?d2)"
    using update_wallet_balance_transfer [of "w_id fw" ?d1 fw "- a" "next_uuid d"] find_fw a bal rng unused
    by (simp add: paid_def transfer_entry_def new_transaction_def)
  have find2: "find (\<lambda>w. w_id w = w_id tw) (wallets ?d2) = Some tw"
    using find_tw ne wf(1) tw by (simp add: find_update_row_other paid_def)
  have upd2: "update_wallet_balance (w_id tw) a ?d2 =
     (if int8_ok (w_balance tw + a) then (Inr (), ?d2\<lparr>wallets := update_row w_id (w_id tw) (\<lambda>_. paid d a tw) (wallets ?d2),
        ledger_seq := ledger_seq d + 2,
        transaction_ledger := transaction_ledger ?d2 @ [transfer_entry d (ledger_seq d + 1) tw CREDIT a]\<rparr>)
      else (Inl bigint_out_of_range, ?d2))"
    using update_wallet_balance_transfer [of "w_id tw" ?d2 tw a "next_uuid d"] find2 a bal unused ne
    by (simp add: paid_def transfer_entry_def new_transaction_def)
  show ?thesis
    by (simp add: await_def [of "insert_transaction _ _ _ _ _"] await_def [of "update_wallet_balance _ _"]
        ins upd1 upd2 transfer_post_def)
qed


lemma wallet_ids_ne:
  "wf_wallets d \<Longrightarrow> fw \<in> set (wallets d) \<Longrightarrow> tw \<in> set (wallets d) \<Longrightarrow>
   w_user_id fw \<noteq> w_user_id tw \<Longrightarrow> w_id fw \<noteq> w_id tw"
  by (auto simp: wf_wallets_def dest: distinct_map_inj)

text \<open>Running the procedure: its outcome before the enclosing transaction ends.\<close>

lemma transfer_funds_cases:
  assumes ok: "db_ok d"
  shows "autocommit (transfer_funds f t amount ds threshold) d = transfer_outcome f t amount ds threshold d"
proof (cases "\<exists>a fw tw descr. amount = Some a \<and> 0 < a \<and> f \<noteq> t \<and> wallet_of d f = Some fw \<and>
    wallet_of d t = Some tw \<and> a \<le> w_balance fw \<and> description_column ds = Inr descr \<and>
    next_uuid d \<notin> t_id ` set (transactions d)")
  case True
  then obtain a fw tw descr where h: "amount = Some a" "0 < a" "f \<noteq> t" "wallet_of d f = Some fw"
    "wallet_of d t = Some tw" "a \<le> w_balance fw" "description_column ds = Inr descr"
    "next_uuid d \<notin> t_id ` set (transactions d)" by blast
  from ok have wf: "wf_wallets d" "current_tx d = None" by (simp_all add: db_ok_def)
  from h have rows: "fw \<in> set (wallets d)" "tw \<in> set (wallets d)" "w_user_id fw = f" "w_user_id tw = t"
    by (auto dest: wallet_of_SomeD)
  then have ne: "w_id fw \<noteq> w_id tw" using h(3) wallet_ids_ne [OF wf(1)] by simp
  have st: "(if threshold < a then PENDING else NOT_REQUIRED) \<noteq> GENERATED" by simp
  show ?thesis
    using h wf pick_locked_wallets [OF wf(1) h(3)]
      transfer_writes [OF ok rows(1,2) ne h(2,6,7,8) st]
    by (simp add: transfer_funds_def transfer_outcome_def autocommit_def Let_def not_less
        rollback_to_def commit_db_def transfer_post_def)
next
  case False
  from ok have wf: "wf_wallets d" "current_tx d = None" by (simp_all add: db_ok_def)
  consider "amount = None" | a where "amount = Some a" "a \<le> 0" | a where "amount = Some a" "0 < a" "f = t"
    | a where "amount = Some a" "0 < a" "f \<noteq> t" by (metis not_le option.exhaust)
  then show ?thesis
  proof cases
    case (4 a)
    note pick = pick_locked_wallets [OF wf(1) 4(3)]
    show ?thesis
    proof (cases "wallet_of d f")
      case None
      with 4 pick wf show ?thesis
        by (simp add: transfer_funds_def transfer_outcome_def autocommit_def)
    next
      case (Some fw)
      show ?thesis
      proof (cases "wallet_of d t")
        case None
        with Some 4 pick wf show ?thesis
          by (simp add: transfer_funds_def transfer_outcome_def autocommit_def)
      next
        case (Some tw)
        with \<open>wallet_of d f = Some fw\<close> have rows: "fw \<in> set (wallets d)" "tw \<in> set (wallets d)"
          "w_user_id fw = f" "w_user_id tw = t" by (auto dest: wallet_of_SomeD)
        then have "w_id fw \<noteq> w_id tw" using 4(3) wallet_ids_ne [OF wf(1)] by simp
        with Some \<open>wallet_of d f = Some fw\<close> 4 pick wf False rows show ?thesis
          by (cases "description_column ds")
            (auto simp: transfer_funds_def transfer_outcome_def autocommit_def await_def
              insert_transaction_eq transactions_check_def guard_not_def not_less Let_def)
      qed
    qed
  qed (use wf in \<open>simp_all add: transfer_funds_def transfer_outcome_def autocommit_def\<close>)
qed


section \<open>What a transfer keeps\<close>

lemma transfer_outcome_InrD:
  assumes "transfer_outcome f t amount ds threshold d = (Inr (tid, st), d')"
  obtains a fw tw descr where "amount = Some a" "0 < a" "f \<noteq> t" "wallet_of d f = Some fw"
    "wallet_of d t = Some tw" "a \<le> w_balance fw" "description_column ds = Inr descr"
    "next_uuid d \<notin> t_id ` set (transactions d)" "int8_ok (w_balance tw + a)" "tid = next_uuid d"
    "st = (if a > threshold then PENDING else NOT_REQUIRED)" "d' = transfer_post d fw tw a descr st"
  using assms
  by (auto simp: transfer_outcome_def Let_def not_le not_less split: option.splits sum.splits if_splits)

text \<open>Everything a successful transfer tells of the rows it used.\<close>

lemma transfer_successE:
  assumes ok: "db_ok d" and out: "transfer_outcome f t amount ds threshold d = (Inr r, d')"
  obtains a fw tw descr st where "amount = Some a" "0 < a" "f \<noteq> t"
    "wallet_of d f = Some fw" "wallet_of d t = Some tw" "a \<le> w_balance fw"
    "fw \<in> set (wallets d)" "tw \<in> set (wallets d)" "w_user_id fw = f" "w_user_id tw = t" "w_id fw \<noteq> w_id tw"
    "description_column ds = Inr descr" "next_uuid d \<notin> t_id ` set (transactions d)"
    "int8_ok (w_balance tw + a)" "st = (if a > threshold then PENDING else NOT_REQUIRED)"
    "r = (next_uuid d, st)" "d' = transfer_post d fw tw a descr st"
proof -
  obtain tid st where r: "r = (tid, st)" by (cases r)
  show ?thesis
  proof (rule transfer_outcome_InrD [OF out [unfolded r]])
    fix a fw tw descr
    assume h: "amount = Some a" "0 < a" "f \<noteq> t" "wallet_of d f = Some fw"
      "wallet_of d t = Some tw" "a \<le> w_balance fw" "description_column ds = Inr descr"
      "next_uuid d \<notin> t_id ` set (transactions d)" "int8_ok (w_balance tw + a)" "tid = next_uuid d"
      "st = (if a > threshold then PENDING else NOT_REQUIRED)" "d' = transfer_post d fw tw a descr st"
    from h(4,5) have rows: "fw \<in> set (wallets d)" "tw \<in> set (wallets d)" "w_user_id fw = f" "w_user_id tw = t"
      by (auto dest: wallet_of_SomeD)
    from ok have "wf_wallets d" by (simp add: db_ok_def)
    from wallet_ids_ne [OF this rows(1,2)] rows h(3) have "w_id fw \<noteq> w_id tw" by simp
    with h rows r that show ?thesis by blast
  qed
qed

lemma map_w_id_transfer_post:
  "fw \<in> set (wallets d) \<Longrightarrow> tw \<in> set (wallets d) \<Longrightarrow>
   map w_id (wallets (transfer_post d fw tw a ds st)) = map w_id (wallets d)"
  by (simp add: transfer_post_def map_update_row paid_def)

lemma set_wallets_transfer_post:
  assumes "wf_wallets d" "fw \<in> set (wallets d)" "tw \<in> set (wallets d)" "w_id fw \<noteq> w_id tw"
  shows "set (wallets (transfer_post d fw tw a ds st)) =
    insert (paid d (- a) fw) (insert (paid d a tw) (set (wallets d) - {fw, tw}))"
proof -
  have inj: "\<And>w v. w \<in> set (wallets d) \<Longrightarrow> v \<in> set (wallets d) \<Longrightarrow> w_id w = w_id v \<Longrightarrow> w = v"
    using assms(1) by (auto simp: wf_wallets_def dest: distinct_map_inj)
  show ?thesis
    using assms(2-4) inj by (auto simp: transfer_post_def update_row_def paid_def image_iff)
qed

lemma map_w_user_id_transfer_post:
  assumes "wf_wallets d" "fw \<in> set (wallets d)" "tw \<in> set (wallets d)" "w_id fw \<noteq> w_id tw"
  shows "map w_user_id (wallets (transfer_post d fw tw a ds st)) = map w_user_id (wallets d)"
proof -
  have inj: "\<And>w v. w \<in> set (wallets d) \<Longrightarrow> v \<in> set (wallets d) \<Longrightarrow> w_id w = w_id v \<Longrightarrow> w = v"
    using assms(1) by (auto simp: wf_wallets_def dest: distinct_map_inj)
  show ?thesis
    using assms(2-4) inj by (auto simp: transfer_post_def update_row_def paid_def)
qed

lemma total_balance_transfer_post:
  assumes "wf_wallets d" "fw \<in> set (wallets d)" "tw \<in> set (wallets d)" "w_id fw \<noteq> w_id tw"
  shows "total_balance (transfer_post d fw tw a ds st) = total_balance d"
proof -
  let ?ws = "update_row w_id (w_id fw) (\<lambda>_. paid d (- a) fw) (wallets d)"
  have ids: "map w_id ?ws = map w_id (wallets d)"
    using assms(2) by (simp add: map_update_row paid_def)
  have tw': "tw \<in> set ?ws" using assms(3,4) by (force simp: update_row_def)
  have "sum_list (map w_balance ?ws) = sum_list (map w_balance (wallets d)) - a"
    using assms(1,2) by (subst sum_list_update_row [of _ _ fw]) (simp_all add: wf_wallets_def paid_def)
  moreover have "sum_list (map w_balance (update_row w_id (w_id tw) (\<lambda>_. paid d a tw) ?ws)) =
      sum_list (map w_balance ?ws) + a"
    using assms(1) ids tw' by (subst sum_list_update_row [of _ _ tw]) (simp_all add: wf_wallets_def paid_def)
  ultimately show ?thesis by (simp add: total_balance_def transfer_post_def)
qed

lemma statement_transfer_post:
  "statement (transfer_post d fw tw a ds st) wid =
   statement d wid @ filter (\<lambda>l. l_wallet_id l = wid)
     [transfer_entry d (ledger_seq d) fw DEBIT a, transfer_entry d (ledger_seq d + 1) tw CREDIT a]"
  by (simp add: statement_def transfer_post_def)

lemma transfer_post_ledger_agrees:
  assumes ok: "db_ok d" and rows: "fw \<in> set (wallets d)" "tw \<in> set (wallets d)" "w_id fw \<noteq> w_id tw"
  shows "ledger_agrees (transfer_post d fw tw a ds st)"
proof -
  let ?d = "transfer_post d fw tw a ds st"
  from ok have wf: "wf_wallets d" and agrees: "ledger_agrees d" by (simp_all add: db_ok_def)
  have "ledger_chain 0 (statement ?d (w_id w)) = Some (w_balance w)" if "w \<in> set (wallets ?d)" for w
  proof -
    from that set_wallets_transfer_post [OF wf rows]
    consider "w = paid d (- a) fw" | "w = paid d a tw" | "w \<in> set (wallets d)" "w \<noteq> fw" "w \<noteq> tw" by auto
    then show ?thesis
    proof cases
      case 3
      with wf rows have "w_id w \<noteq> w_id fw" "w_id w \<noteq> w_id tw"
        by (auto simp: wf_wallets_def dest: distinct_map_inj)
      with 3 agrees show ?thesis
        by (simp add: statement_transfer_post transfer_entry_def ledger_agrees_def)
    qed (use rows agrees in \<open>simp_all add: statement_transfer_post transfer_entry_def ledger_agrees_def
          ledger_chain_append paid_def\<close>)
  qed
  then show ?thesis by (simp add: ledger_agrees_def)
qed

lemma transfer_post_db_ok:
  assumes ok: "db_ok d" and rows: "fw \<in> set (wallets d)" "tw \<in> set (wallets d)" "w_id fw \<noteq> w_id tw"
    and a: "0 < a" "a \<le> w_balance fw" "int8_ok (w_balance tw + a)"
    and fresh: "next_uuid d \<notin> t_id ` set (transactions d)" and st: "st \<noteq> GENERATED"
  shows "db_ok (transfer_post d fw tw a ds st)"
proof -
  let ?d = "transfer_post d fw tw a ds st"
  from ok have wf: "wf_users d" "wf_wallets d" "wf_transactions d" "wf_ledger d" "double_entry d"
    "total_balance d = issued d" by (simp_all add: db_ok_def)
  have ids: "w_id ` set (wallets ?d) = w_id ` set (wallets d)"
    using map_w_id_transfer_post [OF rows(1,2)] by (metis list.set_map)
  have bal: "0 \<le> w_balance fw" "0 \<le> w_balance tw" "int8_ok (w_balance fw)"
    using wf(2) rows by (simp_all add: wf_wallets_def)
  with a have rng: "int8_ok (w_balance fw - a)" by (simp add: int8_ok_def)
  have "wf_users ?d" using wf(1) by (simp add: wf_users_def transfer_post_def)
  moreover have "wf_wallets ?d"
    unfolding wf_wallets_def map_w_id_transfer_post [OF rows(1,2)] map_w_user_id_transfer_post [OF wf(2) rows]
      set_wallets_transfer_post [OF wf(2) rows]
    using wf(2) rows a bal rng by (simp add: wf_wallets_def transfer_post_def paid_def)
  moreover have "wf_transactions ?d"
    unfolding wf_transactions_def ids
    using wf(3) fresh rows a st
    by (simp add: wf_transactions_def transfer_post_def new_transaction_def transactions_check_def)
  moreover have "wf_ledger ?d"
    unfolding wf_ledger_def ids
    using wf(4) rows a bal
    by (force simp: wf_ledger_def transfer_post_def new_transaction_def transfer_entry_def ledger_check_def)
  moreover have "double_entry ?d"
  proof -
    have "filter (\<lambda>l. l_transaction_id l = Some (next_uuid d)) (transaction_ledger d) = []"
      using wf(4) fresh by (force simp: filter_empty_conv wf_ledger_def)
    moreover have "t_id t \<noteq> next_uuid d" if "t \<in> set (transactions d)" for t using fresh that by force
    ultimately show ?thesis using wf(5)
      by (auto simp: double_entry_def entries_of_def transfer_post_def new_transaction_def transfer_entry_def)
  qed
  moreover have "total_balance ?d = issued ?d"
    using total_balance_transfer_post [OF wf(2) rows] wf(6)
    by (simp add: issued_def transfer_post_def transfer_entry_def opening_amount_def)
  ultimately show ?thesis using transfer_post_ledger_agrees [OF ok rows]
    by (simp add: db_ok_def transfer_post_def)
qed

lemma transfer_outcome_db_ok:
  assumes ok: "db_ok d" and out: "transfer_outcome f t amount ds threshold d = (Inr r, d')"
  shows "db_ok d'"
  using ok out by (rule transfer_successE) (simp add: ok transfer_post_db_ok)

lemma seqs_update_wallet_balance: "keeps (seqs_le d0) (update_wallet_balance wid delta)"
  unfolding update_wallet_balance_def fn_wallet_balance_ledger_update_def
  by (intro keeps_intros keeps_seqs_modify seqs_insert_ledger) auto

lemma seqs_insert_transaction: "keeps (seqs_le d0) (insert_transaction f t a ds st)"
  unfolding insert_transaction_def by (intro keeps_intros keeps_seqs_modify) auto

lemma seqs_transfer_funds: "keeps (seqs_le d0) (transfer_funds f t amount ds threshold)"
  unfolding transfer_funds_def
  by (intro keeps_intros keeps_seqs_modify seqs_insert_transaction seqs_update_wallet_balance) auto

text \<open>The procedure meets the contract of a statement.\<close>

lemma transfer_funds_db_ok:
  assumes ok: "db_ok d" and run: "transfer_funds f t amount ds threshold d = (Inr r, d')"
  shows "db_ok d'"
proof -
  from run have "transfer_outcome f t amount ds threshold d = (Inr r, commit_db d')"
    using transfer_funds_cases [OF ok, of f t amount ds threshold] by (simp add: autocommit_def)
  with ok have "db_ok (commit_db d')" by (rule transfer_outcome_db_ok)
  moreover have "current_tx d' = None"
    using run by (auto simp: transfer_funds_def Let_def guard_not_def elim!: await_InrE
        split: option.splits prod.splits if_splits)
  then have "commit_db d' = d'" by (cases d') (simp add: commit_db_def)
  ultimately show ?thesis by simp
qed

interpretation transfer: invariant_statement db_ok "transfer_funds f t amount ds threshold"
  for f t amount ds threshold
  by unfold_locales (blast intro: transfer_funds_db_ok, rule seqs_transfer_funds)


section \<open>Refinement of an abstract bank\<close>

text \<open>
  The abstract bank knows only the balance of each user who has a wallet. A transfer on it
  moves the amount or is refused.
\<close>

type_synonym bank = "int \<Rightarrow> int option"

definition bank_of :: "db \<Rightarrow> bank" where
  "bank_of d = (\<lambda>uid. map_option w_balance (wallet_of d uid))"

definition bank_transfer :: "int \<Rightarrow> int \<Rightarrow> int \<Rightarrow> bank \<Rightarrow> bank option" where
  "bank_transfer f t a b =
     (case (b f, b t) of
        (Some x, Some y) \<Rightarrow> if 0 < a \<and> f \<noteq> t \<and> a \<le> x then Some (b(f \<mapsto> x - a, t \<mapsto> y + a)) else None
      | _ \<Rightarrow> None)"

lemma wallet_of_transfer_post:
  assumes "wf_wallets d" "wf_wallets (transfer_post d fw tw a ds st)"
    "fw \<in> set (wallets d)" "tw \<in> set (wallets d)" "w_id fw \<noteq> w_id tw"
  shows "wallet_of (transfer_post d fw tw a ds st) uid =
    (if uid = w_user_id fw then Some (paid d (- a) fw)
     else if uid = w_user_id tw then Some (paid d a tw) else wallet_of d uid)"
proof -
  note sets = set_wallets_transfer_post [OF assms(1,3-5), of a ds st]
  note iff = wallet_of_iff [OF assms(1)] wallet_of_iff [OF assms(2)]
  show ?thesis
  proof (cases "uid = w_user_id fw \<or> uid = w_user_id tw")
    case True
    have "wallet_of (transfer_post d fw tw a ds st) (w_user_id fw) = Some (paid d (- a) fw)"
      and "wallet_of (transfer_post d fw tw a ds st) (w_user_id tw) = Some (paid d a tw)"
      unfolding iff(2) sets by (simp_all add: paid_def)
    with True show ?thesis by auto
  next
    case False
    have "wallet_of (transfer_post d fw tw a ds st) uid = Some w \<longleftrightarrow> wallet_of d uid = Some w" for w
      using False by (auto simp: iff sets paid_def)
    then have "wallet_of (transfer_post d fw tw a ds st) uid = wallet_of d uid"
      by (metis not_None_eq)
    with False show ?thesis by simp
  qed
qed

lemma bank_of_transfer_outcome:
  assumes ok: "db_ok d" and out: "transfer_outcome f t (Some a) ds threshold d = (Inr r, d')"
  shows "bank_transfer f t a (bank_of d) = Some (bank_of d')"
  using ok out
proof (rule transfer_successE)
  fix a' fw tw descr st
  assume h: "Some a = Some a'" "0 < a'" "f \<noteq> t" "wallet_of d f = Some fw" "wallet_of d t = Some tw"
    "a' \<le> w_balance fw" "d' = transfer_post d fw tw a' descr st"
    and rows: "fw \<in> set (wallets d)" "tw \<in> set (wallets d)" "w_user_id fw = f" "w_user_id tw = t"
      "w_id fw \<noteq> w_id tw"
  from ok have wf: "wf_wallets d" by (simp add: db_ok_def)
  from transfer_outcome_db_ok [OF ok out] have wf': "wf_wallets d'" by (simp add: db_ok_def)
  have "bank_of d' = (bank_of d)(f \<mapsto> w_balance fw - a, t \<mapsto> w_balance tw + a)"
    using h rows wallet_of_transfer_post [OF wf wf' [unfolded h(7)] rows(1,2,5)]
    by (simp add: fun_eq_iff bank_of_def h(7) paid_def)
  with h show ?thesis by (simp add: bank_transfer_def bank_of_def)
qed

lemma tables_transfer_outcome_Inl:
  "transfer_outcome f t amount ds threshold d = (Inl e, d') \<Longrightarrow> tables d' = tables d"
  by (auto simp: transfer_outcome_def Let_def tables_def split: option.splits sum.splits if_splits)

lemma total_balance_tables: "tables d' = tables d \<Longrightarrow> total_balance d' = total_balance d"
  by (simp add: tables_def total_balance_def)

lemma bank_of_tables: "tables d' = tables d \<Longrightarrow> bank_of d' = bank_of d"
  by (simp add: tables_def bank_of_def wallet_of_def)

lemma total_balance_transfer_outcome:
  assumes ok: "db_ok d"
  shows "total_balance (snd (transfer_outcome f t amount ds threshold d)) = total_balance d"
proof (cases "transfer_outcome f t amount ds threshold d")
  case (Pair r d')
  show ?thesis
  proof (cases r)
    case (Inl e)
    from Pair have "tables d' = tables d" unfolding Inl by (rule tables_transfer_outcome_Inl)
    then have "total_balance d' = total_balance d" by (rule total_balance_tables)
    with Pair show ?thesis by simp
  next
    case (Inr p)
    from Pair have "transfer_outcome f t amount ds threshold d = (Inr p, d')" by (simp add: Inr)
    with ok have "total_balance d' = total_balance d"
      by (rule transfer_successE) (use ok in \<open>simp add: total_balance_transfer_post db_ok_def\<close>)
    with Pair show ?thesis by simp
  qed
qed

end
