(* ===== verification/Repositories.thy ===== *)
theory Repositories
  imports World Transfer_Funds "HOL-Library.List_Lexorder"
begin

text \<open>
  The repositories of \<open>src/repositories/\<close>: the SQL each method sends, as a statement over the
  model of the schema, and the object it builds from the rows. The name given to each query is
  what the trace records of it.
\<close>

section \<open>Reading rows\<close>

text \<open>Statements that only read keep the integrity trivially.\<close>

definition read_only :: "'a sql \<Rightarrow> bool" where
  "read_only stmt \<longleftrightarrow> (\<forall>d. snd (stmt d) = d)"

context db_invariant
begin

lemma read_only_invariant: "read_only stmt \<Longrightarrow> invariant_statement P stmt"
  by unfold_locales (metis read_only_def snd_conv, simp add: read_only_def keeps_def)

end

lemma read_only_select: "read_only (get_state g)"
  by (simp add: read_only_def)

text \<open>\<open>ORDER BY a DESC, b DESC\<close>\<close>

definition order_desc :: "('r \<Rightarrow> 'a::linorder) \<Rightarrow> ('r \<Rightarrow> 'b::linorder) \<Rightarrow> 'r list \<Rightarrow> 'r list" where
  "order_desc a b rows = rev (sort_key a (sort_key b rows))"

lemma set_order_desc [simp]: "set (order_desc a b rows) = set rows"
  by (simp add: order_desc_def)

lemma length_order_desc [simp]: "length (order_desc a b rows) = length rows"
  by (simp add: order_desc_def)

text \<open>\<open>SELECT \<dots>, COUNT(*) OVER () \<dots> LIMIT limit OFFSET offset\<close>: each row carries the count of them all.\<close>

definition select_page :: "int \<Rightarrow> int \<Rightarrow> (db \<Rightarrow> 'r list) \<Rightarrow> ('r \<times> int) list sql" where
  "select_page limit offset rows =
     await (guard_not (\<not> int8_ok limit \<or> \<not> int8_ok offset) bigint_out_of_range) (\<lambda>_.
     await (guard_not (limit < 0) (sql_err ''2201W'' ''LIMIT must not be negative'')) (\<lambda>_.
     await (guard_not (offset < 0) (sql_err ''2201X'' ''OFFSET must not be negative'')) (\<lambda>_.
     get_state (\<lambda>d. map (\<lambda>r. (r, int (length (rows d)))) (take (nat limit) (drop (nat offset) (rows d)))))))"

lemma read_only_page: "read_only (select_page limit offset rows)"
  by (auto simp: read_only_def select_page_def guard_not_def)

definition toPage :: "('r \<Rightarrow> 'a) \<Rightarrow> ('r \<times> int) list \<Rightarrow> 'a page" where
  "toPage f rows = \<lparr>items = map (f \<circ> fst) rows, total = (case rows of [] \<Rightarrow> 0 | r # _ \<Rightarrow> snd r)\<rparr>"

section \<open>user.repository.js\<close>

definition role_name :: "user_role \<Rightarrow> string" where
  "role_name r = (case r of USER \<Rightarrow> ''USER'' | ADMIN \<Rightarrow> ''ADMIN'')"

definition toUser :: "user_row \<Rightarrow> user_obj" where
  "toUser row = \<lparr>user_id = u_id row, user_username = u_username row, user_fullName = u_full_name row,
     user_role = role_name (u_role row), user_passwordHash = u_password_hash row,
     user_createdAt = u_created_at row\<rparr>"

definition users_create :: "env \<Rightarrow> string \<Rightarrow> string \<Rightarrow> string \<Rightarrow> user_role \<Rightarrow> executor \<Rightarrow> user_obj js" where
  "users_create E username passwordHash fullName role executor =
     await (query E executor ''users.create'' (insert_user username passwordHash fullName role)) (\<lambda>row.
     await (parse_int8s [u_id row]) (\<lambda>_.
     ret (toUser row)))"

definition optional_row :: "('r \<Rightarrow> int list) \<Rightarrow> ('r \<Rightarrow> 'a) \<Rightarrow> 'r option \<Rightarrow> 'a option js" where
  "optional_row ints f r = (case r of
     None \<Rightarrow> ret None
   | Some row \<Rightarrow> await (parse_int8s (ints row)) (\<lambda>_. ret (Some (f row))))"

definition users_findByUsername :: "env \<Rightarrow> string \<Rightarrow> executor \<Rightarrow> user_obj option js" where
  "users_findByUsername E username executor =
     await (query E executor ''users.findByUsername''
              (get_state (\<lambda>d. find (\<lambda>u. u_username u = username) (users d))))
       (optional_row (\<lambda>u. [u_id u]) toUser)"

definition users_findById :: "env \<Rightarrow> int \<Rightarrow> executor \<Rightarrow> user_obj option js" where
  "users_findById E uid executor =
     await (query E executor ''users.findById'' (get_state (\<lambda>d. find (\<lambda>u. u_id u = uid) (users d))))
       (optional_row (\<lambda>u. [u_id u]) toUser)"

section \<open>wallet.repository.js\<close>

definition toWallet :: "wallet_row \<Rightarrow> wallet_obj" where
  "toWallet row = \<lparr>wallet_id = w_id row, wallet_userId = w_user_id row, wallet_balance = w_balance row,
     wallet_createdAt = w_created_at row, wallet_updatedAt = w_updated_at row\<rparr>"

definition wallet_int8s :: "wallet_row \<Rightarrow> int list" where
  "wallet_int8s row = [w_id row, w_user_id row, w_balance row]"

definition toLedgerEntry :: "ledger_row \<Rightarrow> ledger_obj" where
  "toLedgerEntry row = \<lparr>entry_id = l_id row, entry_transactionId = l_transaction_id row,
     entry_type = l_entry_type row, entry_amount = l_amount row, entry_balanceBefore = l_balance_before row,
     entry_balanceAfter = l_balance_after row, entry_createdAt = l_created_at row\<rparr>"

definition ledger_int8s :: "ledger_row \<Rightarrow> int list" where
  "ledger_int8s row = [l_id row, l_amount row, l_balance_before row, l_balance_after row]"

definition wallets_create :: "env \<Rightarrow> int \<Rightarrow> int \<Rightarrow> executor \<Rightarrow> wallet_obj js" where
  "wallets_create E userId balance executor =
     await (query E executor ''wallets.create'' (insert_wallet userId balance)) (\<lambda>row.
     await (parse_int8s (wallet_int8s row)) (\<lambda>_.
     ret (toWallet row)))"

definition wallets_findByUserId :: "env \<Rightarrow> int \<Rightarrow> executor \<Rightarrow> wallet_obj option js" where
  "wallets_findByUserId E userId executor =
     await (query E executor ''wallets.findByUserId'' (get_state (\<lambda>d. wallet_of d userId)))
       (optional_row wallet_int8s toWallet)"

text \<open>The ledger rows of a user's wallet, newest first.\<close>

definition ledger_rows_of_user :: "int \<Rightarrow> db \<Rightarrow> ledger_row list" where
  "ledger_rows_of_user userId d = order_desc l_created_at l_id
     (filter (\<lambda>l. \<exists>w \<in> set (wallets d). w_id w = l_wallet_id l \<and> w_user_id w = userId) (transaction_ledger d))"

definition wallets_listLedgerByUserId :: "env \<Rightarrow> int \<Rightarrow> int \<Rightarrow> int \<Rightarrow> executor \<Rightarrow> ledger_obj page js" where
  "wallets_listLedgerByUserId E userId limit offset executor =
     await (query E executor ''wallets.listLedgerByUserId'' (select_page limit offset (ledger_rows_of_user userId)))
       (\<lambda>rows.
     await (parse_int8s (concat (map (\<lambda>(r, n). ledger_int8s r @ [n]) rows))) (\<lambda>_.
     ret (toPage toLedgerEntry rows)))"

section \<open>transaction.repository.js\<close>

text \<open>A row of \<open>DETAILS_FROM\<close>: the transaction joined with the users that own its two wallets.\<close>

type_synonym details = "tx_row \<times> user_row \<times> user_row"

definition owner_of_wallet :: "db \<Rightarrow> int \<Rightarrow> user_row option" where
  "owner_of_wallet d wid = Option.bind (wallet_by_id d wid) (\<lambda>w. find (\<lambda>u. u_id u = w_user_id w) (users d))"

definition join_details :: "db \<Rightarrow> tx_row \<Rightarrow> details option" where
  "join_details d t = (case (owner_of_wallet d (t_from_wallet_id t), owner_of_wallet d (t_to_wallet_id t)) of
     (Some fu, Some tu) \<Rightarrow> Some (t, fu, tu) | _ \<Rightarrow> None)"

definition toTransaction :: "details \<Rightarrow> transaction" where
  "toTransaction row = (case row of (t, fu, tu) \<Rightarrow>
     \<lparr>tx_id = t_id t, tx_amount = t_amount t, tx_description = t_description t,
      tx_receiptStatus = t_receipt_status t, tx_receiptUrl = t_receipt_url t,
      tx_receiptObjectKey = t_receipt_object_key t, tx_createdAt = t_created_at t,
      tx_from = \<lparr>p_userId = u_id fu, p_username = u_username fu, p_fullName = u_full_name fu\<rparr>,
      tx_to = \<lparr>p_userId = u_id tu, p_username = u_username tu, p_fullName = u_full_name tu\<rparr>\<rparr>)"

definition details_int8s :: "details \<Rightarrow> int list" where
  "details_int8s row = (case row of (t, fu, tu) \<Rightarrow> [t_amount t, u_id fu, u_id tu])"

definition transactions_transfer ::
  "env \<Rightarrow> int \<Rightarrow> int \<Rightarrow> int option \<Rightarrow> string option \<Rightarrow> int \<Rightarrow> executor \<Rightarrow> (uuid \<times> receipt_status) js" where
  "transactions_transfer E fromUserId toUserId amount description receiptThreshold executor =
     query E executor ''CALL transfer_funds''
       (transfer_funds fromUserId toUserId amount description receiptThreshold)"

definition transactions_findById :: "env \<Rightarrow> uuid \<Rightarrow> executor \<Rightarrow> transaction option js" where
  "transactions_findById E tid executor =
     await (query E executor ''transactions.findById''
              (get_state (\<lambda>d. Option.bind (find (\<lambda>t. t_id t = tid) (transactions d)) (join_details d))))
       (optional_row details_int8s toTransaction)"

definition details_page :: "env \<Rightarrow> string \<Rightarrow> int \<Rightarrow> int \<Rightarrow> (db \<Rightarrow> details list) \<Rightarrow> executor \<Rightarrow> transaction page js" where
  "details_page E lbl limit offset rows executor =
     await (query E executor lbl (select_page limit offset rows)) (\<lambda>rows.
     await (parse_int8s (concat (map (\<lambda>(r, n). details_int8s r @ [n]) rows))) (\<lambda>_.
     ret (toPage toTransaction rows)))"

definition ordered_details :: "db \<Rightarrow> tx_row list \<Rightarrow> details list" where
  "ordered_details d ts = order_desc (t_created_at \<circ> fst) (t_id \<circ> fst) (List.map_filter (join_details d) ts)"

definition details_of_user :: "int \<Rightarrow> db \<Rightarrow> details list" where
  "details_of_user userId d = ordered_details d
     (filter (\<lambda>t. case wallet_of d userId of None \<Rightarrow> False
        | Some w \<Rightarrow> t_from_wallet_id t = w_id w \<or> t_to_wallet_id t = w_id w) (transactions d))"

definition transactions_listByUserId :: "env \<Rightarrow> int \<Rightarrow> int \<Rightarrow> int \<Rightarrow> executor \<Rightarrow> transaction page js" where
  "transactions_listByUserId E userId limit offset executor =
     details_page E ''transactions.listByUserId'' limit offset (details_of_user userId) executor"

definition transactions_listAll :: "env \<Rightarrow> int \<Rightarrow> int \<Rightarrow> executor \<Rightarrow> transaction page js" where
  "transactions_listAll E limit offset executor =
     details_page E ''transactions.listAll'' limit offset (\<lambda>d. ordered_details d (transactions d)) executor"

definition pending_receipts :: "int \<Rightarrow> int \<Rightarrow> db \<Rightarrow> uuid list" where
  "pending_receipts olderThanSeconds limit d =
     map t_id (take (nat limit) (sort_key t_created_at
       (filter (\<lambda>t. t_receipt_status t = PENDING \<and> t_created_at t < now_ts d - 1000 * olderThanSeconds)
          (transactions d))))"

definition transactions_findPendingReceiptIds :: "env \<Rightarrow> int \<Rightarrow> int \<Rightarrow> executor \<Rightarrow> uuid list js" where
  "transactions_findPendingReceiptIds E olderThanSeconds limit executor =
     query E executor ''transactions.findPendingReceiptIds'' (get_state (pending_receipts olderThanSeconds limit))"

definition mark_generated :: "uuid \<Rightarrow> string \<Rightarrow> string \<Rightarrow> nat sql" where
  "mark_generated tid objectKey url = update_transactions (\<lambda>t. t_id t = tid)
     (\<lambda>t. t\<lparr>t_receipt_status := GENERATED, t_receipt_object_key := Some objectKey, t_receipt_url := Some url\<rparr>)"

definition transactions_markReceiptGenerated :: "env \<Rightarrow> uuid \<Rightarrow> string \<Rightarrow> string \<Rightarrow> executor \<Rightarrow> bool js" where
  "transactions_markReceiptGenerated E tid objectKey url executor =
     await (query E executor ''transactions.markReceiptGenerated'' (mark_generated tid objectKey url)) (\<lambda>rowCount.
     ret (rowCount = 1))"

definition mark_failed :: "uuid \<Rightarrow> nat sql" where
  "mark_failed tid = update_transactions (\<lambda>t. t_id t = tid \<and> t_receipt_status t = PENDING)
     (\<lambda>t. t\<lparr>t_receipt_status := FAILED\<rparr>)"

definition transactions_markReceiptFailed :: "env \<Rightarrow> uuid \<Rightarrow> executor \<Rightarrow> bool js" where
  "transactions_markReceiptFailed E tid executor =
     await (query E executor ''transactions.markReceiptFailed'' (mark_failed tid)) (\<lambda>rowCount.
     ret (rowCount = 1))"

lemmas repository_defs =
  users_create_def users_findByUsername_def users_findById_def
  wallets_create_def wallets_findByUserId_def wallets_listLedgerByUserId_def
  transactions_transfer_def transactions_findById_def details_page_def transactions_listByUserId_def
  transactions_listAll_def transactions_findPendingReceiptIds_def
  transactions_markReceiptGenerated_def transactions_markReceiptFailed_def

section \<open>What every statement of the program keeps\<close>

text \<open>On the pool, \<open>P\<close> with no transaction open; on a client, \<open>P\<close> inside a transaction.\<close>

definition at_executor :: "(db \<Rightarrow> bool) \<Rightarrow> executor \<Rightarrow> world \<Rightarrow> bool" where
  "at_executor P ex = (case ex of Pool \<Rightarrow> idle_inv P | Client \<Rightarrow> world_inv P)"

text \<open>
  An invariant of the program is a property of the database that each of the five writing
  statements keeps, transfers at least as long as the sender is one of the users \<open>payer\<close> allows. The
  repositories, and everything built on them, then keep it, whatever the environment does.
\<close>

locale program_invariant = db_invariant P for P :: "db \<Rightarrow> bool" +
  fixes payer :: "int \<Rightarrow> bool"
  assumes inserts_user: "invariant_statement P (insert_user u h f r)"
    and inserts_wallet: "invariant_statement P (insert_wallet uid balance)"
    and transfers: "payer from_user \<Longrightarrow> invariant_statement P (transfer_funds from_user to_user amount ds th)"
    and marks_generated: "invariant_statement P (mark_generated tid objectKey url)"
    and marks_failed: "invariant_statement P (mark_failed tid)"
begin

lemmas statements =
  inserts_user inserts_wallet marks_generated marks_failed
  read_only_invariant [OF read_only_select] read_only_invariant [OF read_only_page]

lemma keeps_optional_row [keeps_intros]: "keeps I (optional_row ints f r)"
  unfolding optional_row_def by (intro keeps_intros)

lemma keeps_at_query:
  "others_keep P E \<Longrightarrow> invariant_statement P stmt \<Longrightarrow> keeps (at_executor P ex) (query E ex lbl stmt)"
  by (cases ex) (simp_all add: at_executor_def keeps_query keeps_idle_query)

lemma keeps_repositories:
  assumes "others_keep P E"
  shows "keeps (at_executor P ex) (users_create E u h f r ex)"
    "keeps (at_executor P ex) (users_findByUsername E u ex)"
    "keeps (at_executor P ex) (users_findById E i ex)"
    "keeps (at_executor P ex) (wallets_create E i b ex)"
    "keeps (at_executor P ex) (wallets_findByUserId E i ex)"
    "keeps (at_executor P ex) (wallets_listLedgerByUserId E i l off ex)"
    "keeps (at_executor P ex) (transactions_findById E tid ex)"
    "keeps (at_executor P ex) (transactions_listByUserId E i l off ex)"
    "keeps (at_executor P ex) (transactions_listAll E l off ex)"
    "keeps (at_executor P ex) (transactions_findPendingReceiptIds E older lim ex)"
    "keeps (at_executor P ex) (transactions_markReceiptGenerated E tid key url ex)"
    "keeps (at_executor P ex) (transactions_markReceiptFailed E tid ex)"
  unfolding repository_defs by (intro keeps_intros keeps_at_query statements assms)+

lemma keeps_transactions_transfer:
  "others_keep P E \<Longrightarrow> payer i \<Longrightarrow> keeps (at_executor P ex) (transactions_transfer E i j a ds th ex)"
  unfolding transactions_transfer_def by (intro keeps_at_query transfers)

lemma pool_keeps_transfer [keeps_intros]:
  "others_keep P E \<Longrightarrow> payer i \<Longrightarrow> keeps (idle_inv P) (transactions_transfer E i j a ds th Pool)"
  using keeps_transactions_transfer [of E i Pool] by (simp add: at_executor_def)

lemmas pool_keeps [keeps_intros] = keeps_repositories [of _ Pool, unfolded at_executor_def executor.case]

lemmas client_keeps [keeps_intros] = keeps_repositories [of _ Client, unfolded at_executor_def executor.case]

end

section \<open>The integrity is an invariant of the program\<close>

lemma generated_db_ok: "invariant_statement db_ok (mark_generated tid objectKey url)"
  unfolding mark_generated_def
  by (rule integrity_update_transactions) (simp add: keeps_transfer_columns_def)

lemma failed_db_ok: "invariant_statement db_ok (mark_failed tid)"
  unfolding mark_failed_def
  by (rule integrity_update_transactions) (simp add: keeps_transfer_columns_def)

interpretation integrity: program_invariant db_ok "\<lambda>_. True"
  by (intro program_invariant.intro whole.db_invariant_axioms program_invariant_axioms.intro
      ins_user.invariant_statement_axioms ins_wallet.invariant_statement_axioms
      transfer.invariant_statement_axioms generated_db_ok failed_db_ok)

end
