(* ===== verification/Access.thy ===== *)
theory Access
  imports Repositories Js_Text
begin

text \<open>
  Who is calling and what they may do: \<open>src/lib/token.js\<close>,
  \<open>src/middlewares/authenticate.js\<close>, \<open>src/middlewares/authorize.js\<close>,
  \<open>src/services/auth.service.js\<close> and \<open>src/services/user.service.js\<close>.

  \<open>jsonwebtoken\<close> is the record \<open>jwt\<close>, a parameter; what it documents of a token it has signed
  itself is the hypothesis \<open>jwt_documented\<close>. A middleware is the function from what it reads of
  the request to the error it passes to \<open>next\<close> or the value it sets.
\<close>

section \<open>token.js\<close>

record claims =
  c_sub :: string
  c_role :: string
  c_username :: string
  c_exp :: int

datatype jwt_result = JwtOk claims | JwtExpired | JwtInvalid

text \<open>
  \<open>jwt_sign role username secret subject expiresIn now\<close> and \<open>jwt_verify token secret now\<close>, with
  the clock of the process in milliseconds.
\<close>

record jwt =
  jwt_sign :: "string \<Rightarrow> string \<Rightarrow> string \<Rightarrow> string \<Rightarrow> string \<Rightarrow> int \<Rightarrow> string"
  jwt_verify :: "string \<Rightarrow> string \<Rightarrow> int \<Rightarrow> jwt_result"

text \<open>
  A token carries its claims and the second at which it expires, \<open>lifetime\<close> after it was signed;
  it verifies under the secret that signed it until that second.
\<close>

definition jwt_documented :: "jwt \<Rightarrow> (string \<Rightarrow> int) \<Rightarrow> bool" where
  "jwt_documented J lifetime \<longleftrightarrow> (\<forall>role username secret sub expiresIn now now'.
     jwt_verify J (jwt_sign J role username secret sub expiresIn now) secret now' =
       (let exp = now div 1000 + lifetime expiresIn in
        if now' div 1000 < exp
        then JwtOk \<lparr>c_sub = sub, c_role = role, c_username = username, c_exp = exp\<rparr>
        else JwtExpired))"

text \<open>\<open>req.user\<close>; \<open>au_id\<close> is \<open>None\<close> for \<open>NaN\<close>, the number of a subject that is no number.\<close>

record auth_user =
  au_id :: "int option"
  au_role :: string
  au_username :: string
  au_expiresAt :: int

definition token_sign :: "jwt \<Rightarrow> string \<Rightarrow> string \<Rightarrow> int \<Rightarrow> user_obj \<Rightarrow> string" where
  "token_sign J secret expiresIn now user =
     jwt_sign J (user_role user) (user_username user) secret (js_String (user_id user)) expiresIn now"

definition token_verify :: "jwt \<Rightarrow> string \<Rightarrow> int \<Rightarrow> string \<Rightarrow> js_error + auth_user" where
  "token_verify J secret now token =
     (case jwt_verify J token secret now of
        JwtOk payload \<Rightarrow> Inr \<lparr>au_id = js_Number (c_sub payload), au_role = c_role payload,
            au_username = c_username payload, au_expiresAt = c_exp payload * 1000\<rparr>
      | JwtExpired \<Rightarrow> Inl (unauthorized (Some ''Access token has expired'') (Some ''TOKEN_EXPIRED''))
      | JwtInvalid \<Rightarrow> Inl (unauthorized (Some ''Access token is invalid'') (Some ''INVALID_TOKEN'')))"

section \<open>authenticate.js\<close>

definition extractBearerToken :: "string option \<Rightarrow> string option" where
  "extractBearerToken header =
     (case header of
        None \<Rightarrow> None
      | Some h \<Rightarrow>
          (case js_split_ws (js_trim h) of
             scheme # token # _ \<Rightarrow>
               if toLowerCase scheme = ''bearer'' \<and> token \<noteq> [] then Some token else None
           | _ \<Rightarrow> None))"

definition authenticate :: "(string \<Rightarrow> js_error + auth_user) \<Rightarrow> string option \<Rightarrow> js_error + auth_user" where
  "authenticate verify header =
     (case extractBearerToken header of
        None \<Rightarrow> Inl (unauthorized (Some ''Missing or malformed Authorization header'') None)
      | Some token \<Rightarrow> verify token)"

section \<open>authorize.js\<close>

definition ROLE_USER :: string where "ROLE_USER = ''USER''"

definition ROLE_ADMIN :: string where "ROLE_ADMIN = ''ADMIN''"

definition authorize :: "string list \<Rightarrow> auth_user option \<Rightarrow> js_error + unit" where
  "authorize allowedRoles user =
     (case user of
        None \<Rightarrow> Inl (unauthorized None None)
      | Some u \<Rightarrow> if au_role u \<notin> set allowedRoles then Inl (forbidden None) else Inr ())"

text \<open>
  The contract both the HTTP middleware and the socket handshake rely on: a token is refused
  with a 401 of one of two codes.
\<close>

locale token_verifier =
  fixes verify :: "string \<Rightarrow> js_error + auth_user"
  assumes refuses: "verify token = Inl e \<Longrightarrow> instanceof_AppError e \<and> err_statusCode e = 401 \<and>
    (err_code e = Some ''TOKEN_EXPIRED'' \<or> err_code e = Some ''INVALID_TOKEN'')"
begin

lemma authenticate_401:
  "authenticate verify header = Inl e \<Longrightarrow> instanceof_AppError e \<and> err_statusCode e = 401"
  by (auto simp: authenticate_def unauthorized_def AppError_def split: option.splits dest: refuses)

lemma authenticate_Inr:
  "authenticate verify header = Inr u \<longleftrightarrow> (\<exists>token. extractBearerToken header = Some token \<and> verify token = Inr u)"
  by (auto simp: authenticate_def split: option.splits)

end

interpretation tokens: token_verifier "token_verify J secret now" for J secret now
  by unfold_locales
     (auto simp: token_verify_def unauthorized_def AppError_def split: jwt_result.splits)

text \<open>A well-formed header: the scheme in any case, one token, anything after it ignored.\<close>

lemma toLowerCase_bearer_word:
  assumes "toLowerCase scheme = ''bearer''"
  shows "list_all (Not \<circ> js_space) scheme" and "scheme \<noteq> []"
proof -
  have "\<not> js_space c" if "c \<in> set scheme" for c
  proof
    assume "js_space c"
    then have "js_lower c = c" by (auto simp: js_space_def js_lower_def Let_def)
    moreover have "js_lower c \<in> set ''bearer''"
      using that assms by (metis image_eqI list.set_map toLowerCase_def)
    ultimately show False using \<open>js_space c\<close> by (auto simp: js_space_def)
  qed
  then show "list_all (Not \<circ> js_space) scheme" by (simp add: list_all_iff)
  show "scheme \<noteq> []" using assms by (auto simp: toLowerCase_def)
qed

lemma extractBearerToken_wellformed:
  assumes sch: "toLowerCase scheme = ''bearer''" and tok: "token \<noteq> []" "list_all (Not \<circ> js_space) token"
  shows "extractBearerToken (Some (scheme @ '' '' @ token)) = Some token"
proof -
  note s = toLowerCase_bearer_word [OF sch]
  have "js_trim (scheme @ '' '' @ token) = scheme @ '' '' @ token"
    using s tok by (intro js_trim_id) (cases scheme; auto simp: list_all_iff)+
  moreover have "js_split_ws (scheme @ '' '' @ token) = [scheme, token]"
  proof -
    have "js_space (CHR '' '')" by (simp add: js_space_def)
    moreover have "dropWhile js_space token = token" using tok by (cases token) auto
    ultimately show ?thesis
      using js_split_ws_cons [OF s(1), of "CHR '' ''" token] js_split_ws_word [OF tok(2)] by simp
  qed
  ultimately show ?thesis using sch tok by (simp add: extractBearerToken_def)
qed

section \<open>auth.service.js\<close>

record public_user =
  pu_id :: int
  pu_username :: string
  pu_fullName :: string
  pu_role :: string
  pu_createdAt :: int

definition toPublicUser :: "user_obj \<Rightarrow> public_user" where
  "toPublicUser u = \<lparr>pu_id = user_id u, pu_username = user_username u, pu_fullName = user_fullName u,
     pu_role = user_role u, pu_createdAt = user_createdAt u\<rparr>"

record registration =
  reg_user :: public_user
  reg_wallet_id :: int
  reg_wallet_balance :: int

definition BCRYPT_ROUNDS :: int where "BCRYPT_ROUNDS = 10"

definition auth_register :: "env \<Rightarrow> int \<Rightarrow> string \<Rightarrow> string \<Rightarrow> string \<Rightarrow> registration js" where
  "auth_register E initialBalance username password fullName =
     await (users_findByUsername E username Pool) (\<lambda>found.
     await (guard_not (found \<noteq> None) (conflict ''USERNAME_TAKEN'' ''Username is already taken'')) (\<lambda>_.
     await (call (EvHash password BCRYPT_ROUNDS) (bcrypt_hash E)) (\<lambda>passwordHash.
     withTransaction E
       (await (users_create E username passwordHash fullName USER Client) (\<lambda>user.
        await (wallets_create E (user_id user) initialBalance Client) (\<lambda>wallet.
        ret \<lparr>reg_user = toPublicUser user, reg_wallet_id = wallet_id wallet,
             reg_wallet_balance = wallet_balance wallet\<rparr>))))))"

record login_response =
  lr_accessToken :: string
  lr_tokenType :: string
  lr_expiresIn :: string
  lr_user :: public_user

text \<open>\<open>timing_safe_hash\<close> is the constant \<open>TIMING_SAFE_HASH\<close>, computed by bcrypt at start-up.\<close>

definition auth_login ::
  "env \<Rightarrow> jwt \<Rightarrow> string \<Rightarrow> string \<Rightarrow> string \<Rightarrow> string \<Rightarrow> string \<Rightarrow> login_response js" where
  "auth_login E J secret expiresIn timing_safe_hash username password =
     await (users_findByUsername E username Pool) (\<lambda>user.
     let hash = (case user of Some u \<Rightarrow> user_passwordHash u | None \<Rightarrow> timing_safe_hash) in
     await (call (EvCompare hash) (\<lambda>_. Inr (bcrypt_compare E password hash))) (\<lambda>passwordMatches.
     case user of
       None \<Rightarrow> throw (unauthorized (Some ''Invalid username or password'') (Some ''INVALID_CREDENTIALS''))
     | Some u \<Rightarrow>
         if \<not> passwordMatches
         then throw (unauthorized (Some ''Invalid username or password'') (Some ''INVALID_CREDENTIALS''))
         else await (get_state (\<lambda>w. clock E (trace w))) (\<lambda>now.
           ret \<lparr>lr_accessToken = token_sign J secret expiresIn now u, lr_tokenType = ''Bearer'',
                lr_expiresIn = expiresIn, lr_user = toPublicUser u\<rparr>)))"

section \<open>user.service.js\<close>

record public_profile =
  pp_id :: int
  pp_username :: string
  pp_fullName :: string

definition user_getPublicProfile :: "env \<Rightarrow> string \<Rightarrow> public_profile js" where
  "user_getPublicProfile E username =
     await (users_findByUsername E username Pool) (\<lambda>user.
     case user of
       None \<Rightarrow> throw (notFound (Some ''User not found'') (Some ''USER_NOT_FOUND''))
     | Some u \<Rightarrow> ret \<lparr>pp_id = user_id u, pp_username = user_username u, pp_fullName = user_fullName u\<rparr>)"

section \<open>What they keep\<close>

context program_invariant
begin

lemma keeps_auth_register [keeps_intros]: "others_keep P E \<Longrightarrow> keeps (idle_inv P) (auth_register E b u p f)"
  unfolding auth_register_def by (intro keeps_intros) simp_all

lemma keeps_auth_login [keeps_intros]: "others_keep P E \<Longrightarrow> keeps (idle_inv P) (auth_login E J s x h u p)"
  unfolding auth_login_def by (intro keeps_intros) simp_all

lemma keeps_user_profile [keeps_intros]: "others_keep P E \<Longrightarrow> keeps (idle_inv P) (user_getPublicProfile E u)"
  unfolding user_getPublicProfile_def by (intro keeps_intros) simp_all

end

end
