(* ===== verification/Pagination.thy ===== *)
theory Pagination
  imports Repositories
begin

text \<open>
  \<open>src/lib/pagination.js\<close>, and the contract between it and the repositories: a paged source
  answers a limit and an offset with a slice of its rows and their number. The client lemmas
  say what a caller of the API sees: each page, and all pages together.
\<close>

section \<open>pagination.js\<close>

record pagination =
  pg_page :: int
  pg_limit :: int
  pg_total :: int
  pg_totalPages :: int

record 'a paginated =
  pg_items :: "'a list"
  pg_pagination :: pagination

definition toOffset :: "int \<Rightarrow> int \<Rightarrow> int \<times> int" where
  "toOffset page limit = (limit, (page - 1) * limit)"

text \<open>\<open>Math.ceil(total / limit)\<close> for a limit of at least 1, which the validators ensure.\<close>

definition ceil_div :: "int \<Rightarrow> int \<Rightarrow> int" where
  "ceil_div a b = - ((- a) div b)"

definition toPaginatedResponse :: "'a page \<Rightarrow> int \<Rightarrow> int \<Rightarrow> 'a paginated" where
  "toPaginatedResponse p page limit =
     \<lparr>pg_items = items p,
      pg_pagination = \<lparr>pg_page = page, pg_limit = limit, pg_total = total p, pg_totalPages = ceil_div (total p) limit\<rparr>\<rparr>"

lemma ceil_div_bounds: "0 < b \<Longrightarrow> a \<le> ceil_div a b * b \<and> (ceil_div a b - 1) * b < a"
proof -
  assume b: "0 < b"
  define q r where "q = (- a) div b" and "r = (- a) mod b"
  have "q * b + r = - a" unfolding q_def r_def by (rule div_mult_mod_eq)
  moreover have "0 \<le> r" "r < b" using b by (simp_all add: r_def)
  moreover have "ceil_div a b = - q" by (simp add: ceil_div_def q_def)
  ultimately show ?thesis by (simp add: algebra_simps)
qed

section \<open>A quiet environment\<close>

text \<open>No other session acts and no connection is lost: what a lone request sees.\<close>

definition quiet :: "env \<Rightarrow> bool" where
  "quiet E \<longleftrightarrow> (\<forall>tr d. others E tr d = d) \<and> (\<forall>tr. db_fault E tr = Up) \<and> (\<forall>tr. connect_fault E tr = None)"

text \<open>No connection is lost; other sessions may act.\<close>

definition calm :: "env \<Rightarrow> bool" where
  "calm E \<longleftrightarrow> (\<forall>tr. db_fault E tr = Up) \<and> (\<forall>tr. connect_fault E tr = None)"

lemma quiet_calm: "quiet E \<Longrightarrow> calm E"
  by (simp add: quiet_def calm_def)

definition at_query :: "env \<Rightarrow> string \<Rightarrow> world \<Rightarrow> db" where
  "at_query E lbl w = (database w)\<lparr>now_ts := clock E (trace w @ [EvQuery lbl]),
     next_uuid := gen_uuid E (trace w @ [EvQuery lbl])\<rparr>"

lemma query_quiet:
  "quiet E \<Longrightarrow> query E Pool lbl stmt w =
     (sql_result (fst (autocommit stmt (at_query E lbl w))),
      w\<lparr>trace := trace w @ [EvQuery lbl], database := snd (autocommit stmt (at_query E lbl w))\<rparr>)"
  by (simp add: query_def pool_query_def quiet_def session_start_def at_query_def Let_def)

lemma sql_result_Inr [simp]: "sql_result (Inr x) = Inr x"
  by (simp add: sql_result_def)

lemma sql_result_Inl [simp]: "sql_result (Inl e) = Inl (pg_error e)"
  by (simp add: sql_result_def)

lemma autocommit_get_state [simp]: "autocommit (get_state g) d = (Inr (g d), commit_db d)"
  by (simp add: autocommit_def)

text \<open>Every BIGINT the driver may have to read is a safe integer.\<close>

definition db_safe :: "db \<Rightarrow> bool" where
  "db_safe d \<longleftrightarrow>
     (\<forall>u \<in> set (users d). isSafeInteger (u_id u)) \<and>
     (\<forall>w \<in> set (wallets d). list_all isSafeInteger (wallet_int8s w)) \<and>
     (\<forall>t \<in> set (transactions d). isSafeInteger (t_amount t)) \<and>
     (\<forall>l \<in> set (transaction_ledger d). list_all isSafeInteger (ledger_int8s l)) \<and>
     isSafeInteger (int (length (transactions d))) \<and> isSafeInteger (int (length (transaction_ledger d)))"

text \<open>The ids of the users are numbers JavaScript can hold.\<close>

definition user_ids_safe :: "db \<Rightarrow> bool" where
  "user_ids_safe d \<longleftrightarrow> (\<forall>u \<in> set (users d). isSafeInteger (u_id u))"

lemma db_safe_user_ids: "db_safe d \<Longrightarrow> user_ids_safe d"
  by (simp add: db_safe_def user_ids_safe_def)

lemma parse_int8s_safe: "list_all isSafeInteger ns \<Longrightarrow> parse_int8s ns w = (Inr (), w)"
  by (induction ns) (simp_all add: parse_int8_def)

lemma db_safe_at_query [simp]: "db_safe (at_query E lbl w) = db_safe (database w)"
  by (simp add: db_safe_def at_query_def)

lemma db_ok_at_query [simp]:
  "db_ok (at_query E lbl w) = db_ok (database w)"
  by (simp add: at_query_def)

lemma tables_at_query [simp]: "tables (at_query E lbl w) = tables (database w)"
  by (simp add: at_query_def tables_def)

text \<open>The world after a query that only reads.\<close>

definition after_read :: "env \<Rightarrow> string \<Rightarrow> world \<Rightarrow> world" where
  "after_read E lbl w = w\<lparr>trace := trace w @ [EvQuery lbl], database := commit_db (at_query E lbl w)\<rparr>"

lemma query_quiet_read:
  "quiet E \<Longrightarrow> query E Pool lbl (get_state g) w = (Inr (g (at_query E lbl w)), after_read E lbl w)"
  by (simp add: query_quiet after_read_def)

lemma after_read_simps [simp]:
  "trace (after_read E lbl w) = trace w @ [EvQuery lbl]"
  "tables (database (after_read E lbl w)) = tables (database w)"
  "open_tx (after_read E lbl w) = open_tx w"
  by (simp_all add: after_read_def)

lemma db_ok_after_read: "db_ok (database w) \<Longrightarrow> db_ok (database (after_read E lbl w))"
  by (simp add: after_read_def whole.commit)

section \<open>Paged sources\<close>

definition slice :: "int \<Rightarrow> int \<Rightarrow> 'a list \<Rightarrow> 'a list" where
  "slice limit offset xs = take (nat limit) (drop (nat offset) xs)"

text \<open>The number of rows as the repositories report it: 0 when the page itself is empty.\<close>

definition reported_total :: "'a list \<Rightarrow> 'b list \<Rightarrow> int" where
  "reported_total page xs = (if page = [] then 0 else int (length xs))"

locale paged_source =
  fixes fetch :: "env \<Rightarrow> int \<Rightarrow> int \<Rightarrow> 'a page js"
    and rows :: "db \<Rightarrow> 'a list"
  assumes fetch_slice:
    "quiet E \<Longrightarrow> db_safe (database w) \<Longrightarrow> 0 \<le> limit \<Longrightarrow> 0 \<le> offset \<Longrightarrow> int8_ok limit \<Longrightarrow> int8_ok offset \<Longrightarrow>
     fst (fetch E limit offset w) =
       Inr \<lparr>items = slice limit offset (rows (database w)),
            total = reported_total (slice limit offset (rows (database w))) (rows (database w))\<rparr>"
begin

text \<open>The response a service builds from one page.\<close>

lemma response:
  assumes "quiet E" "db_safe (database w)" "1 \<le> page" "1 \<le> limit" "int8_ok limit" "int8_ok ((page - 1) * limit)"
  shows "fst (await (fetch E limit ((page - 1) * limit)) (\<lambda>p. ret (toPaginatedResponse p page limit)) w) =
    (let xs = rows (database w); s = slice limit ((page - 1) * limit) xs; n = reported_total s xs in
     Inr \<lparr>pg_items = s, pg_pagination =
            \<lparr>pg_page = page, pg_limit = limit, pg_total = n, pg_totalPages = ceil_div n limit\<rparr>\<rparr>)"
proof -
  have "0 \<le> (page - 1) * limit" using assms(3,4) by simp
  with assms fetch_slice [of E w limit "(page - 1) * limit"]
  have f: "fst (fetch E limit ((page - 1) * limit) w) =
     Inr \<lparr>items = slice limit ((page - 1) * limit) (rows (database w)),
       total = reported_total (slice limit ((page - 1) * limit) (rows (database w))) (rows (database w))\<rparr>"
    by simp
  show ?thesis
    using f by (cases "fetch E limit ((page - 1) * limit) w") (simp add: toPaginatedResponse_def Let_def)
qed

end

text \<open>The slices of the pages 1, \<dots>, n put together are the first \<open>n * limit\<close> rows.\<close>

lemma concat_slices:
  assumes "0 < limit"
  shows "concat (map (\<lambda>p. slice limit ((int p - 1) * limit) xs) [1..<Suc n]) = take (n * nat limit) xs"
proof (induction n)
  case 0
  then show ?case by simp
next
  case (Suc n)
  have "nat (int n * limit) = n * nat limit" using assms by (simp add: nat_mult_distrib)
  with Suc take_add [of "n * nat limit" "nat limit" xs] show ?case
    by (simp add: slice_def add.commute)
qed

lemma slice_nonempty_iff:
  "0 < limit \<Longrightarrow> 1 \<le> page \<Longrightarrow>
   slice limit ((page - 1) * limit) xs \<noteq> [] \<longleftrightarrow> page \<le> ceil_div (int (length xs)) limit"
proof -
  assume h: "0 < limit" "1 \<le> page"
  have k: "0 \<le> (page - 1) * limit" using h by simp
  have "slice limit ((page - 1) * limit) xs \<noteq> [] \<longleftrightarrow> nat ((page - 1) * limit) < length xs"
    using h by (simp add: slice_def not_le)
  with k have ne: "slice limit ((page - 1) * limit) xs \<noteq> [] \<longleftrightarrow> (page - 1) * limit < int (length xs)"
    by (simp add: nat_less_iff)
  note b = ceil_div_bounds [OF h(1), of "int (length xs)"]
  show ?thesis
  proof
    assume "slice limit ((page - 1) * limit) xs \<noteq> []"
    with ne b have "(page - 1) * limit < ceil_div (int (length xs)) limit * limit" by linarith
    with h show "page \<le> ceil_div (int (length xs)) limit" by simp
  next
    assume "page \<le> ceil_div (int (length xs)) limit"
    with h have "(page - 1) * limit \<le> (ceil_div (int (length xs)) limit - 1) * limit"
      by (intro mult_right_mono) simp_all
    with b ne show "slice limit ((page - 1) * limit) xs \<noteq> []" by linarith
  qed
qed

section \<open>The repositories are paged sources\<close>

lemma select_page_result:
  "0 \<le> limit \<Longrightarrow> 0 \<le> offset \<Longrightarrow> int8_ok limit \<Longrightarrow> int8_ok offset \<Longrightarrow>
   autocommit (select_page limit offset rows) d =
     (Inr (map (\<lambda>r. (r, int (length (rows d)))) (slice limit offset (rows d))), commit_db d)"
  by (simp add: select_page_def autocommit_def slice_def)

lemma toPage_slice:
  "toPage f (map (\<lambda>r. (r, n)) xs) = \<lparr>items = map f xs, total = (if xs = [] then 0 else n)\<rparr>"
  by (cases xs) (simp_all add: toPage_def comp_def)

lemma set_slice: "x \<in> set (slice limit offset xs) \<Longrightarrow> x \<in> set xs"
  by (auto simp: slice_def dest: in_set_takeD in_set_dropD)

lemma map_slice: "map f (slice limit offset xs) = slice limit offset (map f xs)"
  by (simp add: slice_def take_map drop_map)

text \<open>A list method: a page query, the parsing of its columns, the objects.\<close>

lemma page_query_slice:
  assumes env: "quiet E" and args: "0 \<le> limit" "0 \<le> offset" "int8_ok limit" "int8_ok offset"
    and ints: "\<And>r. r \<in> set (rows (at_query E lbl w)) \<Longrightarrow> list_all isSafeInteger (ints r)"
    and count: "isSafeInteger (int (length (rows (at_query E lbl w))))"
    and session: "rows (at_query E lbl w) = rows (database w)"
  shows "fst (await (query E Pool lbl (select_page limit offset rows)) (\<lambda>rs.
      await (parse_int8s (concat (map (\<lambda>(r, n). ints r @ [n]) rs))) (\<lambda>_. ret (toPage f rs))) w) =
    Inr \<lparr>items = slice limit offset (map f (rows (database w))),
         total = reported_total (slice limit offset (map f (rows (database w)))) (map f (rows (database w)))\<rparr>"
proof -
  let ?rs = "map (\<lambda>r. (r, int (length (rows (at_query E lbl w))))) (slice limit offset (rows (at_query E lbl w)))"
  have "list_all isSafeInteger (concat (map (\<lambda>(r, n). ints r @ [n]) ?rs))"
    using ints count by (auto simp: list_all_iff dest!: set_slice)
  note safe = parse_int8s_safe [OF this]
  show ?thesis
    using session safe unfolding map_slice [symmetric]
    by (simp add: await_def query_quiet [OF env] select_page_result [OF args] toPage_slice reported_total_def)
qed

lemma details_session:
  "join_details (at_query E lbl w) = join_details (database w)"
  "ledger_rows_of_user i (at_query E lbl w) = ledger_rows_of_user i (database w)"
  "wallet_of (at_query E lbl w) i = wallet_of (database w) i"
  by (auto simp: at_query_def join_details_def owner_of_wallet_def wallet_by_id_def ledger_rows_of_user_def
      wallet_of_def fun_eq_iff)

lemma ordered_details_session: "ordered_details (at_query E lbl w) ts = ordered_details (database w) ts"
  by (simp add: ordered_details_def details_session)

lemma join_details_safe:
  assumes "db_safe d" "t \<in> set (transactions d)" "join_details d t = Some r"
  shows "list_all isSafeInteger (details_int8s r)"
proof -
  from assms(3) obtain fu tu where "r = (t, fu, tu)" "fu \<in> set (users d)" "tu \<in> set (users d)"
    by (fastforce simp: join_details_def owner_of_wallet_def split: option.splits bind_splits dest: find_SomeD)
  with assms(1,2) show ?thesis by (simp add: details_int8s_def db_safe_def)
qed

lemma ordered_details_safe:
  assumes "db_safe d" "set ts \<subseteq> set (transactions d)" "r \<in> set (ordered_details d ts)"
  shows "list_all isSafeInteger (details_int8s r)"
  using assms by (auto simp: ordered_details_def List.map_filter_def intro: join_details_safe)

lemma length_ordered_details: "length (ordered_details d ts) \<le> length ts"
  by (simp add: ordered_details_def List.map_filter_def)

lemma isSafeInteger_length: "isSafeInteger (int n) \<Longrightarrow> m \<le> n \<Longrightarrow> isSafeInteger (int m)"
  by (simp add: isSafeInteger_def)

interpretation all_transactions: paged_source
  "\<lambda>E limit offset. transactions_listAll E limit offset Pool"
  "\<lambda>d. map toTransaction (ordered_details d (transactions d))"
proof
  fix E :: env and w :: world and limit offset :: int
  assume h: "quiet E" "db_safe (database w)" "0 \<le> limit" "0 \<le> offset" "int8_ok limit" "int8_ok offset"
  have tx: "transactions (at_query E lbl w) = transactions (database w)" for lbl by (simp add: at_query_def)
  have safe: "list_all isSafeInteger (details_int8s r)"
    if "r \<in> set (ordered_details (database w) (transactions (database w)))" for r
    using ordered_details_safe [OF h(2) subset_refl that] .
  have len: "isSafeInteger (int (length (ordered_details (database w) (transactions (database w)))))"
    using h(2) isSafeInteger_length length_ordered_details unfolding db_safe_def by blast
  show "fst (transactions_listAll E limit offset Pool w) =
     Inr \<lparr>items = slice limit offset (map toTransaction (ordered_details (database w) (transactions (database w)))),
       total = reported_total (slice limit offset (map toTransaction (ordered_details (database w) (transactions (database w)))))
         (map toTransaction (ordered_details (database w) (transactions (database w))))\<rparr>"
    unfolding transactions_listAll_def details_page_def
    by (rule page_query_slice) (simp_all add: h tx ordered_details_session safe len)
qed

interpretation user_transactions: paged_source
  "\<lambda>E limit offset. transactions_listByUserId E uid limit offset Pool"
  "\<lambda>d. map toTransaction (details_of_user uid d)"
  for uid
proof
  fix E :: env and w :: world and limit offset :: int
  assume h: "quiet E" "db_safe (database w)" "0 \<le> limit" "0 \<le> offset" "int8_ok limit" "int8_ok offset"
  have ses: "details_of_user uid (at_query E lbl w) = details_of_user uid (database w)" for lbl
    by (simp add: details_of_user_def ordered_details_session details_session) (simp add: at_query_def)
  have safe: "list_all isSafeInteger (details_int8s r)" if "r \<in> set (details_of_user uid (database w))" for r
    using that unfolding details_of_user_def by (rule ordered_details_safe [OF h(2), rotated]) auto
  have "length (details_of_user uid (database w)) \<le> length (transactions (database w))"
    unfolding details_of_user_def by (rule order_trans [OF length_ordered_details length_filter_le])
  then have len: "isSafeInteger (int (length (details_of_user uid (database w))))"
    using h(2) isSafeInteger_length unfolding db_safe_def by blast
  show "fst (transactions_listByUserId E uid limit offset Pool w) =
     Inr \<lparr>items = slice limit offset (map toTransaction (details_of_user uid (database w))),
       total = reported_total (slice limit offset (map toTransaction (details_of_user uid (database w))))
         (map toTransaction (details_of_user uid (database w)))\<rparr>"
    unfolding transactions_listByUserId_def details_page_def
    by (rule page_query_slice) (simp_all add: h ses safe len)
qed

interpretation user_ledger: paged_source
  "\<lambda>E limit offset. wallets_listLedgerByUserId E uid limit offset Pool"
  "\<lambda>d. map toLedgerEntry (ledger_rows_of_user uid d)"
  for uid
proof
  fix E :: env and w :: world and limit offset :: int
  assume h: "quiet E" "db_safe (database w)" "0 \<le> limit" "0 \<le> offset" "int8_ok limit" "int8_ok offset"
  have safe: "list_all isSafeInteger (ledger_int8s r)" if "r \<in> set (ledger_rows_of_user uid (database w))" for r
    using h(2) that by (auto simp: ledger_rows_of_user_def db_safe_def)
  have "length (ledger_rows_of_user uid (database w)) \<le> length (transaction_ledger (database w))"
    by (simp add: ledger_rows_of_user_def)
  then have len: "isSafeInteger (int (length (ledger_rows_of_user uid (database w))))"
    using h(2) isSafeInteger_length unfolding db_safe_def by blast
  show "fst (wallets_listLedgerByUserId E uid limit offset Pool w) =
     Inr \<lparr>items = slice limit offset (map toLedgerEntry (ledger_rows_of_user uid (database w))),
       total = reported_total (slice limit offset (map toLedgerEntry (ledger_rows_of_user uid (database w))))
         (map toLedgerEntry (ledger_rows_of_user uid (database w)))\<rparr>"
    unfolding wallets_listLedgerByUserId_def
    by (rule page_query_slice) (simp_all add: h details_session safe len)
qed

end
