(* ===== verification/Services.thy ===== *)
theory Services
  imports Access Pagination
begin

text \<open>
  The services behind the wallet, transfer and transaction routes:
  \<open>src/services/notification.service.js\<close>, \<open>transfer.service.js\<close>, \<open>wallet.service.js\<close> and
  \<open>transaction.service.js\<close>, with the calls they make of the queue and of the socket server.
\<close>

section \<open>notification.service.js and receipt.queue.js\<close>

definition userRoom :: "int \<Rightarrow> string" where
  "userRoom userId = ''user:'' @ js_String userId"

definition TRANSFER_RECEIVED :: string where
  "TRANSFER_RECEIVED = ''transfer:received''"

definition notification_of :: "transaction \<Rightarrow> notification" where
  "notification_of t = \<lparr>n_transactionId = tx_id t, n_amount = tx_amount t, n_description = tx_description t,
     n_sender = tx_from t, n_createdAt = tx_createdAt t\<rparr>"

definition notifyTransferReceived :: "env \<Rightarrow> transaction \<Rightarrow> unit js" where
  "notifyTransferReceived E t =
     call (EvEmit (userRoom (p_userId (tx_to t))) TRANSFER_RECEIVED (notification_of t)) (io_emit E)"

definition RECEIPT_QUEUE_NAME :: string where "RECEIPT_QUEUE_NAME = ''transaction-receipts''"

definition RECEIPT_JOB_NAME :: string where "RECEIPT_JOB_NAME = ''generate-receipt''"

text \<open>\<open>queue.add(RECEIPT_JOB_NAME, { transactionId }, { jobId: transactionId })\<close>\<close>

definition enqueue :: "env \<Rightarrow> uuid \<Rightarrow> unit js" where
  "enqueue E transactionId = call (EvEnqueue RECEIPT_JOB_NAME transactionId transactionId) (queue_add E)"

section \<open>transfer.service.js\<close>

text \<open>
  The notifier dereferences the transaction it is given; when the transaction could not be
  read back (\<open>null\<close>) that raises a \<open>TypeError\<close>, which the second \<open>catch\<close> swallows.
\<close>

definition notify_or_throw :: "env \<Rightarrow> transaction option \<Rightarrow> unit js" where
  "notify_or_throw E t = (case t of
     None \<Rightarrow> throw (other_error ''TypeError'' None ''Cannot read properties of null'')
   | Some t \<Rightarrow> notifyTransferReceived E t)"

definition transfer_service ::
  "env \<Rightarrow> int \<Rightarrow> int \<Rightarrow> int \<Rightarrow> int option \<Rightarrow> string option \<Rightarrow> transaction option js" where
  "transfer_service E receiptThreshold fromUserId toUserId amount description =
     await (transactions_transfer E fromUserId toUserId amount description receiptThreshold Pool)
       (\<lambda>(transactionId, receiptStatus).
     await (transactions_findById E transactionId Pool) (\<lambda>transaction.
     await (if receiptStatus = PENDING
            then try_catch (enqueue E transactionId)
                   (\<lambda>err. log_msg ''error'' ''Failed to enqueue receipt job, it will be recovered by the worker'')
            else ret ()) (\<lambda>_.
     await (try_catch (notify_or_throw E transaction)
              (\<lambda>err. log_msg ''error'' ''Failed to send transfer notification'')) (\<lambda>_.
     ret transaction))))"

section \<open>wallet.service.js\<close>

definition wallet_getByUserId :: "env \<Rightarrow> int \<Rightarrow> wallet_obj js" where
  "wallet_getByUserId E userId =
     await (wallets_findByUserId E userId Pool) (\<lambda>wallet.
     case wallet of
       None \<Rightarrow> throw (notFound (Some ''Wallet not found'') (Some ''WALLET_NOT_FOUND''))
     | Some w \<Rightarrow> ret w)"

definition wallet_getLedger :: "env \<Rightarrow> int \<Rightarrow> int \<Rightarrow> int \<Rightarrow> ledger_obj paginated js" where
  "wallet_getLedger E userId page limit =
     (case toOffset page limit of (l, offset) \<Rightarrow>
        await (wallets_listLedgerByUserId E userId l offset Pool) (\<lambda>p.
        ret (toPaginatedResponse p page limit)))"

section \<open>transaction.service.js\<close>

definition canView :: "transaction \<Rightarrow> auth_user \<Rightarrow> bool" where
  "canView t requester \<longleftrightarrow>
     au_role requester = ROLE_ADMIN \<or>
     Some (p_userId (tx_from t)) = au_id requester \<or>
     Some (p_userId (tx_to t)) = au_id requester"

definition transaction_getById :: "env \<Rightarrow> uuid \<Rightarrow> auth_user \<Rightarrow> transaction js" where
  "transaction_getById E tid requester =
     await (transactions_findById E tid Pool) (\<lambda>transaction.
     case transaction of
       None \<Rightarrow> throw (notFound (Some ''Transaction not found'') (Some ''TRANSACTION_NOT_FOUND''))
     | Some t \<Rightarrow>
         if \<not> canView t requester
         then throw (notFound (Some ''Transaction not found'') (Some ''TRANSACTION_NOT_FOUND''))
         else ret t)"

definition transaction_listForUser :: "env \<Rightarrow> int \<Rightarrow> int \<Rightarrow> int \<Rightarrow> transaction paginated js" where
  "transaction_listForUser E userId page limit =
     (case toOffset page limit of (l, offset) \<Rightarrow>
        await (transactions_listByUserId E userId l offset Pool) (\<lambda>p.
        ret (toPaginatedResponse p page limit)))"

definition transaction_listAll :: "env \<Rightarrow> int \<Rightarrow> int \<Rightarrow> transaction paginated js" where
  "transaction_listAll E page limit =
     (case toOffset page limit of (l, offset) \<Rightarrow>
        await (transactions_listAll E l offset Pool) (\<lambda>p.
        ret (toPaginatedResponse p page limit)))"

definition status_name :: "receipt_status \<Rightarrow> string" where
  "status_name s = (case s of NOT_REQUIRED \<Rightarrow> ''NOT_REQUIRED'' | PENDING \<Rightarrow> ''PENDING''
     | GENERATED \<Rightarrow> ''GENERATED'' | FAILED \<Rightarrow> ''FAILED'')"

record storage_config =
  sc_bucket :: string
  sc_region :: string
  sc_urlExpirySeconds :: int

text \<open>
  \<open>storage.getDownloadUrl\<close> of \<open>src/storage/receipt.storage.js\<close>: a presigned URL of the public client.
  A key of \<open>null\<close>, which the schema excludes for a generated receipt, would be refused by the client.
\<close>

definition getDownloadUrl :: "env \<Rightarrow> storage_config \<Rightarrow> string option \<Rightarrow> string js" where
  "getDownloadUrl E C objectKey = (case objectKey of
     None \<Rightarrow> throw (other_error ''InvalidObjectNameError'' None ''Invalid object name: null'')
   | Some key \<Rightarrow> call (EvPresign (sc_bucket C) key (sc_urlExpirySeconds C)) (presigned_get E))"

definition transaction_getReceiptDownloadUrl ::
  "env \<Rightarrow> storage_config \<Rightarrow> uuid \<Rightarrow> auth_user \<Rightarrow> string js" where
  "transaction_getReceiptDownloadUrl E C tid requester =
     await (transaction_getById E tid requester) (\<lambda>t.
     if tx_receiptStatus t = NOT_REQUIRED
     then throw (notFound (Some ''This transaction does not have a receipt'') (Some ''RECEIPT_NOT_REQUIRED''))
     else if tx_receiptStatus t \<noteq> GENERATED
     then throw (AppError 409 ''RECEIPT_NOT_READY''
                   (''Receipt is '' @ toLowerCase (status_name (tx_receiptStatus t))) None)
     else getDownloadUrl E C (tx_receiptObjectKey t))"

section \<open>What they keep\<close>

context program_invariant
begin

lemma keeps_enqueue [keeps_intros]: "keeps (idle_inv P) (enqueue E tid)"
  unfolding enqueue_def by (intro keeps_intros) simp

lemma keeps_notify [keeps_intros]: "keeps (idle_inv P) (notify_or_throw E t)"
  unfolding notify_or_throw_def notifyTransferReceived_def by (intro keeps_intros) simp

lemma keeps_getDownloadUrl [keeps_intros]: "keeps (idle_inv P) (getDownloadUrl E C key)"
  unfolding getDownloadUrl_def by (intro keeps_intros) simp

lemma keeps_transfer_service [keeps_intros]:
  "others_keep P E \<Longrightarrow> payer f \<Longrightarrow> keeps (idle_inv P) (transfer_service E th f t a ds)"
  unfolding transfer_service_def by (intro keeps_intros) simp_all

lemma keeps_wallet_service [keeps_intros]:
  "others_keep P E \<Longrightarrow> keeps (idle_inv P) (wallet_getByUserId E u)"
  "others_keep P E \<Longrightarrow> keeps (idle_inv P) (wallet_getLedger E u page limit)"
  unfolding wallet_getByUserId_def wallet_getLedger_def by (intro keeps_intros; simp)+

lemma keeps_transaction_service [keeps_intros]:
  "others_keep P E \<Longrightarrow> keeps (idle_inv P) (transaction_getById E tid r)"
  "others_keep P E \<Longrightarrow> keeps (idle_inv P) (transaction_listForUser E u page limit)"
  "others_keep P E \<Longrightarrow> keeps (idle_inv P) (transaction_listAll E page limit)"
  "others_keep P E \<Longrightarrow> keeps (idle_inv P) (transaction_getReceiptDownloadUrl E C tid r)"
  unfolding transaction_getById_def transaction_listForUser_def transaction_listAll_def
    transaction_getReceiptDownloadUrl_def
  by (intro keeps_intros; simp)+

end

end
