(* ===== verification/Validation.thy ===== *)
theory Validation
  imports Services
begin

text \<open>
  \<open>src/validators/\<close> and \<open>src/middlewares/validate.js\<close>: the schemas as data in the vocabulary of
  \<open>zod\<close> the code uses, and the middleware that runs them over a request.

  \<open>zod\<close> itself is a parameter, a function from a schema and a value to issues or parsed data; what
  it documents of the data it lets through is \<open>zod_sound\<close>. \<open>JInt\<close> is a number with an integral
  value, \<open>JFloat\<close> any other number, by its text.
\<close>

section \<open>Values and requests\<close>

datatype js_value =
    JUndefined | JNull | JBool bool | JInt int | JFloat string | JStr string
  | JArray "js_value list" | JObject "(string \<times> js_value) list"

definition js_get :: "js_value \<Rightarrow> string \<Rightarrow> js_value" where
  "js_get v k = (case v of
     JObject kvs \<Rightarrow> (case map_of kvs k of Some x \<Rightarrow> x | None \<Rightarrow> JUndefined)
   | _ \<Rightarrow> JUndefined)"

text \<open>
  A request as the middlewares see it. \<open>rq_body\<close> is what \<open>express.json()\<close> made of the body, or the
  error it raised; \<open>rq_user\<close> and \<open>rq_validated\<close> are the properties the middlewares add.
\<close>

record http_request =
  rq_method :: string
  rq_url :: string
  rq_authorization :: "string option"
  rq_params :: js_value
  rq_query :: js_value
  rq_body :: "js_error + js_value"
  rq_user :: "auth_user option"
  rq_validated :: "(string \<times> js_value) list"

section \<open>Schemas\<close>

datatype zcheck =
    ZTrim
  | ZToLowerCase
  | ZRegex "string \<Rightarrow> bool" string
  | ZMinLength nat "string option"
  | ZMaxLength nat
  | ZInt "string option"
  | ZPositive
  | ZNonNegative
  | ZMin int
  | ZMax int
  | ZUrl "string \<Rightarrow> bool"

datatype zschema =
    ZString "zcheck list"
  | ZNumber "zcheck list"
  | ZCoerceNumber "zcheck list"
  | ZUuid string
  | ZEnum "string list"
  | ZEnumTransform "string list" "string \<Rightarrow> js_value"
  | ZObject "(string \<times> zschema) list"
  | ZOptional zschema
  | ZDefault zschema js_value

definition username :: zschema where
  "username = ZString [ZTrim, ZToLowerCase,
     ZRegex username_format ''Username must be 3-50 characters of letters, digits or underscore'']"

definition registerBody :: zschema where
  "registerBody = ZObject
     [(''username'', username),
      (''password'', ZString [ZMinLength 8 (Some ''Password must be at least 8 characters''), ZMaxLength 72]),
      (''fullName'', ZString [ZTrim, ZMinLength 1 None, ZMaxLength 100])]"

definition loginBody :: zschema where
  "loginBody = ZObject [(''username'', username), (''password'', ZString [ZMinLength 1 None, ZMaxLength 72])]"

definition paginationQuery :: zschema where
  "paginationQuery = ZObject
     [(''page'', ZDefault (ZCoerceNumber [ZInt None, ZMin 1]) (JInt 1)),
      (''limit'', ZDefault (ZCoerceNumber [ZInt None, ZMin 1, ZMax 100]) (JInt 20))]"

definition uuidParams :: zschema where
  "uuidParams = ZObject [(''id'', ZUuid ''Invalid transaction id'')]"

definition transferBody :: zschema where
  "transferBody = ZObject
     [(''toUserId'', ZNumber [ZInt None, ZPositive]),
      (''amount'', ZNumber [ZInt (Some ''Amount must be an integer (Toman)''), ZPositive, ZMax MAX_SAFE_INTEGER]),
      (''description'', ZOptional (ZString [ZTrim, ZMaxLength 255]))]"

definition usernameParams :: zschema where
  "usernameParams = ZObject [(''username'', username)]"

section \<open>What zod documents\<close>

text \<open>
  The data a check has let through: transforms have been applied, conditions hold; \<open>int()\<close>
  admits safe integers only.
\<close>

fun check_holds :: "zcheck \<Rightarrow> js_value \<Rightarrow> bool" where
  "check_holds ZTrim (JStr s) = (js_trim s = s)"
| "check_holds ZToLowerCase (JStr s) = (toLowerCase s = s)"
| "check_holds (ZRegex p _) (JStr s) = p s"
| "check_holds (ZMinLength n _) (JStr s) = (n \<le> length s)"
| "check_holds (ZMaxLength n) (JStr s) = (length s \<le> n)"
| "check_holds (ZInt _) (JInt n) = isSafeInteger n"
| "check_holds ZPositive (JInt n) = (0 < n)"
| "check_holds ZNonNegative (JInt n) = (0 \<le> n)"
| "check_holds (ZUrl p) (JStr s) = p s"
| "check_holds (ZMin m) (JInt n) = (m \<le> n)"
| "check_holds (ZMax m) (JInt n) = (n \<le> m)"
| "check_holds (ZInt _) (JFloat t) = False"
| "check_holds ZPositive (JFloat t) = True"
| "check_holds ZNonNegative (JFloat t) = True"
| "check_holds (ZMin m) (JFloat t) = True"
| "check_holds (ZMax m) (JFloat t) = True"
| "check_holds _ _ = False"

definition hex_digit :: "char \<Rightarrow> bool" where
  "hex_digit c \<longleftrightarrow> is_digit c \<or> (let n = (of_char c :: nat) in (65 \<le> n \<and> n \<le> 70) \<or> (97 \<le> n \<and> n \<le> 102))"

definition uuid_format :: "string \<Rightarrow> bool" where
  "uuid_format s \<longleftrightarrow> length s = 36 \<and>
     list_all (\<lambda>(i, c). if i \<in> {8, 13, 18, 23} then c = CHR ''-'' else hex_digit c) (zip [0..<36] s)"

fun conforms :: "zschema \<Rightarrow> js_value \<Rightarrow> bool" where
  "conforms (ZString cs) v = ((case v of JStr _ \<Rightarrow> True | _ \<Rightarrow> False) \<and> list_all (\<lambda>c. check_holds c v) cs)"
| "conforms (ZNumber cs) v =
     ((case v of JInt _ \<Rightarrow> True | JFloat _ \<Rightarrow> True | _ \<Rightarrow> False) \<and> list_all (\<lambda>c. check_holds c v) cs)"
| "conforms (ZCoerceNumber cs) v =
     ((case v of JInt _ \<Rightarrow> True | JFloat _ \<Rightarrow> True | _ \<Rightarrow> False) \<and> list_all (\<lambda>c. check_holds c v) cs)"
| "conforms (ZUuid _) v = (case v of JStr s \<Rightarrow> uuid_format s | _ \<Rightarrow> False)"
| "conforms (ZEnum vs) v = (case v of JStr s \<Rightarrow> s \<in> set vs | _ \<Rightarrow> False)"
| "conforms (ZEnumTransform vs f) v = (v \<in> set (map f vs))"
| "conforms (ZObject fs) v =
     ((case v of JObject _ \<Rightarrow> True | _ \<Rightarrow> False) \<and> (\<forall>(k, sch) \<in> set fs. conforms sch (js_get v k)))"
| "conforms (ZOptional sch) v = (v = JUndefined \<or> conforms sch v)"
| "conforms (ZDefault sch d) v = conforms sch v"

type_synonym zod = "zschema \<Rightarrow> js_value \<Rightarrow> (string list \<times> string) list + js_value"

text \<open>Data that comes out of a schema conforms to it, and a refusal names at least one issue.\<close>

definition zod_sound :: "zod \<Rightarrow> bool" where
  "zod_sound safeParse \<longleftrightarrow> (\<forall>sch v. case safeParse sch v of
     Inr d \<Rightarrow> conforms sch d | Inl issues \<Rightarrow> issues \<noteq> [])"

section \<open>validate.js\<close>

record schemas =
  sch_params :: "zschema option"
  sch_query :: "zschema option"
  sch_body :: "zschema option"

definition no_schemas :: schemas where
  "no_schemas = \<lparr>sch_params = None, sch_query = None, sch_body = None\<rparr>"

definition join_path :: "string list \<Rightarrow> string" where
  "join_path ps = (case ps of [] \<Rightarrow> [] | p # qs \<Rightarrow> p @ concat (map (\<lambda>q. CHR ''.'' # q) qs))"

text \<open>One round of the loop over \<open>SOURCES\<close>: the source, its schema and its value, \<open>req[source] ?? {}\<close>.\<close>

definition validate_source ::
  "zod \<Rightarrow> string \<times> zschema option \<times> js_value \<Rightarrow>
   (string \<times> js_value) list \<times> issue list \<Rightarrow> (string \<times> js_value) list \<times> issue list" where
  "validate_source safeParse src acc =
     (case src of (source, sch, v) \<Rightarrow> case acc of (validated, issues) \<Rightarrow>
      case sch of
        None \<Rightarrow> (validated, issues)
      | Some s \<Rightarrow>
          (case safeParse s (if v = JUndefined \<or> v = JNull then JObject [] else v) of
             Inr d \<Rightarrow> (validated @ [(source, d)], issues)
           | Inl is \<Rightarrow> (validated, issues @
               map (\<lambda>(path, message). \<lparr>issue_location = source, issue_path = join_path path,
                 issue_message = message\<rparr>) is)))"

definition request_body :: "http_request \<Rightarrow> js_value" where
  "request_body rq = (case rq_body rq of Inr v \<Rightarrow> v | Inl _ \<Rightarrow> JUndefined)"

definition validate :: "zod \<Rightarrow> schemas \<Rightarrow> http_request \<Rightarrow> js_error + http_request" where
  "validate safeParse S rq =
     (case foldl (\<lambda>acc src. validate_source safeParse src acc) ([], [])
             [(''params'', sch_params S, rq_params rq), (''query'', sch_query S, rq_query rq),
              (''body'', sch_body S, request_body rq)] of
        (validated, issues) \<Rightarrow>
          if issues \<noteq> []
          then Inl (badRequest ''VALIDATION_ERROR'' ''Request validation failed'' (Some issues))
          else Inr (rq\<lparr>rq_validated := validated\<rparr>))"

text \<open>\<open>req.validated[source]\<close>\<close>

definition validated :: "http_request \<Rightarrow> string \<Rightarrow> js_value" where
  "validated rq source = (case map_of (rq_validated rq) source of Some v \<Rightarrow> v | None \<Rightarrow> JUndefined)"

section \<open>What a validated request holds\<close>

lemma zod_soundD: "zod_sound Z \<Longrightarrow> Z sch v = Inr d \<Longrightarrow> conforms sch d"
  by (auto simp: zod_sound_def split: sum.splits dest: spec [of _ sch] spec [of _ v])

lemma validate_source_cases:
  "validate_source Z (source, sch, v) (vs, is) = (case sch of None \<Rightarrow> (vs, is)
     | Some s \<Rightarrow> (case Z s (if v = JUndefined \<or> v = JNull then JObject [] else v) of
         Inr d \<Rightarrow> (vs @ [(source, d)], is)
       | Inl js \<Rightarrow> (vs, is @ map (\<lambda>(path, message). \<lparr>issue_location = source, issue_path = join_path path,
                 issue_message = message\<rparr>) js)))"
  by (simp add: validate_source_def)

text \<open>After a successful validation with one schema, the validated source conforms to it.\<close>

lemma validate_body:
  assumes "zod_sound Z" "validate Z \<lparr>sch_params = None, sch_query = None, sch_body = Some s\<rparr> rq = Inr rq'"
  shows "conforms s (validated rq' ''body'') \<and> rq_user rq' = rq_user rq"
  using assms zod_soundD [OF assms(1)]
  by (auto simp: validate_def validate_source_cases validated_def zod_sound_def split: sum.splits if_splits)

lemma validate_query:
  assumes "zod_sound Z" "validate Z \<lparr>sch_params = None, sch_query = Some s, sch_body = None\<rparr> rq = Inr rq'"
  shows "conforms s (validated rq' ''query'') \<and> rq_user rq' = rq_user rq"
  using assms zod_soundD [OF assms(1)]
  by (auto simp: validate_def validate_source_cases validated_def zod_sound_def split: sum.splits if_splits)

lemma validate_params:
  assumes "zod_sound Z" "validate Z \<lparr>sch_params = Some s, sch_query = None, sch_body = None\<rparr> rq = Inr rq'"
  shows "conforms s (validated rq' ''params'') \<and> rq_user rq' = rq_user rq"
  using assms zod_soundD [OF assms(1)]
  by (auto simp: validate_def validate_source_cases validated_def zod_sound_def split: sum.splits if_splits)

lemma validate_user: "validate Z S rq = Inr rq' \<Longrightarrow> rq_user rq' = rq_user rq"
  by (auto simp: validate_def Let_def split: prod.splits if_splits)

lemma conforms_transferBody:
  assumes "conforms transferBody b"
  obtains u a where "js_get b ''toUserId'' = JInt u" "0 < u" "isSafeInteger u"
    "js_get b ''amount'' = JInt a" "0 < a" "a \<le> MAX_SAFE_INTEGER"
    "js_get b ''description'' = JUndefined \<or> (\<exists>s. js_get b ''description'' = JStr s \<and> length s \<le> 255 \<and> js_trim s = s)"
proof -
  let ?u = "js_get b ''toUserId''" and ?a = "js_get b ''amount''" and ?s = "js_get b ''description''"
  from assms have c: "conforms (ZNumber [ZInt None, ZPositive]) ?u"
    "conforms (ZNumber [ZInt (Some ''Amount must be an integer (Toman)''), ZPositive, ZMax MAX_SAFE_INTEGER]) ?a"
    "conforms (ZOptional (ZString [ZTrim, ZMaxLength 255])) ?s"
    by (simp_all add: transferBody_def)
  obtain u where "?u = JInt u" "0 < u" "isSafeInteger u" using c(1) by (cases ?u) auto
  moreover obtain a where "?a = JInt a" "0 < a" "a \<le> MAX_SAFE_INTEGER" using c(2) by (cases ?a) auto
  moreover have "?s = JUndefined \<or> (\<exists>s. ?s = JStr s \<and> length s \<le> 255 \<and> js_trim s = s)"
    using c(3) by (cases ?s) auto
  ultimately show ?thesis using that by blast
qed

lemma conforms_paginationQuery:
  assumes "conforms paginationQuery b"
  obtains p l where "js_get b ''page'' = JInt p" "1 \<le> p" "isSafeInteger p"
    "js_get b ''limit'' = JInt l" "1 \<le> l" "l \<le> 100"
proof -
  let ?p = "js_get b ''page''" and ?l = "js_get b ''limit''"
  from assms have c: "conforms (ZCoerceNumber [ZInt None, ZMin 1]) ?p"
    "conforms (ZCoerceNumber [ZInt None, ZMin 1, ZMax 100]) ?l"
    by (simp_all add: paginationQuery_def)
  obtain p where "?p = JInt p" "1 \<le> p" "isSafeInteger p" using c(1) by (cases ?p) auto
  moreover obtain l where "?l = JInt l" "1 \<le> l" "l \<le> 100" using c(2) by (cases ?l) auto
  ultimately show ?thesis using that by blast
qed

end
