(* ===== verification/Http_Api.thy ===== *)
theory Http_Api
  imports Validation
begin

text \<open>
  The HTTP server: \<open>src/middlewares/error-handler.js\<close>, \<open>src/controllers/\<close>, \<open>src/routes/\<close>,
  \<open>src/app.js\<close> and what \<open>src/container.js\<close> wires together.

  Express is a parameter as far as it matches a request with a mount path or a route path
  (\<open>express\<close>); the routers are data in the order the code builds them, and a request runs
  through them as \<open>next()\<close> says: each middleware passes it on or raises, and the first handler
  reached answers. The documentation pages and the headers added by \<open>helmet\<close> and \<open>cors\<close> are left
  out: they touch neither the database nor any other call.
\<close>

section \<open>Responses and the error handler\<close>

datatype payload =
    PError string string "issue list option"
  | PRegistration registration
  | PLogin login_response
  | PProfile public_profile
  | PWallet wallet_obj
  | PLedger "ledger_obj paginated"
  | PTransaction "transaction option"
  | PTransactions "transaction paginated"
  | PRedirect string
  | PHealth string string string

record response =
  rsp_status :: int
  rsp_body :: payload

definition notFoundHandler :: "http_request \<Rightarrow> js_error" where
  "notFoundHandler rq = notFound (Some (''Route '' @ rq_method rq @ '' '' @ rq_url rq @ '' not found''))
     (Some ''ROUTE_NOT_FOUND'')"

definition error_code :: "js_error \<Rightarrow> string" where
  "error_code e = (case err_code e of Some c \<Rightarrow> c | None \<Rightarrow> [])"

definition translate_error :: "js_error \<Rightarrow> js_error" where
  "translate_error err =
     (if err_type err = Some ''entity.parse.failed''
      then AppError 400 ''INVALID_JSON'' ''Request body is not valid JSON'' None
      else if err_type err = Some ''entity.too.large''
      then AppError 413 ''PAYLOAD_TOO_LARGE'' ''Request body is too large'' None
      else mapDatabaseError err)"

definition errorHandler :: "js_error \<Rightarrow> response js" where
  "errorHandler err =
     (let error = translate_error err in
      if instanceof_AppError error
      then ret \<lparr>rsp_status = err_statusCode error,
                rsp_body = PError (error_code error) (err_message error) (err_details error)\<rparr>
      else await (log_msg ''error'' ''Unhandled request error'') (\<lambda>_.
           ret \<lparr>rsp_status = 500, rsp_body = PError ''INTERNAL_SERVER_ERROR'' ''Something went wrong'' None\<rparr>))"

section \<open>The container\<close>

datatype middleware =
    Authenticate
  | Authorize "string list"
  | Validate schemas

datatype handler =
    Register | Login | GetByUsername | GetMyWallet | GetMyLedger | CreateTransfer
  | ListMine | GetById | DownloadReceipt | ListAll | Health

text \<open>A router: middlewares for every path below it, and routes of a method and a path.\<close>

datatype layer =
    Use "middleware list"
  | Route string string "middleware list" handler

text \<open>Express: the parameters of a route path of a router mounted at a prefix, when it matches.\<close>

record express =
  ex_mounted :: "string \<Rightarrow> http_request \<Rightarrow> bool"
  ex_params :: "string \<Rightarrow> string \<Rightarrow> string \<Rightarrow> http_request \<Rightarrow> (string \<times> js_value) list option"

record api =
  api_express :: express
  api_zod :: zod
  api_jwt :: jwt
  api_secret :: string
  api_expiresIn :: string
  api_timing_safe_hash :: string
  api_initialBalance :: int
  api_threshold :: int
  api_storage :: storage_config
  api_redis_ping :: "(ev list \<Rightarrow> js_error + unit) option"

section \<open>Controllers\<close>

definition invalid_bigint :: sql_error where
  "invalid_bigint = sql_err ''22P02'' ''invalid input syntax for type bigint''"

text \<open>
  A value sent as a \<open>BIGINT\<close> parameter of the query \<open>lbl\<close>: PostgreSQL refuses anything but an
  integer, \<open>NaN\<close> included.
\<close>

definition bigint_param :: "env \<Rightarrow> string \<Rightarrow> int option \<Rightarrow> (int \<Rightarrow> 'a js) \<Rightarrow> 'a js" where
  "bigint_param E lbl v k = (case v of
     Some n \<Rightarrow> k n
   | None \<Rightarrow> query E Pool lbl (throw invalid_bigint))"

definition js_int :: "js_value \<Rightarrow> int option" where
  "js_int v = (case v of JInt n \<Rightarrow> Some n | _ \<Rightarrow> None)"

definition js_string :: "js_value \<Rightarrow> string option" where
  "js_string v = (case v of JStr s \<Rightarrow> Some s | _ \<Rightarrow> None)"

definition js_text :: "js_value \<Rightarrow> string" where
  "js_text v = (case v of JStr s \<Rightarrow> s | _ \<Rightarrow> [])"

text \<open>\<open>req.user\<close> read by a controller: a \<open>TypeError\<close> when no middleware has set it.\<close>

definition req_user :: "http_request \<Rightarrow> (auth_user \<Rightarrow> 'a js) \<Rightarrow> 'a js" where
  "req_user rq k = (case rq_user rq of
     Some u \<Rightarrow> k u
   | None \<Rightarrow> throw (other_error ''TypeError'' None ''Cannot read properties of undefined''))"

definition ok_json :: "int \<Rightarrow> ('a \<Rightarrow> payload) \<Rightarrow> 'a js \<Rightarrow> response js" where
  "ok_json status f m = await m (\<lambda>x. ret \<lparr>rsp_status = status, rsp_body = f x\<rparr>)"

definition auth_controller_register :: "env \<Rightarrow> api \<Rightarrow> http_request \<Rightarrow> response js" where
  "auth_controller_register E A rq = (let b = validated rq ''body'' in
     ok_json 201 PRegistration
       (auth_register E (api_initialBalance A) (js_text (js_get b ''username'')) (js_text (js_get b ''password''))
          (js_text (js_get b ''fullName''))))"

definition auth_controller_login :: "env \<Rightarrow> api \<Rightarrow> http_request \<Rightarrow> response js" where
  "auth_controller_login E A rq = (let b = validated rq ''body'' in
     ok_json 200 PLogin
       (auth_login E (api_jwt A) (api_secret A) (api_expiresIn A) (api_timing_safe_hash A)
          (js_text (js_get b ''username'')) (js_text (js_get b ''password''))))"

definition user_controller_getByUsername :: "env \<Rightarrow> http_request \<Rightarrow> response js" where
  "user_controller_getByUsername E rq =
     ok_json 200 PProfile (user_getPublicProfile E (js_text (js_get (validated rq ''params'') ''username'')))"

definition wallet_controller_getMyWallet :: "env \<Rightarrow> http_request \<Rightarrow> response js" where
  "wallet_controller_getMyWallet E rq = req_user rq (\<lambda>u.
     ok_json 200 PWallet
       (bigint_param E ''wallets.findByUserId'' (au_id u) (wallet_getByUserId E)))"

text \<open>\<open>req.validated.query\<close> read as a pagination.\<close>

definition with_pagination :: "env \<Rightarrow> string \<Rightarrow> http_request \<Rightarrow> (int \<Rightarrow> int \<Rightarrow> 'a js) \<Rightarrow> 'a js" where
  "with_pagination E lbl rq k = (let q = validated rq ''query'' in
     bigint_param E lbl (js_int (js_get q ''page'')) (\<lambda>page.
     bigint_param E lbl (js_int (js_get q ''limit'')) (\<lambda>limit. k page limit)))"

definition wallet_controller_getMyLedger :: "env \<Rightarrow> http_request \<Rightarrow> response js" where
  "wallet_controller_getMyLedger E rq = req_user rq (\<lambda>u.
     ok_json 200 PLedger
       (bigint_param E ''wallets.listLedgerByUserId'' (au_id u) (\<lambda>uid.
          with_pagination E ''wallets.listLedgerByUserId'' rq (wallet_getLedger E uid))))"

definition transfer_controller_create :: "env \<Rightarrow> api \<Rightarrow> http_request \<Rightarrow> response js" where
  "transfer_controller_create E A rq = (let b = validated rq ''body'' in
     req_user rq (\<lambda>u.
     ok_json 201 PTransaction
       (bigint_param E ''CALL transfer_funds'' (au_id u) (\<lambda>fromUserId.
        bigint_param E ''CALL transfer_funds'' (js_int (js_get b ''toUserId'')) (\<lambda>toUserId.
        transfer_service E (api_threshold A) fromUserId toUserId (js_int (js_get b ''amount''))
          (js_string (js_get b ''description'')))))))"

definition transaction_controller_listMine :: "env \<Rightarrow> http_request \<Rightarrow> response js" where
  "transaction_controller_listMine E rq = req_user rq (\<lambda>u.
     ok_json 200 PTransactions
       (bigint_param E ''transactions.listByUserId'' (au_id u) (\<lambda>uid.
          with_pagination E ''transactions.listByUserId'' rq (transaction_listForUser E uid))))"

definition transaction_controller_listAll :: "env \<Rightarrow> http_request \<Rightarrow> response js" where
  "transaction_controller_listAll E rq =
     ok_json 200 PTransactions (with_pagination E ''transactions.listAll'' rq (transaction_listAll E))"

text \<open>The \<open>id\<close> of the path as PostgreSQL reads it as a \<open>UUID\<close>, whose text is lower case.\<close>

definition uuid_param :: "http_request \<Rightarrow> uuid" where
  "uuid_param rq = toLowerCase (js_text (js_get (validated rq ''params'') ''id''))"

definition transaction_controller_getById :: "env \<Rightarrow> http_request \<Rightarrow> response js" where
  "transaction_controller_getById E rq = req_user rq (\<lambda>u.
     ok_json 200 (PTransaction \<circ> Some) (transaction_getById E (uuid_param rq) u))"

definition transaction_controller_downloadReceipt :: "env \<Rightarrow> api \<Rightarrow> http_request \<Rightarrow> response js" where
  "transaction_controller_downloadReceipt E A rq = req_user rq (\<lambda>u.
     ok_json 302 PRedirect (transaction_getReceiptDownloadUrl E (api_storage A) (uuid_param rq) u))"

section \<open>Health\<close>

definition health_check :: "unit js \<Rightarrow> string js" where
  "health_check probe = try_catch (await probe (\<lambda>_. ret ''up'')) (\<lambda>_. ret ''down'')"

definition select_1 :: "int sql" where
  "select_1 = get_state (\<lambda>_. 1)"

definition health_get :: "env \<Rightarrow> api \<Rightarrow> response js" where
  "health_get E A =
     await (health_check (await (query E Pool ''SELECT 1'' select_1) (\<lambda>_. ret ()))) (\<lambda>database.
     await (case api_redis_ping A of
              None \<Rightarrow> ret ''disabled''
            | Some ping \<Rightarrow> health_check (call EvPing ping)) (\<lambda>cache.
     let healthy = (database = ''up'' \<and> cache \<noteq> ''down'') in
     ret \<lparr>rsp_status = (if healthy then 200 else 503),
          rsp_body = PHealth (if healthy then ''ok'' else ''degraded'') database cache\<rparr>))"

definition handle :: "env \<Rightarrow> api \<Rightarrow> handler \<Rightarrow> http_request \<Rightarrow> response js" where
  "handle E A h rq = (case h of
     Register \<Rightarrow> auth_controller_register E A rq
   | Login \<Rightarrow> auth_controller_login E A rq
   | GetByUsername \<Rightarrow> user_controller_getByUsername E rq
   | GetMyWallet \<Rightarrow> wallet_controller_getMyWallet E rq
   | GetMyLedger \<Rightarrow> wallet_controller_getMyLedger E rq
   | CreateTransfer \<Rightarrow> transfer_controller_create E A rq
   | ListMine \<Rightarrow> transaction_controller_listMine E rq
   | GetById \<Rightarrow> transaction_controller_getById E rq
   | DownloadReceipt \<Rightarrow> transaction_controller_downloadReceipt E A rq
   | ListAll \<Rightarrow> transaction_controller_listAll E rq
   | Health \<Rightarrow> health_get E A)"

section \<open>Routes\<close>

definition body_schema :: "zschema \<Rightarrow> schemas" where
  "body_schema s = \<lparr>sch_params = None, sch_query = None, sch_body = Some s\<rparr>"

definition query_schema :: "zschema \<Rightarrow> schemas" where
  "query_schema s = \<lparr>sch_params = None, sch_query = Some s, sch_body = None\<rparr>"

definition params_schema :: "zschema \<Rightarrow> schemas" where
  "params_schema s = \<lparr>sch_params = Some s, sch_query = None, sch_body = None\<rparr>"

definition health_router :: "layer list" where
  "health_router = [Route ''GET'' ''/'' [] Health]"

definition auth_router :: "layer list" where
  "auth_router =
     [Route ''POST'' ''/register'' [Validate (body_schema registerBody)] Register,
      Route ''POST'' ''/login'' [Validate (body_schema loginBody)] Login]"

definition user_router :: "layer list" where
  "user_router =
     [Use [Authenticate],
      Route ''GET'' ''/:username'' [Validate (params_schema usernameParams)] GetByUsername]"

definition wallet_router :: "layer list" where
  "wallet_router =
     [Use [Authenticate],
      Route ''GET'' ''/me'' [] GetMyWallet,
      Route ''GET'' ''/me/ledger'' [Validate (query_schema paginationQuery)] GetMyLedger]"

definition transfer_router :: "layer list" where
  "transfer_router =
     [Route ''POST'' ''/'' [Authenticate, Authorize [ROLE_USER, ROLE_ADMIN], Validate (body_schema transferBody)]
        CreateTransfer]"

definition transaction_router :: "layer list" where
  "transaction_router =
     [Use [Authenticate],
      Route ''GET'' ''/'' [Validate (query_schema paginationQuery)] ListMine,
      Route ''GET'' ''/:id'' [Validate (params_schema uuidParams)] GetById,
      Route ''GET'' ''/:id/receipt'' [Validate (params_schema uuidParams)] DownloadReceipt]"

definition admin_router :: "layer list" where
  "admin_router =
     [Use [Authenticate, Authorize [ROLE_ADMIN]],
      Route ''GET'' ''/transactions'' [Validate (query_schema paginationQuery)] ListAll]"

definition createRouter :: "(string \<times> layer list) list" where
  "createRouter =
     [(''/health'', health_router), (''/api/auth'', auth_router), (''/api/users'', user_router),
      (''/api/wallets'', wallet_router), (''/api/transfers'', transfer_router),
      (''/api/transactions'', transaction_router), (''/api/admin'', admin_router)]"

section \<open>Dispatch\<close>

definition run_middleware :: "api \<Rightarrow> int \<Rightarrow> middleware \<Rightarrow> http_request \<Rightarrow> js_error + http_request" where
  "run_middleware A now mw rq = (case mw of
     Authenticate \<Rightarrow>
       (case authenticate (token_verify (api_jwt A) (api_secret A) now) (rq_authorization rq) of
          Inl e \<Rightarrow> Inl e | Inr u \<Rightarrow> Inr (rq\<lparr>rq_user := Some u\<rparr>))
   | Authorize roles \<Rightarrow> (case authorize roles (rq_user rq) of Inl e \<Rightarrow> Inl e | Inr _ \<Rightarrow> Inr rq)
   | Validate S \<Rightarrow> validate (api_zod A) S rq)"

fun run_middlewares :: "api \<Rightarrow> int \<Rightarrow> middleware list \<Rightarrow> http_request \<Rightarrow> js_error + http_request" where
  "run_middlewares A now [] rq = Inr rq"
| "run_middlewares A now (mw # mws) rq =
     (case run_middleware A now mw rq of Inl e \<Rightarrow> Inl e | Inr rq' \<Rightarrow> run_middlewares A now mws rq')"

text \<open>The result: an error, or the handler reached, if any, with the request it gets.\<close>

fun run_router ::
  "api \<Rightarrow> int \<Rightarrow> string \<Rightarrow> layer list \<Rightarrow> http_request \<Rightarrow> js_error + (handler option \<times> http_request)" where
  "run_router A now prefix [] rq = Inr (None, rq)"
| "run_router A now prefix (Use mws # ls) rq =
     (case run_middlewares A now mws rq of Inl e \<Rightarrow> Inl e | Inr rq' \<Rightarrow> run_router A now prefix ls rq')"
| "run_router A now prefix (Route meth pattern mws h # ls) rq =
     (case ex_params (api_express A) prefix pattern meth rq of
        None \<Rightarrow> run_router A now prefix ls rq
      | Some ps \<Rightarrow>
          (case run_middlewares A now mws (rq\<lparr>rq_params := JObject ps\<rparr>) of
             Inl e \<Rightarrow> Inl e | Inr rq' \<Rightarrow> Inr (Some h, rq')))"

fun run_routers ::
  "api \<Rightarrow> int \<Rightarrow> (string \<times> layer list) list \<Rightarrow> http_request \<Rightarrow> js_error + (handler option \<times> http_request)" where
  "run_routers A now [] rq = Inr (None, rq)"
| "run_routers A now ((prefix, ls) # rs) rq =
     (if ex_mounted (api_express A) prefix rq
      then (case run_router A now prefix ls rq of
              Inl e \<Rightarrow> Inl e
            | Inr (Some h, rq') \<Rightarrow> Inr (Some h, rq')
            | Inr (None, rq') \<Rightarrow> run_routers A now rs rq')
      else run_routers A now rs rq)"

text \<open>\<open>express.json()\<close>, the routers, the handler reached, and the two handlers at the end.\<close>

definition dispatch :: "env \<Rightarrow> api \<Rightarrow> http_request \<Rightarrow> response js" where
  "dispatch E A rq =
     (case rq_body rq of
        Inl e \<Rightarrow> throw e
      | Inr _ \<Rightarrow>
          await (get_state (\<lambda>w. clock E (trace w))) (\<lambda>now.
          case run_routers A now createRouter rq of
            Inl e \<Rightarrow> throw e
          | Inr (None, rq') \<Rightarrow> throw (notFoundHandler rq')
          | Inr (Some h, rq') \<Rightarrow> handle E A h rq'))"

definition app :: "env \<Rightarrow> api \<Rightarrow> http_request \<Rightarrow> response js" where
  "app E A rq = try_catch (dispatch E A rq) errorHandler"

section \<open>The guards of a handler\<close>

text \<open>The routes of a router, each with the middlewares a request passes on its way.\<close>

fun route_guards :: "middleware list \<Rightarrow> layer list \<Rightarrow> (handler \<times> middleware list \<times> middleware list) list" where
  "route_guards acc [] = []"
| "route_guards acc (Use mws # ls) = route_guards (acc @ mws) ls"
| "route_guards acc (Route meth pattern mws h # ls) = (h, acc, mws) # route_guards acc ls"

text \<open>The request has kept its header, and its user, if set, is the one of the header's token.\<close>

definition genuine :: "api \<Rightarrow> int \<Rightarrow> http_request \<Rightarrow> http_request \<Rightarrow> bool" where
  "genuine A now rq0 rq \<longleftrightarrow> rq_authorization rq = rq_authorization rq0 \<and>
     (\<forall>u. rq_user rq = Some u \<longrightarrow>
        authenticate (token_verify (api_jwt A) (api_secret A) now) (rq_authorization rq0) = Inr u)"

definition passed :: "middleware list \<Rightarrow> http_request \<Rightarrow> bool" where
  "passed gs rq \<longleftrightarrow> (Authenticate \<in> set gs \<longrightarrow> rq_user rq \<noteq> None) \<and>
     (\<forall>roles. Authorize roles \<in> set gs \<longrightarrow> (\<exists>u. rq_user rq = Some u \<and> au_role u \<in> set roles))"

lemma passed_Nil [simp]: "passed [] rq"
  by (simp add: passed_def)

lemma validate_Inr:
  "validate Z S rq = Inr rq' \<Longrightarrow> rq_user rq' = rq_user rq \<and> rq_authorization rq' = rq_authorization rq"
  by (auto simp: validate_def Let_def split: prod.splits if_splits)

lemma run_middleware_guards:
  assumes "run_middleware A now mw rq = Inr rq'" "genuine A now rq0 rq"
  shows "genuine A now rq0 rq' \<and> passed [mw] rq' \<and> (rq_user rq \<noteq> None \<longrightarrow> rq_user rq' = rq_user rq)"
  using assms validate_Inr
  by (cases mw)
    (auto simp: run_middleware_def genuine_def passed_def authorize_def split: sum.splits option.splits if_splits)

lemma passed_stays:
  "passed gs rq \<Longrightarrow> (rq_user rq \<noteq> None \<longrightarrow> rq_user rq' = rq_user rq) \<Longrightarrow> passed gs rq'"
  unfolding passed_def by (metis option.distinct(1))

lemma passed_append: "passed (xs @ ys) rq \<longleftrightarrow> passed xs rq \<and> passed ys rq"
  by (auto simp: passed_def)

lemma run_middlewares_guards:
  assumes "run_middlewares A now mws rq = Inr rq'" "genuine A now rq0 rq" "passed acc rq"
  shows "genuine A now rq0 rq' \<and> passed (acc @ mws) rq'"
  using assms
proof (induction mws arbitrary: rq acc)
  case Nil
  then show ?case by simp
next
  case (Cons mw mws)
  then obtain rq1 where r: "run_middleware A now mw rq = Inr rq1" "run_middlewares A now mws rq1 = Inr rq'"
    by (auto split: sum.splits)
  note g = run_middleware_guards [OF r(1) Cons.prems(2)]
  with Cons.prems(3) have "passed (acc @ [mw]) rq1" by (simp add: passed_append passed_stays)
  with Cons.IH [OF r(2), of "acc @ [mw]"] g show ?case by simp
qed

lemma run_middlewares_last:
  "run_middlewares A now (mws @ [Validate S]) rq = Inr rq' \<Longrightarrow> \<exists>rq1. validate (api_zod A) S rq1 = Inr rq'"
  by (induction mws arbitrary: rq) (auto simp: run_middleware_def split: sum.splits)

lemma genuine_params: "genuine A now rq0 rq \<Longrightarrow> genuine A now rq0 (rq\<lparr>rq_params := ps\<rparr>)"
  by (simp add: genuine_def)

lemma passed_params: "passed gs rq \<Longrightarrow> passed gs (rq\<lparr>rq_params := ps\<rparr>)"
  by (simp add: passed_def)

text \<open>A handler is only reached through its guards.\<close>

definition reached :: "api \<Rightarrow> int \<Rightarrow> http_request \<Rightarrow> (handler \<times> middleware list \<times> middleware list) list \<Rightarrow>
  handler \<Rightarrow> http_request \<Rightarrow> bool" where
  "reached A now rq0 table h rq' \<longleftrightarrow> (\<exists>acc mws. (h, acc, mws) \<in> set table \<and> genuine A now rq0 rq' \<and>
     passed (acc @ mws) rq' \<and>
     (\<forall>xs S. mws = xs @ [Validate S] \<longrightarrow> (\<exists>rq1. validate (api_zod A) S rq1 = Inr rq')))"

lemma reached_mono: "reached A now rq0 T h rq' \<Longrightarrow> set T \<subseteq> set T' \<Longrightarrow> reached A now rq0 T' h rq'"
  unfolding reached_def by blast

lemma run_router_reached:
  assumes "run_router A now prefix ls rq = Inr (r, rq')" "genuine A now rq0 rq" "passed acc rq"
  shows "genuine A now rq0 rq' \<and> (\<forall>h. r = Some h \<longrightarrow> reached A now rq0 (route_guards acc ls) h rq')"
  using assms
proof (induction ls arbitrary: rq acc)
  case Nil
  then show ?case by simp
next
  case (Cons l ls)
  show ?case
  proof (cases l)
    case (Use mws)
    with Cons.prems(1) obtain rq1 where r: "run_middlewares A now mws rq = Inr rq1"
      "run_router A now prefix ls rq1 = Inr (r, rq')" by (auto split: sum.splits)
    from run_middlewares_guards [OF r(1) Cons.prems(2,3)] Cons.IH [OF r(2), of "acc @ mws"] Use
    show ?thesis by simp
  next
    case (Route meth pattern mws h)
    show ?thesis
    proof (cases "ex_params (api_express A) prefix pattern meth rq")
      case None
      with Cons.prems Route have "run_router A now prefix ls rq = Inr (r, rq')" by simp
      from Cons.IH [OF this Cons.prems(2,3)] Route show ?thesis
        using reached_mono [of A now rq0 "route_guards acc ls" _ rq' "(h, acc, mws) # route_guards acc ls"] by auto
    next
      case (Some ps)
      with Cons.prems(1) Route have r: "run_middlewares A now mws (rq\<lparr>rq_params := JObject ps\<rparr>) = Inr rq'" "r = Some h"
        by (auto split: sum.splits)
      from run_middlewares_guards [OF r(1) genuine_params [OF Cons.prems(2)] passed_params [OF Cons.prems(3)]]
      have g: "genuine A now rq0 rq'" "passed (acc @ mws) rq'" by simp_all
      have "\<exists>rq1. validate (api_zod A) S rq1 = Inr rq'" if "mws = xs @ [Validate S]" for xs S
        using r(1) run_middlewares_last unfolding that by blast
      with g have "reached A now rq0 ((h, acc, mws) # route_guards acc ls) h rq'"
        unfolding reached_def by (intro exI [of _ acc] exI [of _ mws]) simp
      with g(1) r(2) Route show ?thesis by simp
    qed
  qed
qed

definition guard_table :: "(string \<times> layer list) list \<Rightarrow> (handler \<times> middleware list \<times> middleware list) list" where
  "guard_table rs = concat (map (\<lambda>(prefix, ls). route_guards [] ls) rs)"

lemma run_routers_reached:
  assumes "run_routers A now rs rq = Inr (Some h, rq')" "genuine A now rq0 rq"
  shows "reached A now rq0 (guard_table rs) h rq'"
  using assms
proof (induction rs arbitrary: rq)
  case Nil
  then show ?case by simp
next
  case (Cons x rs)
  obtain prefix ls where x: "x = (prefix, ls)" by (cases x)
  have "guard_table (x # rs) = route_guards [] ls @ guard_table rs" by (simp add: guard_table_def x)
  then have sub: "reached A now rq0 (guard_table rs) h rq' \<Longrightarrow> reached A now rq0 (guard_table (x # rs)) h rq'"
    and head: "reached A now rq0 (route_guards [] ls) h rq' \<Longrightarrow> reached A now rq0 (guard_table (x # rs)) h rq'"
    by (auto elim: reached_mono)
  show ?case
  proof (cases "ex_mounted (api_express A) prefix rq")
    case False
    with Cons.prems x have "run_routers A now rs rq = Inr (Some h, rq')" by simp
    from Cons.IH [OF this Cons.prems(2)] sub show ?thesis by blast
  next
    case True
    then obtain r rq1 where r: "run_router A now prefix ls rq = Inr (r, rq1)"
      using Cons.prems(1) x by (cases "run_router A now prefix ls rq") auto
    note g = run_router_reached [OF r Cons.prems(2) passed_Nil]
    show ?thesis
    proof (cases r)
      case None
      with r True Cons.prems(1) x have "run_routers A now rs rq1 = Inr (Some h, rq')" by simp
      from Cons.IH [OF this] g sub show ?thesis by blast
    next
      case (Some h1)
      with r True Cons.prems(1) x g head show ?thesis by auto
    qed
  qed
qed

text \<open>The table of the program's routes.\<close>

lemma guard_table_createRouter:
  "guard_table createRouter =
    [(Health, [], []),
     (Register, [], [Validate (body_schema registerBody)]),
     (Login, [], [Validate (body_schema loginBody)]),
     (GetByUsername, [Authenticate], [Validate (params_schema usernameParams)]),
     (GetMyWallet, [Authenticate], []),
     (GetMyLedger, [Authenticate], [Validate (query_schema paginationQuery)]),
     (CreateTransfer, [], [Authenticate, Authorize [ROLE_USER, ROLE_ADMIN], Validate (body_schema transferBody)]),
     (ListMine, [Authenticate], [Validate (query_schema paginationQuery)]),
     (GetById, [Authenticate], [Validate (params_schema uuidParams)]),
     (DownloadReceipt, [Authenticate], [Validate (params_schema uuidParams)]),
     (ListAll, [Authenticate, Authorize [ROLE_ADMIN]], [Validate (query_schema paginationQuery)])]"
  by (simp add: guard_table_def createRouter_def health_router_def auth_router_def user_router_def wallet_router_def
      transfer_router_def transaction_router_def admin_router_def)

text \<open>The request as it arrives: no middleware has run.\<close>

definition fresh_request :: "http_request \<Rightarrow> bool" where
  "fresh_request rq \<longleftrightarrow> rq_user rq = None \<and> rq_validated rq = []"

lemma genuine_fresh: "fresh_request rq \<Longrightarrow> genuine A now rq rq"
  by (simp add: genuine_def fresh_request_def)

section \<open>What a request keeps\<close>

text \<open>A user a request may act for: whoever its token names, at any time.\<close>

definition acts_for :: "api \<Rightarrow> http_request \<Rightarrow> int \<Rightarrow> bool" where
  "acts_for A rq uid \<longleftrightarrow> (\<exists>now u.
     authenticate (token_verify (api_jwt A) (api_secret A) now) (rq_authorization rq) = Inr u \<and> au_id u = Some uid)"

lemma reached_acts_for:
  "run_routers A now createRouter rq = Inr (Some h, rq') \<Longrightarrow> fresh_request rq \<Longrightarrow> rq_user rq' = Some u \<Longrightarrow>
   au_id u = Some n \<Longrightarrow> acts_for A rq n"
  using run_routers_reached [of A now createRouter rq h rq' rq] genuine_fresh [of rq A now]
  by (auto simp: reached_def genuine_def acts_for_def)

context program_invariant
begin

lemma keeps_throwing_query: "others_keep P E \<Longrightarrow> keeps (idle_inv P) (query E Pool lbl (throw e))"
  by (rule keeps_idle_query) (auto simp: read_only_def intro!: read_only_invariant)

lemma keeps_bigint_param [keeps_intros]:
  "others_keep P E \<Longrightarrow> (\<And>n. v = Some n \<Longrightarrow> keeps (idle_inv P) (k n)) \<Longrightarrow> keeps (idle_inv P) (bigint_param E lbl v k)"
  unfolding bigint_param_def by (intro keeps_intros keeps_throwing_query)

lemma keeps_ok_json [keeps_intros]: "keeps I m \<Longrightarrow> keeps I (ok_json status f m)"
  unfolding ok_json_def by (intro keeps_intros)

lemma keeps_req_user [keeps_intros]: "(\<And>u. rq_user rq = Some u \<Longrightarrow> keeps I (k u)) \<Longrightarrow> keeps I (req_user rq k)"
  unfolding req_user_def by (intro keeps_intros)

lemma keeps_with_pagination [keeps_intros]:
  "others_keep P E \<Longrightarrow> (\<And>p l. keeps (idle_inv P) (k p l)) \<Longrightarrow> keeps (idle_inv P) (with_pagination E lbl rq k)"
  unfolding with_pagination_def Let_def by (intro keeps_intros)

lemma keeps_health [keeps_intros]: "others_keep P E \<Longrightarrow> keeps (idle_inv P) (health_get E A)"
  unfolding health_get_def health_check_def select_1_def Let_def
  by (intro keeps_intros statements) simp_all

lemma keeps_handle [keeps_intros]:
  "others_keep P E \<Longrightarrow> (\<And>u n. rq_user rq = Some u \<Longrightarrow> au_id u = Some n \<Longrightarrow> payer n) \<Longrightarrow>
   keeps (idle_inv P) (handle E A h rq)"
  by (cases h)
    (simp_all only: handle_def handler.case auth_controller_register_def auth_controller_login_def
      user_controller_getByUsername_def wallet_controller_getMyWallet_def wallet_controller_getMyLedger_def
      transfer_controller_create_def transaction_controller_listMine_def transaction_controller_listAll_def
      transaction_controller_getById_def transaction_controller_downloadReceipt_def Let_def,
     (intro keeps_intros; simp)+)

lemma keeps_errorHandler [keeps_intros]: "keeps (idle_inv P) (errorHandler e)"
  unfolding errorHandler_def Let_def by (intro keeps_intros) simp

lemma keeps_app [keeps_intros]:
  assumes "others_keep P E" "fresh_request rq" "\<And>n. acts_for A rq n \<Longrightarrow> payer n"
  shows "keeps (idle_inv P) (app E A rq)"
proof -
  have "keeps (idle_inv P) (handle E A h rq')" if "run_routers A now createRouter rq = Inr (Some h, rq')" for now h rq'
    using keeps_handle [OF assms(1)] assms(3) reached_acts_for [OF that assms(2)] by blast
  then have "keeps (idle_inv P) (dispatch E A rq)"
    unfolding dispatch_def
    by (intro keeps_await keeps_get_state keeps_case_sum keeps_throw keeps_case_prod keeps_case_option) auto
  then show ?thesis unfolding app_def by (intro keeps_intros)
qed

end

end
