(* ===== verification/Receipts.thy ===== *)
theory Receipts
  imports Services
begin

text \<open>
  The receipt pipeline: \<open>src/services/receipt.builder.js\<close>, \<open>src/storage/receipt.storage.js\<close>,
  \<open>src/workers/receipt.processor.js\<close> and \<open>src/workers/pending-receipts.recovery.js\<close>.
\<close>

section \<open>receipt.builder.js\<close>

definition formatAmount :: "int \<Rightarrow> string" where
  "formatAmount amount = format_en_US amount @ '' Toman''"

definition party_text :: "party \<Rightarrow> string" where
  "party_text p = p_fullName p @ '' (@'' @ p_username p @ '', user #'' @ js_String (p_userId p) @ '')''"

definition join_lines :: "string list \<Rightarrow> string" where
  "join_lines ls = concat (map (\<lambda>l. l @ [CHR 0x0A]) ls)"

definition receipt_lines :: "transaction \<Rightarrow> int \<Rightarrow> string list" where
  "receipt_lines t generatedAt =
    [''=================================================='',
     ''              DIGITAL WALLET RECEIPT              '',
     ''=================================================='',
     ''Transaction ID : '' @ tx_id t,
     ''Date           : '' @ toISOString (tx_createdAt t),
     ''Status         : COMPLETED'',
     ''--------------------------------------------------'',
     ''From           : '' @ party_text (tx_from t),
     ''To             : '' @ party_text (tx_to t),
     ''Amount         : '' @ formatAmount (tx_amount t),
     ''Description    : '' @ (case tx_description t of None \<Rightarrow> ''-'' | Some [] \<Rightarrow> ''-'' | Some ds \<Rightarrow> ds),
     ''--------------------------------------------------'',
     ''Generated at   : '' @ toISOString generatedAt,
     ''=================================================='']"

text \<open>\<open>lines.join('\n')\<close> followed by a newline: every line ends in one.\<close>

definition buildReceipt :: "transaction \<Rightarrow> int \<Rightarrow> string" where
  "buildReceipt t generatedAt = join_lines (receipt_lines t generatedAt)"

section \<open>receipt.storage.js\<close>

definition receiptObjectKey :: "uuid \<Rightarrow> string" where
  "receiptObjectKey transactionId = ''receipts/'' @ transactionId @ ''.txt''"

definition ensureBucket :: "env \<Rightarrow> storage_config \<Rightarrow> unit js" where
  "ensureBucket E C =
     await (call (EvBucketExists (sc_bucket C)) (bucket_exists E)) (\<lambda>found.
     if found then ret ()
     else try_catch (call (EvMakeBucket (sc_bucket C) (sc_region C)) (make_bucket E))
            (\<lambda>err. if err_code err \<noteq> Some ''BucketAlreadyOwnedByYou'' \<and> err_code err \<noteq> Some ''BucketAlreadyExists''
                   then throw err else ret ()))"

definition upload :: "env \<Rightarrow> storage_config \<Rightarrow> string \<Rightarrow> string \<Rightarrow> string \<Rightarrow> unit js" where
  "upload E C objectKey content contentType =
     call (EvPut (sc_bucket C) objectKey content contentType) (put_object E)"

section \<open>receipt.processor.js\<close>

record job =
  job_transactionId :: uuid
  job_attemptsMade :: int
  job_opts_attempts :: "int option"

record job_result =
  jr_objectKey :: "string option"
  jr_url :: "string option"
  jr_skipped :: bool

definition RECEIPT_CONTENT_TYPE :: string where
  "RECEIPT_CONTENT_TYPE = ''text/plain; charset=utf-8''"

definition UnrecoverableError :: "string \<Rightarrow> js_error" where
  "UnrecoverableError message = other_error ''UnrecoverableError'' None message"

definition processReceiptJob :: "env \<Rightarrow> storage_config \<Rightarrow> job \<Rightarrow> job_result js" where
  "processReceiptJob E C job =
     await (transactions_findById E (job_transactionId job) Pool) (\<lambda>found.
     case found of
       None \<Rightarrow> throw (UnrecoverableError (''Transaction '' @ job_transactionId job @ '' not found''))
     | Some t \<Rightarrow>
         if tx_receiptStatus t = GENERATED
         then ret \<lparr>jr_objectKey = tx_receiptObjectKey t, jr_url = tx_receiptUrl t, jr_skipped = True\<rparr>
         else let objectKey = receiptObjectKey (tx_id t) in
           await (get_state (\<lambda>w. clock E (trace w))) (\<lambda>now.
           await (upload E C objectKey (buildReceipt t now) RECEIPT_CONTENT_TYPE) (\<lambda>_.
           await (getDownloadUrl E C (Some objectKey)) (\<lambda>url.
           await (transactions_markReceiptGenerated E (tx_id t) objectKey url Pool) (\<lambda>_.
           await (log_msg ''info'' ''Receipt generated'') (\<lambda>_.
           ret \<lparr>jr_objectKey = Some objectKey, jr_url = Some url, jr_skipped = False\<rparr>))))))"

definition isFinalFailure :: "job \<Rightarrow> js_error option \<Rightarrow> bool" where
  "isFinalFailure job err \<longleftrightarrow>
     (case err of Some e \<Rightarrow> err_name e = ''UnrecoverableError'' | None \<Rightarrow> False) \<or>
     (case job_opts_attempts job of Some n \<Rightarrow> n | None \<Rightarrow> 1) \<le> job_attemptsMade job"

definition onReceiptJobFailed :: "env \<Rightarrow> job option \<Rightarrow> js_error option \<Rightarrow> unit js" where
  "onReceiptJobFailed E job err =
     (case job of
        None \<Rightarrow> log_msg ''error'' ''Receipt job failed without job reference''
      | Some j \<Rightarrow>
          if \<not> isFinalFailure j err then log_msg ''warn'' ''Receipt job failed, retrying''
          else
            await (log_msg ''error'' ''Receipt job exhausted all attempts'') (\<lambda>_.
            try_catch
              (await (transactions_markReceiptFailed E (job_transactionId j) Pool) (\<lambda>_. ret ()))
              (\<lambda>dbErr. log_msg ''error'' ''Failed to mark receipt as failed'')))"

section \<open>pending-receipts.recovery.js\<close>

definition recoverPendingReceipts :: "env \<Rightarrow> int \<Rightarrow> int \<Rightarrow> int js" where
  "recoverPendingReceipts E olderThanSeconds batchSize =
     await (transactions_findPendingReceiptIds E olderThanSeconds batchSize Pool) (\<lambda>ids.
     await (for_each ids (enqueue E)) (\<lambda>_.
     await (if 0 < length ids then log_msg ''info'' ''Re-enqueued pending receipt jobs'' else ret ()) (\<lambda>_.
     ret (int (length ids)))))"

definition olderThanSeconds_default :: int where "olderThanSeconds_default = 60"

definition batchSize_default :: int where "batchSize_default = 100"

section \<open>What they keep\<close>

context program_invariant
begin

lemma keeps_processReceiptJob [keeps_intros]:
  "others_keep P E \<Longrightarrow> keeps (idle_inv P) (processReceiptJob E C job)"
  unfolding processReceiptJob_def upload_def by (intro keeps_intros) simp_all

lemma keeps_onReceiptJobFailed [keeps_intros]:
  "others_keep P E \<Longrightarrow> keeps (idle_inv P) (onReceiptJobFailed E job err)"
  unfolding onReceiptJobFailed_def by (intro keeps_intros) simp_all

lemma keeps_recoverPendingReceipts [keeps_intros]:
  "others_keep P E \<Longrightarrow> keeps (idle_inv P) (recoverPendingReceipts E older batch)"
  unfolding recoverPendingReceipts_def by (intro keeps_intros) simp_all

lemma keeps_ensureBucket [keeps_intros]: "keeps (idle_inv P) (ensureBucket E C)"
  unfolding ensureBucket_def by (intro keeps_intros) simp_all

end

end
