(* ===== verification/Seeder.thy ===== *)
theory Seeder
  imports Access
begin

text \<open>
  \<open>src/db/seeder.js\<close>: the accounts the database is set up with. The \<open>seed\<close> section of the
  configuration is the record \<open>seed_config\<close>.
\<close>

record account =
  acc_username :: string
  acc_fullName :: string
  acc_password :: string
  acc_role :: user_role
  acc_balance :: int

record seed_config =
  sd_adminUsername :: string
  sd_adminPassword :: string
  sd_adminFullName :: string
  sd_demoUsers :: bool

definition DEMO_USERS :: "account list" where
  "DEMO_USERS =
     [\<lparr>acc_username = ''ali'', acc_fullName = ''Ali Ahmadi'', acc_password = ''Password@123'',
       acc_role = USER, acc_balance = 20000000\<rparr>,
      \<lparr>acc_username = ''sara'', acc_fullName = ''Sara Rezaei'', acc_password = ''Password@123'',
       acc_role = USER, acc_balance = 5000000\<rparr>]"

definition ensureUser :: "env \<Rightarrow> account \<Rightarrow> bool js" where
  "ensureUser E acc = withTransaction E
     (await (users_findByUsername E (acc_username acc) Client) (\<lambda>found.
      if found \<noteq> None then ret False
      else await (call (EvHash (acc_password acc) 10) (bcrypt_hash E)) (\<lambda>passwordHash.
        await (users_create E (acc_username acc) passwordHash (acc_fullName acc) (acc_role acc) Client) (\<lambda>user.
        await (wallets_create E (user_id user) (acc_balance acc) Client) (\<lambda>_.
        ret True)))))"

definition seed_accounts :: "seed_config \<Rightarrow> account list" where
  "seed_accounts C =
     \<lparr>acc_username = sd_adminUsername C, acc_fullName = sd_adminFullName C, acc_password = sd_adminPassword C,
      acc_role = ADMIN, acc_balance = 0\<rparr> #
     (if sd_demoUsers C then map (\<lambda>user. user\<lparr>acc_role := USER\<rparr>) DEMO_USERS else [])"

definition runSeed :: "env \<Rightarrow> seed_config \<Rightarrow> unit js" where
  "runSeed E C = for_each (seed_accounts C) (\<lambda>account.
     await (ensureUser E account) (\<lambda>created.
     if created then log_msg ''info'' ''Seeded user'' else ret ()))"

context program_invariant
begin

lemma keeps_ensureUser [keeps_intros]: "others_keep P E \<Longrightarrow> keeps (idle_inv P) (ensureUser E acc)"
  unfolding ensureUser_def by (intro keeps_intros) simp_all

lemma keeps_runSeed [keeps_intros]: "others_keep P E \<Longrightarrow> keeps (idle_inv P) (runSeed E C)"
  unfolding runSeed_def by (intro keeps_intros) simp_all

end

end
