(* ===== verification/System.thy ===== *)
theory System
  imports Http_Api Receipts Seeder
begin

text \<open>
  The service as a whole: the activities of its processes (requests of the HTTP server; jobs,
  failed jobs and recovery rounds of the worker; the seeding at set-up), the states they reach in whatever order and
  environment, and the relations between an earlier and a later database that all of them
  respect. The locale \<open>evolution\<close> is the contract of such a relation.
\<close>

section \<open>Activities\<close>

datatype activity =
    HttpRequest http_request
  | ReceiptJob job
  | ReceiptJobFailed "job option" "js_error option"
  | Recovery
  | Seeding seed_config

text \<open>The recovery round of the worker, which logs whatever it raises.\<close>

definition runRecovery :: "env \<Rightarrow> unit js" where
  "runRecovery E = try_catch
     (await (recoverPendingReceipts E olderThanSeconds_default batchSize_default) (\<lambda>_. ret ()))
     (\<lambda>err. log_msg ''error'' ''Pending receipt recovery failed'')"

definition perform :: "env \<Rightarrow> api \<Rightarrow> activity \<Rightarrow> world \<Rightarrow> world" where
  "perform E A act w = (case act of
     HttpRequest rq \<Rightarrow> snd (app E A rq w)
   | ReceiptJob j \<Rightarrow> snd (processReceiptJob E (api_storage A) j w)
   | ReceiptJobFailed j err \<Rightarrow> snd (onReceiptJobFailed E j err w)
   | Recovery \<Rightarrow> snd (runRecovery E w)
   | Seeding C \<Rightarrow> snd (runSeed E C w))"

text \<open>The users an activity may debit: those the token of a request names.\<close>

definition may_debit :: "api \<Rightarrow> activity \<Rightarrow> int \<Rightarrow> bool" where
  "may_debit A act uid = (case act of HttpRequest rq \<Rightarrow> acts_for A rq uid | _ \<Rightarrow> False)"

definition fresh_activity :: "activity \<Rightarrow> bool" where
  "fresh_activity act = (case act of HttpRequest rq \<Rightarrow> fresh_request rq | _ \<Rightarrow> True)"

text \<open>
  The states of the service from \<open>w0\<close> on, by activities in environments that \<open>allowed\<close> admits: in
  each step the environment is a new one (it decides over failures of every call and over what
  other sessions do before every statement).
\<close>

inductive reachable :: "api \<Rightarrow> (env \<Rightarrow> activity \<Rightarrow> bool) \<Rightarrow> world \<Rightarrow> world \<Rightarrow> bool"
  for A :: api and allowed :: "env \<Rightarrow> activity \<Rightarrow> bool" and w0 :: world where
  start: "reachable A allowed w0 w0"
| step: "reachable A allowed w0 w \<Longrightarrow> allowed E act \<Longrightarrow> fresh_activity act \<Longrightarrow>
    reachable A allowed w0 (perform E A act w)"

inductive_cases reachableE: "reachable A allowed w0 w"

context program_invariant
begin

lemma keeps_runRecovery [keeps_intros]: "others_keep P E \<Longrightarrow> keeps (idle_inv P) (runRecovery E)"
  unfolding runRecovery_def by (intro keeps_intros) simp_all

lemma perform_keeps:
  assumes "others_keep P E" "fresh_activity act" "\<And>n. may_debit A act n \<Longrightarrow> payer n" "idle_inv P w"
  shows "idle_inv P (perform E A act w)"
proof (cases act)
  case (HttpRequest rq)
  with assms have "keeps (idle_inv P) (app E A rq)"
    by (intro keeps_app) (simp_all add: may_debit_def fresh_activity_def)
  with HttpRequest assms(4) show ?thesis by (simp add: perform_def keepsD)
qed (use assms in \<open>simp_all add: perform_def keepsD [OF keeps_processReceiptJob] keepsD [OF keeps_onReceiptJobFailed]
      keepsD [OF keeps_runRecovery] keepsD [OF keeps_runSeed]\<close>)

end

lemma reachable_idle:
  assumes "reachable A allowed w0 w" "idle_inv db_ok w0" "\<And>E act. allowed E act \<Longrightarrow> others_keep db_ok E"
  shows "idle_inv db_ok w"
  using assms(1,2) by induction (simp_all add: integrity.perform_keeps assms(3))

section \<open>Relations that every activity respects\<close>

text \<open>Other sessions keep the integrity and respect the relation.\<close>

definition lawful :: "(db \<Rightarrow> db \<Rightarrow> bool) \<Rightarrow> env \<Rightarrow> bool" where
  "lawful R E \<longleftrightarrow> (\<forall>tr d. db_ok d \<longrightarrow> db_ok (others E tr d) \<and> R d (others E tr d))"

text \<open>
  A relation between an earlier and a later database, reflexive and transitive, that looks at the
  tables only and that each writing statement establishes (transfers, when the sender is an
  allowed payer).
\<close>

locale evolution =
  fixes R :: "db \<Rightarrow> db \<Rightarrow> bool" and payer :: "int \<Rightarrow> bool"
  assumes R_refl: "R d d"
    and R_trans: "R a b \<Longrightarrow> R b c \<Longrightarrow> R a c"
    and R_tables: "R a b \<Longrightarrow> tables b' = tables b \<Longrightarrow> R a b'"
    and R_user: "db_ok d \<Longrightarrow> insert_user u h f r d = (Inr x, d') \<Longrightarrow> R d d'"
    and R_wallet: "db_ok d \<Longrightarrow> insert_wallet uid balance d = (Inr y, d') \<Longrightarrow> R d d'"
    and R_transfer: "db_ok d \<Longrightarrow> payer from_user \<Longrightarrow>
      transfer_outcome from_user to_user amount ds th d = (Inr z, d') \<Longrightarrow> R d d'"
    and R_generated: "db_ok d \<Longrightarrow> mark_generated tid objectKey url d = (Inr n, d') \<Longrightarrow> R d d'"
    and R_failed: "db_ok d \<Longrightarrow> mark_failed tid d = (Inr n, d') \<Longrightarrow> R d d'"
begin

abbreviation since :: "db \<Rightarrow> db \<Rightarrow> bool" where
  "since d0 d \<equiv> db_ok d \<and> R d0 d"

lemma since_tables: "since d0 d \<Longrightarrow> tables d' = tables d \<Longrightarrow> seqs_le d d' \<Longrightarrow> current_tx d' = None \<Longrightarrow> since d0 d'"
  by (blast intro: R_tables db_ok_cong)

lemma since_statement:
  assumes "invariant_statement db_ok stmt" "\<And>d x d'. db_ok d \<Longrightarrow> stmt d = (Inr x, d') \<Longrightarrow> R d d'"
  shows "invariant_statement (since d0) stmt"
proof
  show "since d0 d \<Longrightarrow> tables d' = tables d \<Longrightarrow> seqs_le d d' \<Longrightarrow> current_tx d' = None \<Longrightarrow> since d0 d'" for d d'
    by (rule since_tables)
  show "keeps (seqs_le d1) stmt" for d1
    using assms(1) by (rule invariant_statement.seqs)
  show "since d0 d \<Longrightarrow> stmt d = (Inr x, d') \<Longrightarrow> since d0 d'" for d x d'
    using invariant_statement.success [OF assms(1)] assms(2) R_trans by blast
qed

lemma transfer_statement:
  assumes "db_ok d" "payer f" "transfer_funds f t amount ds th d = (Inr x, d')"
  shows "R d d'"
proof -
  have "transfer_outcome f t amount ds th d = (Inr x, commit_db d')"
    using transfer_funds_cases [OF assms(1), of f t amount ds th] assms(3) by (simp add: autocommit_def)
  with assms(1,2) have "R d (commit_db d')" by (rule R_transfer)
  then show ?thesis by (rule R_tables) (simp add: tables_def commit_db_def)
qed

lemma since_invariant: "db_invariant (since d0)"
  by unfold_locales (rule since_tables)

lemma since_statements:
  "invariant_statement (since d0) (insert_user u h f r)"
  "invariant_statement (since d0) (insert_wallet uid balance)"
  "payer f' \<Longrightarrow> invariant_statement (since d0) (transfer_funds f' t amount ds th)"
  "invariant_statement (since d0) (mark_generated tid objectKey url)"
  "invariant_statement (since d0) (mark_failed tid)"
  by (blast intro: since_statement ins_user.invariant_statement_axioms R_user,
      blast intro: since_statement ins_wallet.invariant_statement_axioms R_wallet,
      blast intro: since_statement transfer.invariant_statement_axioms transfer_statement,
      blast intro: since_statement generated_db_ok R_generated,
      blast intro: since_statement failed_db_ok R_failed)

sublocale prog: program_invariant "since d0" payer for d0
  by (intro program_invariant.intro program_invariant_axioms.intro since_invariant since_statements)

lemma lawful_others_keep: "lawful R E \<Longrightarrow> others_keep (since d0) E"
  unfolding lawful_def others_keep_def by (metis R_trans db_ok_def)

lemma activity_respects:
  assumes "lawful R E" "fresh_activity act" "\<And>n. may_debit A act n \<Longrightarrow> payer n" "idle_inv db_ok w"
  shows "R (database w) (database (perform E A act w))"
proof -
  have "idle_inv (since (database w)) w" using assms(4) by (simp add: idle_inv_def R_refl)
  then have "idle_inv (since (database w)) (perform E A act w)"
    using lawful_others_keep [OF assms(1)] assms(2,3) by (intro prog.perform_keeps)
  then show ?thesis by (simp add: idle_inv_def)
qed

end

lemma lawful_db_ok: "lawful R E \<Longrightarrow> others_keep db_ok E"
  by (simp add: lawful_def others_keep_def) (simp add: db_ok_def)

context evolution
begin

lemma reachable_respects:
  assumes "reachable A allowed w0 w" "idle_inv db_ok w0"
    and "\<And>E act. allowed E act \<Longrightarrow> lawful R E" "\<And>E act n. allowed E act \<Longrightarrow> may_debit A act n \<Longrightarrow> payer n"
  shows "R (database w0) (database w)"
  using assms(1)
proof induction
  case start
  show ?case by (rule R_refl)
next
  case (step w E act)
  have "idle_inv db_ok w"
    using step.hyps(1) assms(2) by (rule reachable_idle) (blast intro: lawful_db_ok assms(3))
  then have "R (database w) (database (perform E A act w))"
    using step.hyps assms(3,4) by (intro activity_respects)
  with step.IH show ?case by (rule R_trans)
qed

end

section \<open>Tables only grow\<close>

definition grows :: "('a \<Rightarrow> 'a \<Rightarrow> bool) \<Rightarrow> 'a list \<Rightarrow> 'a list \<Rightarrow> bool" where
  "grows r xs ys \<longleftrightarrow> length xs \<le> length ys \<and> list_all2 r xs (take (length xs) ys)"

lemma grows_refl: "(\<And>x. r x x) \<Longrightarrow> grows r xs xs"
  by (simp add: grows_def list_all2_refl)

lemma grows_append: "(\<And>x. r x x) \<Longrightarrow> grows r xs (xs @ ys)"
  by (simp add: grows_def list_all2_refl)

lemma grows_map: "(\<And>x. x \<in> set xs \<Longrightarrow> r x (f x)) \<Longrightarrow> grows r xs (map f xs)"
  by (simp add: grows_def list_all2_conv_all_nth)

lemma grows_trans:
  assumes "\<And>x y z. r x y \<Longrightarrow> r y z \<Longrightarrow> r x z" "grows r xs ys" "grows r ys zs"
  shows "grows r xs zs"
  using assms(2,3) by (auto simp: grows_def list_all2_conv_all_nth min_def intro: assms(1))

text \<open>
  A receipt may be generated at any time, and may fail while it is pending; a generated receipt
  stays generated. Everything else of a transaction, and every ledger entry and user, is final;
  a wallet keeps its id and its owner.
\<close>

definition receipt_step :: "receipt_status \<Rightarrow> receipt_status \<Rightarrow> bool" where
  "receipt_step s s' \<longleftrightarrow> s' = s \<or> s' = GENERATED \<or> (s = PENDING \<and> s' = FAILED)"

definition tx_step :: "tx_row \<Rightarrow> tx_row \<Rightarrow> bool" where
  "tx_step t t' \<longleftrightarrow> t_id t' = t_id t \<and> t_from_wallet_id t' = t_from_wallet_id t \<and> t_to_wallet_id t' = t_to_wallet_id t \<and>
     t_amount t' = t_amount t \<and> t_description t' = t_description t \<and> t_created_at t' = t_created_at t \<and>
     receipt_step (t_receipt_status t) (t_receipt_status t')"

definition wallet_step :: "wallet_row \<Rightarrow> wallet_row \<Rightarrow> bool" where
  "wallet_step w w' \<longleftrightarrow> w_id w' = w_id w \<and> w_user_id w' = w_user_id w \<and> w_created_at w' = w_created_at w"

definition history :: "db \<Rightarrow> db \<Rightarrow> bool" where
  "history d d' \<longleftrightarrow> grows (=) (users d) (users d') \<and> grows wallet_step (wallets d) (wallets d') \<and>
     grows tx_step (transactions d) (transactions d') \<and>
     grows (=) (transaction_ledger d) (transaction_ledger d')"

lemma step_refl [simp]: "tx_step t t" "wallet_step w w" "receipt_step s s"
  by (simp_all add: tx_step_def wallet_step_def receipt_step_def)

lemma receipt_step_trans: "receipt_step a b \<Longrightarrow> receipt_step b c \<Longrightarrow> receipt_step a c"
  by (auto simp: receipt_step_def)

lemma step_trans:
  "tx_step a b \<Longrightarrow> tx_step b c \<Longrightarrow> tx_step a c"
  "wallet_step x y \<Longrightarrow> wallet_step y z \<Longrightarrow> wallet_step x z"
  by (auto simp: tx_step_def wallet_step_def intro: receipt_step_trans)

lemma grows_update_row:
  "(\<And>r. r \<in> set rows \<Longrightarrow> key r = k \<Longrightarrow> R r (f r)) \<Longrightarrow> (\<And>r. R r r) \<Longrightarrow> grows R rows (update_row key k f rows)"
  unfolding update_row_def by (rule grows_map) simp

lemma history_refl: "history d d"
  by (simp add: history_def grows_refl)

lemma history_trans: "history a b \<Longrightarrow> history b c \<Longrightarrow> history a c"
  unfolding history_def by (blast intro: grows_trans step_trans trans)

lemma history_insert_wallet: "insert_wallet uid balance d = (Inr y, d') \<Longrightarrow> history d d'"
  by (erule insert_wallet_InrD) (simp add: history_def grows_append grows_refl)

lemma paid_step: "wf_wallets d \<Longrightarrow> w \<in> set (wallets d) \<Longrightarrow> v \<in> set (wallets d) \<Longrightarrow> w_id v = w_id w \<Longrightarrow> wallet_step v (paid d a w)"
  by (auto simp: wallet_step_def paid_def wf_wallets_def dest: distinct_map_inj)

lemma history_transfer:
  assumes ok: "db_ok d" and out: "transfer_outcome f t amount ds th d = (Inr z, d')"
  shows "history d d'"
  using ok out
proof (rule transfer_successE)
  fix a fw tw descr st
  assume rows: "fw \<in> set (wallets d)" "tw \<in> set (wallets d)" and d': "d' = transfer_post d fw tw a descr st"
  from ok have wf: "wf_wallets d" by (simp add: db_ok_def)
  let ?g = "\<lambda>w. if w_id w = w_id fw then paid d (- a) fw else w"
  let ?h = "\<lambda>w. if w_id w = w_id tw then paid d a tw else w"
  have "wallets d' = map (?h \<circ> ?g) (wallets d)" by (simp add: d' transfer_post_def update_row_def)
  moreover have "wallet_step w ((?h \<circ> ?g) w)" if "w \<in> set (wallets d)" for w
    using wf rows that paid_step [OF wf rows(1) that, of "- a"] paid_step [OF wf rows(2) that, of a]
    by (auto simp: paid_def wallet_step_def)
  ultimately have "grows wallet_step (wallets d) (wallets d')" by (simp only: grows_map)
  then show ?thesis by (simp add: history_def d' transfer_post_def grows_append grows_refl)
qed

lemma history_update_transactions:
  assumes "update_transactions sel f d = (Inr n, d')" "\<And>t. sel t \<Longrightarrow> tx_step t (f t)"
  shows "history d d'"
proof -
  have "tx_step t (set_updated_at_tx d (f t))" if "sel t" for t
    using assms(2) [OF that] by (simp add: tx_step_def set_updated_at_tx_def)
  then have "grows tx_step (transactions d) (map (\<lambda>t. if sel t then set_updated_at_tx d (f t) else t) (transactions d))"
    by (intro grows_map) simp
  with update_transactions_InrD [OF assms(1)] show ?thesis by (simp add: history_def grows_refl)
qed

interpretation history: evolution history "\<lambda>_. True"
proof
  show "history a c" if "history a b" "history b c" for a b c using that by (rule history_trans)
  show "history a b'" if "history a b" "tables b' = tables b" for a b b'
    using that by (simp add: history_def tables_def)
  show "history d d'" if "insert_user u h f r d = (Inr x, d')" for u h f r d x d'
    using insert_user_InrD [OF that] by (simp add: history_def grows_append grows_refl)
  show "history d d'" if "mark_generated tid objectKey url d = (Inr n, d')" for tid objectKey url d n d'
    using that unfolding mark_generated_def
    by (rule history_update_transactions) (simp add: tx_step_def receipt_step_def)
  show "history d d'" if "mark_failed tid d = (Inr n, d')" for tid d n d'
    using that unfolding mark_failed_def
    by (rule history_update_transactions) (simp add: tx_step_def receipt_step_def)
qed (auto intro: history_refl history_insert_wallet history_transfer)

section \<open>Who can lower a balance\<close>

definition not_lowered :: "int \<Rightarrow> db \<Rightarrow> db \<Rightarrow> bool" where
  "not_lowered uid d d' \<longleftrightarrow> (\<forall>x. bank_of d uid = Some x \<longrightarrow> (\<exists>y. bank_of d' uid = Some y \<and> x \<le> y))"

lemma not_lowered_same: "bank_of d' = bank_of d \<Longrightarrow> not_lowered uid d d'"
  by (simp add: not_lowered_def)

lemma bank_of_wallets: "wallets d' = wallets d \<Longrightarrow> bank_of d' = bank_of d"
  by (simp add: bank_of_def wallet_of_def)

lemma not_lowered_transfer:
  assumes ok: "db_ok d" and ne: "f \<noteq> uid" and out: "transfer_outcome f t amount ds th d = (Inr z, d')"
  shows "not_lowered uid d d'"
proof -
  obtain a where a: "amount = Some a" using ok out by (rule transfer_successE)
  from bank_of_transfer_outcome [OF ok out [unfolded a]] obtain x y where
    "(bank_of d)(f \<mapsto> x - a, t \<mapsto> y + a) = bank_of d'" "bank_of d t = Some y" "0 < a"
    by (auto simp: bank_transfer_def split: option.splits if_splits)
  from this(1) [symmetric] this(2,3) ne show ?thesis by (simp add: not_lowered_def)
qed

lemma find_append_Some: "find P xs = Some x \<Longrightarrow> find P (xs @ ys) = Some x"
  by (induction xs) (auto split: if_splits)

interpretation owner: evolution "not_lowered uid" "\<lambda>f. f \<noteq> uid" for uid
proof
  show "not_lowered uid d d" for d by (simp add: not_lowered_def)
  show "not_lowered uid a c" if "not_lowered uid a b" "not_lowered uid b c" for a b c
    using that unfolding not_lowered_def by (meson order_trans)
  show "not_lowered uid a b'" if "not_lowered uid a b" "tables b' = tables b" for a b b'
    using that(1) bank_of_tables [OF that(2)] by (simp add: not_lowered_def)
  show "not_lowered uid d d'" if "insert_user u h f r d = (Inr x, d')" for u h f r d x d'
    using insert_user_InrD [OF that] by (intro not_lowered_same bank_of_wallets) simp
  show "not_lowered uid d d'" if "insert_wallet i b d = (Inr y, d')" for i b d y d'
    using that by (rule insert_wallet_InrD) (auto simp: not_lowered_def bank_of_def wallet_of_def dest: find_append_Some)
  show "not_lowered uid d d'" if "mark_generated tid objectKey url d = (Inr n, d')" for tid objectKey url d n d'
    using update_transactions_InrD that unfolding mark_generated_def by (fastforce intro: not_lowered_same bank_of_wallets)
  show "not_lowered uid d d'" if "mark_failed tid d = (Inr n, d')" for tid d n d'
    using update_transactions_InrD that unfolding mark_failed_def by (fastforce intro: not_lowered_same bank_of_wallets)
qed (rule not_lowered_transfer)

end
