(* ===== verification/Demo.thy ===== *)
theory Demo
  imports Receipts
begin

text \<open>
  A small concrete system, on which the theorems of the development are instantiated: two
  users with a wallet each, one transfer between them whose receipt is still pending, and an
  environment in which every call succeeds.
\<close>

definition demo_user :: "int \<Rightarrow> string \<Rightarrow> string \<Rightarrow> user_row" where
  "demo_user i username full_name =
     \<lparr>u_id = i, u_username = username, u_password_hash = ''h'' @ username, u_full_name = full_name,
      u_role = USER, u_created_at = 0, u_updated_at = 0\<rparr>"

definition demo_wallet :: "int \<Rightarrow> int \<Rightarrow> wallet_row" where
  "demo_wallet i balance =
     \<lparr>w_id = i, w_user_id = i, w_balance = balance, w_created_at = 0, w_updated_at = 0\<rparr>"

definition demo_entry ::
  "int \<Rightarrow> int \<Rightarrow> uuid option \<Rightarrow> ledger_entry_type \<Rightarrow> int \<Rightarrow> int \<Rightarrow> int \<Rightarrow> ledger_row" where
  "demo_entry i wid tid et a b c =
     \<lparr>l_id = i, l_wallet_id = wid, l_transaction_id = tid, l_entry_type = et, l_amount = a,
      l_balance_before = b, l_balance_after = c, l_created_at = 0\<rparr>"

definition demo_tx :: tx_row where
  "demo_tx = \<lparr>t_id = ''t0'', t_from_wallet_id = 1, t_to_wallet_id = 2, t_amount = 6000000,
     t_description = None, t_receipt_status = PENDING, t_receipt_url = None, t_receipt_object_key = None,
     t_created_at = 0, t_updated_at = 0\<rparr>"

definition demo_db :: db where
  "demo_db =
     \<lparr>users = [demo_user 1 ''ali'' ''Ali Ahmadi'', demo_user 2 ''sara'' ''Sara Rezaei''],
      wallets = [demo_wallet 1 14000000, demo_wallet 2 11000000],
      transactions = [demo_tx],
      transaction_ledger =
        [demo_entry 1 1 None OPENING 20000000 0 20000000, demo_entry 2 2 None OPENING 5000000 0 5000000,
         demo_entry 3 1 (Some ''t0'') DEBIT 6000000 20000000 14000000,
         demo_entry 4 2 (Some ''t0'') CREDIT 6000000 5000000 11000000],
      users_seq = 3, wallets_seq = 3, ledger_seq = 5, now_ts = 1000, next_uuid = ''t1'', current_tx = None\<rparr>"

lemmas demo_defs = demo_db_def demo_user_def demo_wallet_def demo_entry_def demo_tx_def

lemma db_ok_demo: "db_ok demo_db"
  by (simp add: demo_defs db_ok_def wf_defs users_check_def username_format_def username_char_def
      transactions_check_def int8_ok_def ledger_check_def ledger_agrees_def statement_def double_entry_def
      entries_of_def total_balance_def issued_def opening_amount_def less_eq_char_simp)

lemma db_safe_demo: "db_safe demo_db"
  by (simp add: demo_defs db_safe_def isSafeInteger_def MAX_SAFE_INTEGER_def wallet_int8s_def ledger_int8s_def)

definition demo_env :: env where
  "demo_env =
     \<lparr>others = (\<lambda>_ d. d), db_fault = (\<lambda>_. Up), connect_fault = (\<lambda>_. None), gen_uuid = (\<lambda>_. ''t1''),
      clock = (\<lambda>_. 500000), queue_add = (\<lambda>_. Inr ()), io_emit = (\<lambda>_. Inr ()), put_object = (\<lambda>_. Inr ()),
      presigned_get = (\<lambda>_. Inr ''https://files/t0''), bucket_exists = (\<lambda>_. Inr True),
      make_bucket = (\<lambda>_. Inr ()), bcrypt_hash = (\<lambda>_. Inr ''hash''),
      bcrypt_compare = (\<lambda>password hash. hash = ''h'' @ password)\<rparr>"

lemma quiet_demo: "quiet demo_env"
  by (simp add: quiet_def demo_env_def)

definition demo_world :: world where
  "demo_world = \<lparr>database = demo_db, trace = [], open_tx = None\<rparr>"

definition demo_storage :: storage_config where
  "demo_storage = \<lparr>sc_bucket = ''receipts'', sc_region = ''us-east-1'', sc_urlExpirySeconds = 3600\<rparr>"

lemma database_demo_world [simp]: "database demo_world = demo_db"
  by (simp add: demo_world_def)

lemma idle_demo: "idle_inv db_ok demo_world"
  by (simp add: idle_inv_def demo_world_def db_ok_demo)

lemma quiet_others_keep: "quiet E \<Longrightarrow> (\<And>d. P d \<Longrightarrow> current_tx d = None) \<Longrightarrow> others_keep P E"
  by (simp add: quiet_def others_keep_def)

lemma demo_others_keep: "others_keep db_ok demo_env"
  by (rule quiet_others_keep [OF quiet_demo]) (simp add: db_ok_def)

text \<open>What evaluates a computation of the demo.\<close>

lemmas demo_eval = demo_env_def demo_world_def demo_defs query_def pool_query_def client_query_def
  session_start_def call_def log_msg_def Let_def await_def sql_result_def withTransaction_def pool_connect_def
  try_catch_def try_finally_def client_begin_def client_commit_def client_rollback_def client_release_def
  client_commit_state_def client_rollback_state_def autocommit_def commit_db_def rollback_to_def optional_row_def
  parse_int8_def isSafeInteger_def MAX_SAFE_INTEGER_def toUser_def

end
