(* ===== verification/Access_Theorems.thy ===== *)
theory Access_Theorems
  imports Demo
begin

text \<open>
  What \<open>withTransaction\<close> promises, and what rests on it: registration creates a user and a wallet
  together or nothing. What a caller can and cannot learn by logging in, and what a token and
  the \<open>Authorization\<close> header mean.
\<close>

section \<open>Transactions\<close>

text \<open>Inside the transaction that began in \<open>d0\<close>, or after the server has rolled it back.\<close>

definition inside_tx :: "db \<Rightarrow> world \<Rightarrow> bool" where
  "inside_tx d0 w \<longleftrightarrow> (case open_tx w of Some (d, _) \<Rightarrow> d = d0 | None \<Rightarrow> tables (database w) = tables d0)"

definition begin_db :: "env \<Rightarrow> world \<Rightarrow> db" where
  "begin_db E w = session_start E (trace w @ [EvConnect, EvBegin]) (database w)"

lemma inside_tx_trace [simp]: "inside_tx d0 (w\<lparr>trace := tr\<rparr>) = inside_tx d0 w"
  by (simp add: inside_tx_def split: option.split)

lemma keeps_inside_query: "keeps (inside_tx d0) (query E Client lbl stmt)"
  by (rule keepsI)
     (auto simp: query_def client_query_def inside_tx_def Let_def split: option.splits fault.splits prod.splits sum.splits)

lemma keeps_inside_optional: "keeps (inside_tx d0) (optional_row ints f r)"
  unfolding optional_row_def by (intro keeps_intros)

lemma keeps_inside_create:
  "keeps (inside_tx d0) (users_create E u h f r Client)" "keeps (inside_tx d0) (wallets_create E i b Client)"
  unfolding users_create_def wallets_create_def by (intro keeps_intros keeps_inside_query)+

lemma tables_rollback_state:
  "inside_tx d0 w \<Longrightarrow> tables (database (client_rollback_state w)) = tables d0"
  by (auto simp: inside_tx_def client_rollback_state_def split: option.splits)

text \<open>The handler rolls back, whatever happens to the \<open>ROLLBACK\<close>, and raises the first error again.\<close>

lemma tx_handler_inside:
  assumes "inside_tx d0 w"
  shows "\<exists>w'. tx_handler E err w = (Inl err, w') \<and> open_tx w' = None \<and> tables (database w') = tables d0"
  using tables_rollback_state [of d0 "w\<lparr>trace := trace w @ [EvRollback]\<rparr>"] assms
  by (cases "db_fault E (trace w @ [EvRollback])")
    (simp_all add: try_catch_def client_rollback_def log_msg_def call_def await_def Let_def)

text \<open>Where the work of a transaction begins, once there is a client and \<open>BEGIN\<close> is done.\<close>

definition begun :: "env \<Rightarrow> world \<Rightarrow> world" where
  "begun E w = w\<lparr>trace := trace w @ [EvConnect, EvBegin], database := begin_db E w,
     open_tx := Some (begin_db E w, False)\<rparr>"

text \<open>
  What a \<open>COMMIT\<close> leaves in the tables after work that ended in \<open>v\<close>: all its changes, or none when one of
  its statements has failed.
\<close>

definition committed :: "env \<Rightarrow> world \<Rightarrow> world \<Rightarrow> user_row list \<times> wallet_row list \<times> tx_row list \<times> ledger_row list" where
  "committed E w v = (case open_tx v of Some (_, True) \<Rightarrow> tables (begin_db E w) | _ \<Rightarrow> tables (database v))"

lemma tables_commit_state: "inside_tx (begin_db E w) v \<Longrightarrow> tables (database (client_commit_state v)) = committed E w v"
  using tables_rollback_state [of "begin_db E w" v]
  by (auto simp: client_commit_state_def committed_def tables_def commit_db_def split: option.splits bool.splits)

lemma withTransaction_connected:
  "connect_fault E (trace w @ [EvConnect]) = None \<Longrightarrow> withTransaction E work w =
     try_finally (try_catch (tx_body E work) (tx_handler E)) client_release (w\<lparr>trace := trace w @ [EvConnect]\<rparr>)"
  by (simp add: withTransaction_def pool_connect_def call_def Let_def await_def [of "call _ _"])

text \<open>A transaction whose body raises, and one whose body returns.\<close>

lemma withTransaction_raises:
  fixes work :: "'a js"
  assumes "connect_fault E (trace w @ [EvConnect]) = None"
    and "tx_body E work (w\<lparr>trace := trace w @ [EvConnect]\<rparr>) = (Inl e, v)" "inside_tx d0 v"
  shows "\<exists>w'. withTransaction E work w = (Inl e, w') \<and> open_tx w' = None \<and> tables (database w') = tables d0 \<and>
    last (trace w') = EvRelease"
proof -
  obtain u where "(tx_handler E e :: 'a js) v = (Inl e, u)" "open_tx u = None" "tables (database u) = tables d0"
    using tx_handler_inside [OF assms(3)] by blast
  then have "try_catch (tx_body E work) (tx_handler E) (w\<lparr>trace := trace w @ [EvConnect]\<rparr>) = (Inl e, u)"
    using assms(2) by (simp add: try_catch_def [of "tx_body E work"])
  with \<open>open_tx u = None\<close> \<open>tables (database u) = tables d0\<close> show ?thesis
    unfolding withTransaction_connected [OF assms(1)]
    by (simp add: try_finally_def client_release_def call_def Let_def)
qed

lemma withTransaction_returns:
  assumes "connect_fault E (trace w @ [EvConnect]) = None"
    and "tx_body E work (w\<lparr>trace := trace w @ [EvConnect]\<rparr>) = (Inr x, v)"
  shows "withTransaction E work w = (Inr x, v\<lparr>trace := trace v @ [EvRelease]\<rparr>)"
  unfolding withTransaction_connected [OF assms(1)]
  using assms(2) by (simp add: try_catch_def try_finally_def client_release_def call_def Let_def)

text \<open>C16: \<open>withTransaction\<close> is all or nothing, on every branch and whatever the environment does. No
  transaction is left open, and the client is given back. Without a client, or when \<open>BEGIN\<close> fails, that
  error comes out and this session has changed no table. Work that raises leaves the tables as the
  transaction found them, even if the \<open>ROLLBACK\<close> fails, and its own error comes out. Work that returns
  and whose \<open>COMMIT\<close> is done leaves exactly its changes (none, when it went on after a failed
  statement), and its result comes out. When the connection is lost at the \<open>COMMIT\<close> that error comes
  out, and the tables hold none of the changes if the server had not yet committed and all of them if only
  the acknowledgement was lost.\<close>
theorem withTransaction_all_or_nothing:
  assumes work: "keeps (inside_tx (begin_db E w)) work" and idle: "open_tx w = None"
  shows "case withTransaction E work w of (r, w') \<Rightarrow>
     open_tx w' = None \<and>
     (case connect_fault E (trace w @ [EvConnect]) of
        Some e \<Rightarrow> r = Inl e \<and> tables (database w') = tables (database w)
      | None \<Rightarrow> last (trace w') = EvRelease \<and>
          (case db_fault E (trace w @ [EvConnect, EvBegin]) of
             DownBefore e \<Rightarrow> r = Inl e \<and> tables (database w') = tables (begin_db E w)
           | DownAfter e \<Rightarrow> r = Inl e \<and> tables (database w') = tables (begin_db E w)
           | Up \<Rightarrow> (case work (begun E w) of
                (Inl e, v) \<Rightarrow> r = Inl e \<and> tables (database w') = tables (begin_db E w)
              | (Inr x, v) \<Rightarrow> (case db_fault E (trace v @ [EvCommit]) of
                   Up \<Rightarrow> r = Inr x \<and> tables (database w') = committed E w v
                 | DownBefore e \<Rightarrow> r = Inl e \<and> tables (database w') = tables (begin_db E w)
                 | DownAfter e \<Rightarrow> r = Inl e \<and> tables (database w') = committed E w v))))"
proof (cases "connect_fault E (trace w @ [EvConnect])")
  case (Some e)
  with idle show ?thesis by (simp add: withTransaction_def pool_connect_def call_def Let_def await_def)
next
  case None
  let ?w = "w\<lparr>trace := trace w @ [EvConnect]\<rparr>" and ?d = "begin_db E w"
  note raises = withTransaction_raises [OF None] and returns = withTransaction_returns [OF None]
  show ?thesis
  proof (cases "db_fault E (trace w @ [EvConnect, EvBegin])")
    case (DownBefore e)
    then have "client_begin E ?w = (Inl e, ?w\<lparr>trace := trace w @ [EvConnect, EvBegin], database := ?d\<rparr>)"
      by (simp add: client_begin_def begin_db_def Let_def)
    then have "tx_body E work ?w = (Inl e, ?w\<lparr>trace := trace w @ [EvConnect, EvBegin], database := ?d\<rparr>)" by simp
    from raises [OF this, of ?d] idle None DownBefore show ?thesis by (auto simp: inside_tx_def)
  next
    case (DownAfter e)
    then have "client_begin E ?w = (Inl e, ?w\<lparr>trace := trace w @ [EvConnect, EvBegin], database := ?d\<rparr>)"
      by (simp add: client_begin_def begin_db_def Let_def)
    then have "tx_body E work ?w = (Inl e, ?w\<lparr>trace := trace w @ [EvConnect, EvBegin], database := ?d\<rparr>)" by simp
    from raises [OF this, of ?d] idle None DownAfter show ?thesis by (auto simp: inside_tx_def)
  next
    case Up
    then have b: "client_begin E ?w = (Inr (), begun E w)"
      by (simp add: client_begin_def begun_def begin_db_def Let_def)
    obtain y v where run: "work (begun E w) = (y, v)" by (rule prod.exhaust)
    have "inside_tx ?d (begun E w)" by (simp add: inside_tx_def begun_def)
    from keepsE [OF work this run] have v: "inside_tx ?d v" .
    let ?v = "v\<lparr>trace := trace v @ [EvCommit]\<rparr>"
    have v': "inside_tx ?d ?v" "committed E w ?v = committed E w v" using v by (simp_all add: committed_def split: option.split)
    show ?thesis
    proof (cases y)
      case (Inl e)
      then have "tx_body E work ?w = (Inl e, v)" using b run by simp
      from raises [OF this v] show ?thesis using None Up run Inl by auto
    next
      case (Inr x)
      show ?thesis
      proof (cases "db_fault E (trace v @ [EvCommit])")
        case commit: Up
        then have "tx_body E work ?w = (Inr x, client_commit_state ?v)"
          using b run Inr by (simp add: client_commit_def await_def ret_def Let_def)
        from returns [OF this] show ?thesis
          using None Up run Inr commit tables_commit_state [OF v'(1)] v'(2) by simp
      next
        case (DownBefore e)
        then have body: "tx_body E work ?w = (Inl e, client_rollback_state ?v)"
          using b run Inr by (simp add: client_commit_def await_def Let_def)
        have "inside_tx ?d (client_rollback_state ?v)"
          using tables_rollback_state [OF v'(1)] by (simp add: inside_tx_def)
        from raises [OF body this] show ?thesis using None Up run Inr DownBefore by auto
      next
        case (DownAfter e)
        then have body: "tx_body E work ?w = (Inl e, client_commit_state ?v)"
          using b run Inr by (simp add: client_commit_def await_def Let_def)
        have "inside_tx (database (client_commit_state ?v)) (client_commit_state ?v)" by (simp add: inside_tx_def)
        from raises [OF body this] show ?thesis
          using None Up run Inr DownAfter tables_commit_state [OF v'(1)] v'(2) by auto
      qed
    qed
  qed
qed

text \<open>Without faults the transaction is the work between a begin and a commit or rollback.\<close>

lemma withTransaction_calm:
  assumes "calm E"
  shows "withTransaction E work w = (case work (begun E w) of
     (Inr x, u) \<Rightarrow> (Inr x, client_commit_state (u\<lparr>trace := trace u @ [EvCommit]\<rparr>)
        \<lparr>trace := trace u @ [EvCommit, EvRelease]\<rparr>)
   | (Inl e, u) \<Rightarrow> (Inl e, client_rollback_state (u\<lparr>trace := trace u @ [EvRollback]\<rparr>)
        \<lparr>trace := trace u @ [EvRollback, EvRelease]\<rparr>))"
proof -
  have tr: "trace (client_rollback_state v) = trace v" "trace (client_commit_state v) = trace v" for v
    by (auto simp: client_rollback_state_def client_commit_state_def split: option.splits bool.splits)
  from assms have q: "connect_fault E tr = None" "db_fault E tr = Up" for tr by (simp_all add: calm_def)
  have b: "client_begin E (w\<lparr>trace := trace w @ [EvConnect]\<rparr>) = (Inr (), begun E w)"
    by (simp add: client_begin_def q begun_def begin_db_def Let_def)
  show ?thesis
  proof (cases "work (begun E w)")
    case (Pair r u)
    then show ?thesis
      by (cases r) (simp_all add: withTransaction_def pool_connect_def call_def q await_def b try_finally_def
          try_catch_def client_commit_def client_rollback_def client_release_def tr Let_def)
  qed
qed

lemma client_query_calm:
  "calm E \<Longrightarrow> open_tx w = Some (d0, False) \<Longrightarrow> query E Client lbl stmt w =
     (sql_result (fst (stmt (database w))),
      w\<lparr>trace := trace w @ [EvQuery lbl], database := snd (stmt (database w)),
        open_tx := Some (d0, case fst (stmt (database w)) of Inl _ \<Rightarrow> True | Inr _ \<Rightarrow> False)\<rparr>)"
  by (cases "stmt (database w)"; cases "fst (stmt (database w))")
    (simp_all add: query_def client_query_def calm_def Let_def)

section \<open>Registration\<close>

definition register_work :: "env \<Rightarrow> int \<Rightarrow> user_role \<Rightarrow> string \<Rightarrow> string \<Rightarrow> string \<Rightarrow> registration js" where
  "register_work E initialBalance role username passwordHash fullName =
     await (users_create E username passwordHash fullName role Client) (\<lambda>user.
     await (wallets_create E (user_id user) initialBalance Client) (\<lambda>wallet.
     ret \<lparr>reg_user = toPublicUser user, reg_wallet_id = wallet_id wallet,
          reg_wallet_balance = wallet_balance wallet\<rparr>))"

lemma keeps_inside_register: "keeps (inside_tx d0) (register_work E b role u h f)"
  unfolding register_work_def by (intro keeps_intros keeps_inside_create)

text \<open>What the two inserts of a registration do when both succeed.\<close>

definition registered :: "db \<Rightarrow> int \<Rightarrow> user_role \<Rightarrow> string \<Rightarrow> string \<Rightarrow> string \<Rightarrow> registration \<Rightarrow> db \<Rightarrow> bool" where
  "registered d b role username hash full_name r d' \<longleftrightarrow>
     (\<exists>u w. users d' = users d @ [u] \<and> wallets d' = wallets d @ [w] \<and> transactions d' = transactions d \<and>
        varchar 50 username = Inr (u_username u) \<and> varchar 100 full_name = Inr (u_full_name u) \<and>
        u_password_hash u = hash \<and> u_role u = role \<and>
        u_username u \<notin> u_username ` set (users d) \<and> u_id u \<notin> u_id ` set (users d) \<and>
        w_user_id w = u_id u \<and> w_balance w = b \<and>
        map (\<lambda>l. (l_wallet_id l, l_entry_type l, l_amount l)) (transaction_ledger d') =
          map (\<lambda>l. (l_wallet_id l, l_entry_type l, l_amount l)) (transaction_ledger d) @
            (if 0 < b then [(w_id w, OPENING, b)] else []) \<and>
        r = \<lparr>reg_user = toPublicUser (toUser u), reg_wallet_id = w_id w, reg_wallet_balance = b\<rparr>)"

lemma parse_int8s_cases: "parse_int8s ns w = (r, w') \<Longrightarrow> w' = w"
  by (induction ns) (auto simp: parse_int8_def split: if_splits)

lemma create_InrD:
  assumes "calm E" "open_tx w = Some (d0, False)"
    and "await (query E Client lbl stmt) (\<lambda>row. await (parse_int8s (ints row)) (\<lambda>_. ret (f row))) w = (Inr x, w')"
  obtains row d' where "stmt (database w) = (Inr row, d')" "x = f row"
    "w' = w\<lparr>trace := trace w @ [EvQuery lbl], database := d'\<rparr>"
proof -
  obtain row u where q: "query E Client lbl stmt w = (Inr row, u)"
    and rest: "await (parse_int8s (ints row)) (\<lambda>_. ret (f row)) u = (Inr x, w')"
    using assms(3) by (rule await_InrE)
  obtain y where p: "parse_int8s (ints row) u = (Inr y, w')" and x: "x = f row"
    using rest by (auto elim!: await_InrE)
  from parse_int8s_cases [OF p] x have w': "w' = u" "x = f row" by simp_all
  obtain r d' where s: "stmt (database w) = (r, d')" by (cases "stmt (database w)")
  show ?thesis
  proof (cases r)
    case (Inl e)
    with q s show ?thesis by (simp add: client_query_calm [OF assms(1,2)])
  next
    case (Inr row')
    with q s have "row' = row" "u = w\<lparr>trace := trace w @ [EvQuery lbl], database := d'\<rparr>"
      using assms(2) by (auto simp: client_query_calm [OF assms(1,2)])
    with s Inr w' that show ?thesis by simp
  qed
qed

lemma register_work_Inr:
  assumes env: "calm E" and tx: "open_tx w = Some (d0, False)"
    and run: "register_work E b role username hash full_name w = (Inr r, w')"
  shows "registered (database w) b role username hash full_name r (database w') \<and> open_tx w' = Some (d0, False)"
proof -
  obtain u w1 where u: "users_create E username hash full_name role Client w = (Inr u, w1)"
    and rest: "await (wallets_create E (user_id u) b Client) (\<lambda>wallet. ret \<lparr>reg_user = toPublicUser u,
      reg_wallet_id = wallet_id wallet, reg_wallet_balance = wallet_balance wallet\<rparr>) w1 = (Inr r, w')"
    using run unfolding register_work_def by (rule await_InrE)
  obtain wal w2 where wal: "wallets_create E (user_id u) b Client w1 = (Inr wal, w2)"
    and r: "r = \<lparr>reg_user = toPublicUser u, reg_wallet_id = wallet_id wal, reg_wallet_balance = wallet_balance wal\<rparr>"
      "w' = w2"
    using rest by (auto elim!: await_InrE)
  obtain urow d1 where ins: "insert_user username hash full_name role (database w) = (Inr urow, d1)" "u = toUser urow"
    "w1 = w\<lparr>trace := trace w @ [EvQuery ''users.create''], database := d1\<rparr>"
    using u unfolding users_create_def by (rule create_InrD [OF env tx])
  have tx1: "open_tx w1 = Some (d0, False)" using tx ins(3) by simp
  obtain wrow d2 where ins2: "insert_wallet (user_id u) b (database w1) = (Inr wrow, d2)" "wal = toWallet wrow"
    "w2 = w1\<lparr>trace := trace w1 @ [EvQuery ''wallets.create''], database := d2\<rparr>"
    using wal unfolding wallets_create_def by (rule create_InrD [OF env tx1])
  from insert_user_InrD [OF ins(1)] have d1: "d1 = (database w)\<lparr>users_seq := users_seq (database w) + 1,
      users := users (database w) @ [urow]\<rparr>" and urow: "u_role urow = role" "u_password_hash urow = hash"
    "varchar 50 username = Inr (u_username urow)" "varchar 100 full_name = Inr (u_full_name urow)"
    "u_id urow \<notin> u_id ` set (users (database w))" "u_username urow \<notin> u_username ` set (users (database w))"
    by blast+
  have uid: "user_id u = u_id urow" using ins(2) by (simp add: toUser_def)
  show ?thesis using ins2(1)
  proof (rule insert_wallet_InrD)
    fix ls
    assume "d2 = (database w1)\<lparr>wallets_seq := wallets_seq (database w1) + 1, wallets := wallets (database w1) @ [wrow],
       ledger_seq := ledger_seq (database w1) + int (length ls), transaction_ledger := transaction_ledger (database w1) @ ls\<rparr>"
      and "wrow = \<lparr>w_id = wallets_seq (database w1), w_user_id = user_id u, w_balance = b,
       w_created_at = now_ts (database w1), w_updated_at = now_ts (database w1)\<rparr>"
      and "ls = (if 0 < b
       then [\<lparr>l_id = ledger_seq (database w1), l_wallet_id = wallets_seq (database w1), l_transaction_id = None,
              l_entry_type = OPENING, l_amount = b, l_balance_before = 0, l_balance_after = b,
              l_created_at = now_ts (database w1)\<rparr>] else [])"
    then show ?thesis
      using d1 urow uid r ins ins2 tx by (simp add: registered_def toWallet_def)
  qed
qed

lemma registered_tables:
  "registered d b role u h f r d' \<Longrightarrow> tables c = tables d \<Longrightarrow> tables c' = tables d' \<Longrightarrow> registered c b role u h f r c'"
  by (simp add: registered_def tables_def)

lemma auth_register_split:
  "auth_register E b u p f =
     await (users_findByUsername E u Pool) (\<lambda>found.
     await (guard_not (found \<noteq> None) (conflict ''USERNAME_TAKEN'' ''Username is already taken'')) (\<lambda>_.
     await (call (EvHash p BCRYPT_ROUNDS) (bcrypt_hash E)) (\<lambda>hash.
     withTransaction E (register_work E b USER u hash f))))"
  by (simp add: auth_register_def register_work_def [abs_def])

text \<open>A read on the pool, when nothing else happens.\<close>

lemma findByUsername_quiet:
  assumes "quiet E" and "users_findByUsername E u Pool w = (r, w')"
  shows "tables (database w') = tables (database w)" "open_tx w' = open_tx w"
    "trace w' = trace w @ [EvQuery ''users.findByUsername'']"
proof -
  have "w' = w\<lparr>trace := trace w @ [EvQuery ''users.findByUsername''],
      database := commit_db (at_query E ''users.findByUsername'' w)\<rparr>"
    using assms(2)
    by (auto simp: users_findByUsername_def await_def query_quiet [OF assms(1)] optional_row_def
        dest: parse_int8s_cases split: option.splits prod.splits sum.splits)
  then show "tables (database w') = tables (database w)" "open_tx w' = open_tx w"
    "trace w' = trace w @ [EvQuery ''users.findByUsername'']"
    by simp_all
qed

lemma register_tx_quiet:
  assumes env: "quiet E" and run: "withTransaction E (register_work E b role u h f) w = (r, w')"
  shows "case r of Inl e \<Rightarrow> tables (database w') = tables (database w)
     | Inr x \<Rightarrow> registered (database w) b role u h f x (database w') \<and> open_tx w' = None"
proof -
  note calm = quiet_calm [OF env]
  have d0: "tables (begin_db E w) = tables (database w)"
    using env by (simp add: quiet_def begin_db_def session_start_def tables_def)
  have open0: "open_tx (begun E w) = Some (begin_db E w, False)" by (simp add: begun_def)
  obtain r' v where work: "register_work E b role u h f (begun E w) = (r', v)" by (cases "register_work E b role u h f (begun E w)")
  show ?thesis
  proof (cases r')
    case (Inl e)
    have "inside_tx (begin_db E w) (begun E w)" by (simp add: inside_tx_def begun_def)
    from keepsE [OF keeps_inside_register this work] have "inside_tx (begin_db E w) v" .
    then have "tables (database (client_rollback_state (v\<lparr>trace := trace v @ [EvRollback]\<rparr>))) = tables (begin_db E w)"
      by (intro tables_rollback_state) simp
    with run work Inl d0 show ?thesis by (auto simp: withTransaction_calm [OF calm])
  next
    case (Inr x)
    from register_work_Inr [OF calm open0 work [unfolded Inr]]
    have reg: "registered (begin_db E w) b role u h f x (database v)" and o: "open_tx v = Some (begin_db E w, False)"
      by (simp_all add: begun_def)
    have "w' = (client_commit_state (v\<lparr>trace := trace v @ [EvCommit]\<rparr>)) \<lparr>trace := trace v @ [EvCommit, EvRelease]\<rparr>"
      "r = Inr x" using run work Inr by (simp_all add: withTransaction_calm [OF calm])
    with o reg registered_tables d0 show ?thesis
      by (auto simp: client_commit_state_def)
  qed
qed

text \<open>Registration is atomic: with no one else acting, it either creates exactly one user with
  role \<open>USER\<close> under a username no user had, exactly one wallet of that user with the initial
  balance and, when that is positive, the opening entry that backs it, and answers with their
  ids; or it fails, and no table has changed: there is never a user without a wallet.\<close>
lemma registration_is_atomic:
  assumes "quiet E" and "open_tx w = None"
  shows "case auth_register E b username password fullName w of
      (Inl e, w') \<Rightarrow> tables (database w') = tables (database w)
    | (Inr r, w') \<Rightarrow> open_tx w' = None \<and>
        (\<exists>hash. registered (database w) b USER username hash fullName r (database w'))"
proof -
  obtain r1 w1 where find: "users_findByUsername E username Pool w = (r1, w1)"
    by (cases "users_findByUsername E username Pool w")
  note frame = findByUsername_quiet(1,2) [OF assms(1) find]
  consider e where "r1 = Inl e" | x where "r1 = Inr (Some x)" | "r1 = Inr None"
    by (cases r1; cases "case r1 of Inr x \<Rightarrow> x | _ \<Rightarrow> None") auto
  then show ?thesis
  proof cases
    case 3
    obtain r2 w2 where hash: "call (EvHash password BCRYPT_ROUNDS) (bcrypt_hash E) w1 = (r2, w2)"
      by (cases "call (EvHash password BCRYPT_ROUNDS) (bcrypt_hash E) w1")
    then have w2: "tables (database w2) = tables (database w)"
      using frame by (auto simp: call_def Let_def)
    show ?thesis
    proof (cases r2)
      case (Inl e)
      with 3 find hash w2 show ?thesis by (simp add: auth_register_split)
    next
      case (Inr h)
      obtain r3 w3 where tx: "withTransaction E (register_work E b USER username h fullName) w2 = (r3, w3)"
        by (cases "withTransaction E (register_work E b USER username h fullName) w2")
      from register_tx_quiet [OF assms(1) tx] have "case r3 of Inl e \<Rightarrow> tables (database w3) = tables (database w)
        | Inr x \<Rightarrow> registered (database w) b USER username h fullName x (database w3) \<and> open_tx w3 = None"
        using w2 registered_tables by (auto split: sum.splits)
      then show ?thesis using 3 find hash Inr tx
        by (cases r3) (auto simp: auth_register_split)
    qed
  qed (use find frame in \<open>auto simp: auth_register_split\<close>)
qed

lemmas register_eval = demo_eval auth_register_def users_findByUsername_def users_create_def wallets_create_def
  insert_user_def insert_wallet_def fn_wallet_balance_ledger_insert_def insert_ledger_def lift_check_def varchar_def
  users_check_def username_format_def username_char_def wallets_check_def ledger_check_def int8_ok_def
  wallet_int8s_def less_eq_char_simp

lemma registration_demo:
  "\<exists>r w'. auth_register demo_env 5000000 ''reza'' ''secret123'' ''Reza Karimi'' demo_world = (Inr r, w')"
  by (simp add: register_eval)

lemma registration_is_atomic_witness:
  "\<exists>r w'. auth_register demo_env 5000000 ''reza'' ''secret123'' ''Reza Karimi'' demo_world = (Inr r, w') \<and>
     length (users (database w')) = 3 \<and> length (wallets (database w')) = 3"
proof -
  obtain r w' where run: "auth_register demo_env 5000000 ''reza'' ''secret123'' ''Reza Karimi'' demo_world = (Inr r, w')"
    using registration_demo by blast
  have "open_tx demo_world = None" by (simp add: demo_world_def)
  from registration_is_atomic [OF quiet_demo this, where b = 5000000 and username = "''reza''"
      and password = "''secret123''" and fullName = "''Reza Karimi''"] run
  have "length (users (database w')) = 3" "length (wallets (database w')) = 3"
    by (auto simp: registered_def demo_defs)
  with run show ?thesis by blast
qed

text \<open>C23: the race between two registrations of one username: when another session commits the
  username after the check and before this transaction begins, the unique constraint stops the
  second user, the error is one the API answers as 409 \<open>DUPLICATE_RESOURCE\<close>, no transaction is left open,
  and the tables are exactly as the other session left them.\<close>
theorem registration_race_is_a_conflict:
  assumes "calm E" and "users_findByUsername E username Pool w = (Inr None, w1)" and "open_tx w1 = None"
    and "bcrypt_hash E (trace w1 @ [EvHash password BCRYPT_ROUNDS]) = Inr hash"
    and "varchar 50 username = Inr username" and "varchar 100 fullName = Inr fullName"
    and "username_format username" and "\<exists>c \<in> set fullName. c \<noteq> CHR '' ''"
    and "d' = others E (trace w1 @ [EvHash password BCRYPT_ROUNDS, EvConnect, EvBegin]) (database w1)"
    and "username \<in> u_username ` set (users d')"
  shows "\<exists>e w'. auth_register E b username password fullName w = (Inl e, w') \<and>
     mapDatabaseError e = conflict ''DUPLICATE_RESOURCE'' ''Resource already exists'' \<and>
     open_tx w' = None \<and> tables (database w') = tables d'"
proof -
  let ?w2 = "w1\<lparr>trace := trace w1 @ [EvHash password BCRYPT_ROUNDS]\<rparr>"
  have hash: "call (EvHash password BCRYPT_ROUNDS) (bcrypt_hash E) w1 = (Inr hash, ?w2)"
    using assms(4) by (simp add: call_def Let_def)
  let ?d = "begin_db E ?w2"
  have d: "tables ?d = tables d'" by (simp add: begin_db_def session_start_def tables_def assms(9))
  have taken: "username \<in> u_username ` set (users ?d)"
    using assms(9,10) by (simp add: begin_db_def session_start_def)
  have ins: "insert_user username hash fullName USER ?d = (Inl unique_violation, ?d\<lparr>users_seq := users_seq ?d + 1\<rparr>)"
    using taken assms(5-8) by (simp add: insert_user_def lift_check_def users_check_def guard_not_def Let_def)
  have o: "open_tx (begun E ?w2) = Some (?d, False)" "database (begun E ?w2) = ?d" by (simp_all add: begun_def)
  obtain v where work: "register_work E b USER username hash fullName (begun E ?w2) = (Inl (pg_error unique_violation), v)"
    using ins by (simp add: register_work_def users_create_def client_query_calm [OF assms(1) o(1)] o(2) await_def)
  have "inside_tx ?d (begun E ?w2)" by (simp add: inside_tx_def begun_def)
  from keepsE [OF keeps_inside_register this work] have "inside_tx ?d v" .
  then have rb: "tables (database (client_rollback_state (v\<lparr>trace := trace v @ [EvRollback]\<rparr>))) = tables ?d"
    by (intro tables_rollback_state) simp
  have "auth_register E b username password fullName w =
      (Inl (pg_error unique_violation), client_rollback_state (v\<lparr>trace := trace v @ [EvRollback]\<rparr>)
        \<lparr>trace := trace v @ [EvRollback, EvRelease]\<rparr>)"
    using assms(2) hash work by (simp add: auth_register_split withTransaction_calm [OF assms(1)])
  moreover have "mapDatabaseError (pg_error unique_violation) = conflict ''DUPLICATE_RESOURCE'' ''Resource already exists''"
    by (simp add: mapDatabaseError_def pg_error_def unique_violation_def other_error_def DATABASE_ERRORS_def)
  moreover have "open_tx (client_rollback_state u) = None" for u by (simp add: client_rollback_state_def split: option.split)
  ultimately show ?thesis using rb d by (auto intro!: exI)
qed

definition racing_env :: env where
  "racing_env = demo_env\<lparr>others := (\<lambda>tr d. if tr \<noteq> [] \<and> last tr = EvBegin
     then d\<lparr>users := users d @ [demo_user 3 ''reza'' ''Reza Karimi''], users_seq := 4\<rparr> else d)\<rparr>"

theorem registration_race_is_a_conflict_witness:
  "\<exists>e w'. auth_register racing_env 5000000 ''reza'' ''secret123'' ''Reza K'' demo_world = (Inl e, w') \<and>
     err_statusCode (mapDatabaseError e) = 409 \<and> open_tx w' = None"
proof -
  have c: "calm racing_env" by (simp add: calm_def racing_env_def demo_env_def)
  obtain w1 where f: "users_findByUsername racing_env ''reza'' Pool demo_world = (Inr None, w1)" "open_tx w1 = None"
    by (simp add: users_findByUsername_def racing_env_def demo_eval)
  have "bcrypt_hash racing_env (trace w1 @ [EvHash ''secret123'' BCRYPT_ROUNDS]) = Inr ''hash''"
    "varchar 50 ''reza'' = Inr ''reza''" "varchar 100 ''Reza K'' = Inr ''Reza K''" "username_format ''reza''"
    "\<exists>c \<in> set ''Reza K''. c \<noteq> CHR '' ''"
    "''reza'' \<in> u_username ` set (users (others racing_env (trace w1 @
       [EvHash ''secret123'' BCRYPT_ROUNDS, EvConnect, EvBegin]) (database w1)))"
    by (simp_all add: racing_env_def demo_env_def varchar_def username_format_def username_char_def
        less_eq_char_simp demo_user_def)
  from registration_race_is_a_conflict [OF c f this(1-5) refl this(6), of 5000000] show ?thesis
    by (auto simp: conflict_def AppError_def)
qed

section \<open>Logging in\<close>

definition invalid_credentials :: js_error where
  "invalid_credentials = unauthorized (Some ''Invalid username or password'') (Some ''INVALID_CREDENTIALS'')"

text \<open>C21: logging in does not reveal which usernames exist: for an unknown username and for a wrong
  password the response is the same error, and in both cases, as in the successful one, exactly
  one bcrypt comparison is made after the lookup; a token is given only when bcrypt accepts the
  password against the stored hash of that very user.\<close>
theorem login_outcome:
  assumes "users_findByUsername E username Pool w = (Inr found, w1)"
  shows "auth_login E J secret expiresIn timing_safe_hash username password w =
    (case found of
       None \<Rightarrow> (Inl invalid_credentials, w1\<lparr>trace := trace w1 @ [EvCompare timing_safe_hash]\<rparr>)
     | Some u \<Rightarrow>
         (let w2 = w1\<lparr>trace := trace w1 @ [EvCompare (user_passwordHash u)]\<rparr> in
          if bcrypt_compare E password (user_passwordHash u)
          then (Inr \<lparr>lr_accessToken = token_sign J secret expiresIn (clock E (trace w2)) u,
                  lr_tokenType = ''Bearer'', lr_expiresIn = expiresIn, lr_user = toPublicUser u\<rparr>, w2)
          else (Inl invalid_credentials, w2)))"
  using assms
  by (cases found) (simp_all add: auth_login_def call_def await_def invalid_credentials_def Let_def)

section \<open>Tokens\<close>

text \<open>A token of \<open>jsonwebtoken\<close> is a non-empty text without white space.\<close>

definition jwt_text :: "jwt \<Rightarrow> bool" where
  "jwt_text J \<longleftrightarrow> (\<forall>role username secret sub expiresIn now.
     jwt_sign J role username secret sub expiresIn now \<noteq> [] \<and>
     list_all (Not \<circ> js_space) (jwt_sign J role username secret sub expiresIn now))"

lemma token_round_trip:
  assumes "jwt_documented J lifetime"
  shows "token_verify J secret now' (token_sign J secret expiresIn now user) =
    (let exp = now div 1000 + lifetime expiresIn in
     if now' div 1000 < exp
     then Inr \<lparr>au_id = Some (user_id user), au_role = user_role user, au_username = user_username user,
            au_expiresAt = exp * 1000\<rparr>
     else Inl (unauthorized (Some ''Access token has expired'') (Some ''TOKEN_EXPIRED'')))"
  using assms by (simp add: jwt_documented_def token_verify_def token_sign_def Let_def)

lemma signed_token_authenticates:
  assumes "jwt_documented J lifetime" "jwt_text J"
  shows "authenticate (token_verify J secret now') (Some (''Bearer '' @ token_sign J secret expiresIn now user)) =
    (let exp = now div 1000 + lifetime expiresIn in
     if now' div 1000 < exp
     then Inr \<lparr>au_id = Some (user_id user), au_role = user_role user, au_username = user_username user,
            au_expiresAt = exp * 1000\<rparr>
     else Inl (unauthorized (Some ''Access token has expired'') (Some ''TOKEN_EXPIRED'')))"
proof -
  have "toLowerCase ''Bearer'' = ''bearer''" by code_simp
  then have "extractBearerToken (Some (''Bearer'' @ '' '' @ token_sign J secret expiresIn now user)) =
      Some (token_sign J secret expiresIn now user)"
    using assms(2) by (intro extractBearerToken_wellformed) (simp_all add: token_sign_def jwt_text_def)
  then have "authenticate (token_verify J secret now') (Some (''Bearer '' @ token_sign J secret expiresIn now user)) =
      token_verify J secret now' (token_sign J secret expiresIn now user)"
    by (simp add: authenticate_def)
  then show ?thesis unfolding token_round_trip [OF assms(1)] .
qed

text \<open>The token a login returns authenticates as the user who logged in.\<close>

lemma login_then_authenticate:
  assumes "jwt_documented J lifetime" and "jwt_text J"
    and "users_findByUsername E username Pool w = (Inr (Some u), w1)"
    and "auth_login E J secret expiresIn timing_safe_hash username password w = (Inr r, w')"
  shows "authenticate (token_verify J secret now') (Some (''Bearer '' @ lr_accessToken r)) =
    (let exp = clock E (trace w') div 1000 + lifetime expiresIn in
     if now' div 1000 < exp
     then Inr \<lparr>au_id = Some (user_id u), au_role = user_role u, au_username = user_username u,
            au_expiresAt = exp * 1000\<rparr>
     else Inl (unauthorized (Some ''Access token has expired'') (Some ''TOKEN_EXPIRED'')))"
proof -
  have tok: "lr_accessToken r = token_sign J secret expiresIn (clock E (trace w')) u"
    using assms(3,4) by (auto simp: auth_login_def call_def await_def Let_def split: if_splits)
  show ?thesis unfolding tok by (rule signed_token_authenticates [OF assms(1,2)])
qed

text \<open>A concrete signer: the five fields one after the other, each character in unary.\<close>

definition enc_text :: "string \<Rightarrow> string" where
  "enc_text s = concat (map (\<lambda>c. replicate (of_char c) (CHR ''1'') @ ''0'') s) @ ''2''"

fun dec_text :: "nat \<Rightarrow> string \<Rightarrow> string \<times> string" where
  "dec_text n [] = ([], [])"
| "dec_text n (x # xs) =
     (if x = CHR ''1'' then dec_text (Suc n) xs
      else if x = CHR ''0'' then (case dec_text 0 xs of (s, r) \<Rightarrow> (char_of n # s, r))
      else ([], xs))"

lemma dec_unary: "dec_text n (replicate k (CHR ''1'') @ ys) = dec_text (n + k) ys"
  by (induction k arbitrary: n) simp_all

lemma dec_enc: "dec_text 0 (enc_text s @ r) = (s, r)"
  by (induction s) (simp_all add: enc_text_def dec_unary)

definition demo_jwt :: jwt where
  "demo_jwt = \<lparr>jwt_sign = (\<lambda>role username secret sub expiresIn now.
        enc_text role @ enc_text username @ enc_text secret @ enc_text sub @ enc_text (js_String (now div 1000 + 3600))),
     jwt_verify = (\<lambda>token secret now.
        case dec_text 0 token of (role, t1) \<Rightarrow>
        case dec_text 0 t1 of (username, t2) \<Rightarrow>
        case dec_text 0 t2 of (key, t3) \<Rightarrow>
        case dec_text 0 t3 of (sub, t4) \<Rightarrow>
        case js_Number (fst (dec_text 0 t4)) of
          None \<Rightarrow> JwtInvalid
        | Some exp \<Rightarrow>
            if key \<noteq> secret then JwtInvalid
            else if now div 1000 < exp
            then JwtOk \<lparr>c_sub = sub, c_role = role, c_username = username, c_exp = exp\<rparr>
            else JwtExpired)\<rparr>"

lemma demo_jwt_documented: "jwt_documented demo_jwt (\<lambda>_. 3600)"
  using dec_enc [of _ "[]"] by (simp add: jwt_documented_def demo_jwt_def dec_enc Let_def)

lemma enc_text_word: "enc_text s \<noteq> [] \<and> list_all (Not \<circ> js_space) (enc_text s)"
proof -
  have "\<not> js_space (CHR ''0'')" "\<not> js_space (CHR ''1'')" "\<not> js_space (CHR ''2'')"
    by (simp_all add: js_space_def)
  then show ?thesis by (auto simp: enc_text_def list_all_iff)
qed

lemma demo_jwt_text: "jwt_text demo_jwt"
  using enc_text_word by (simp add: jwt_text_def demo_jwt_def)

lemmas login_eval = demo_eval auth_login_def users_findByUsername_def

lemma demo_find_ali:
  "\<exists>w1. users_findByUsername demo_env ''ali'' Pool demo_world = (Inr (Some (toUser (demo_user 1 ''ali'' ''Ali Ahmadi''))), w1)"
  by (simp add: users_findByUsername_def demo_eval)

theorem login_outcome_witness:
  "fst (auth_login demo_env demo_jwt ''k'' ''1h'' ''dummy'' ''ali'' ''wrong'' demo_world) = Inl invalid_credentials \<and>
   fst (auth_login demo_env demo_jwt ''k'' ''1h'' ''dummy'' ''nobody'' ''wrong'' demo_world) = Inl invalid_credentials"
proof -
  obtain w1 where ali: "users_findByUsername demo_env ''ali'' Pool demo_world =
      (Inr (Some (toUser (demo_user 1 ''ali'' ''Ali Ahmadi''))), w1)"
    using demo_find_ali by blast
  obtain w2 where nobody: "users_findByUsername demo_env ''nobody'' Pool demo_world = (Inr None, w2)"
    by (simp add: users_findByUsername_def demo_eval)
  show ?thesis
    unfolding login_outcome [OF ali] login_outcome [OF nobody]
    by (simp add: demo_env_def toUser_def demo_user_def Let_def)
qed

lemma login_then_authenticate_witness:
  "\<exists>r w'. auth_login demo_env demo_jwt ''k'' ''1h'' ''dummy'' ''ali'' ''ali'' demo_world = (Inr r, w') \<and>
     authenticate (token_verify demo_jwt ''k'' 600000) (Some (''Bearer '' @ lr_accessToken r)) =
       Inr \<lparr>au_id = Some 1, au_role = ''USER'', au_username = ''ali'', au_expiresAt = 4100000\<rparr>"
proof -
  obtain w1 where ali: "users_findByUsername demo_env ''ali'' Pool demo_world =
      (Inr (Some (toUser (demo_user 1 ''ali'' ''Ali Ahmadi''))), w1)"
    using demo_find_ali by blast
  obtain r w' where run: "auth_login demo_env demo_jwt ''k'' ''1h'' ''dummy'' ''ali'' ''ali'' demo_world = (Inr r, w')"
    using ali by (simp add: auth_login_def demo_env_def toUser_def demo_user_def call_def await_def Let_def)
  from login_then_authenticate [OF demo_jwt_documented demo_jwt_text ali run, of 600000] run
  show ?thesis
    by (simp add: demo_env_def toUser_def demo_user_def role_name_def Let_def)
qed

section \<open>The Authorization header and roles\<close>

lemma js_split_ws_parts: "part \<in> set (js_split_ws s) \<Longrightarrow> list_all (Not \<circ> js_space) part"
proof (induction s rule: js_split_ws.induct)
  case (1 s)
  let ?p = "takeWhile (Not \<circ> js_space) s"
  have p: "list_all (Not \<circ> js_space) ?p" by (auto simp: list_all_iff dest: set_takeWhileD)
  show ?case
  proof (cases "dropWhile (Not \<circ> js_space) s = []")
    case True
    with 1(2) have "part = ?p" by (subst (asm) js_split_ws.simps) (simp add: Let_def)
    with p show ?thesis by (simp only:)
  next
    case False
    with 1(2) have "part = ?p \<or> part \<in> set (js_split_ws (dropWhile js_space (dropWhile (Not \<circ> js_space) s)))"
      by (subst (asm) js_split_ws.simps) (simp add: Let_def split: if_splits)
    with 1(1) [OF refl refl False] p show ?thesis by blast
  qed
qed

text \<open>Only a bearer header with a token is read: whatever the header, a token that comes out is
  not empty and holds no white space, and it is the second word of a header whose first word is
  \<open>bearer\<close> in any case; every such header of two words gives its token.\<close>
lemma bearer_header:
  "(extractBearerToken header = Some token \<longrightarrow>
      token \<noteq> [] \<and> list_all (Not \<circ> js_space) token \<and>
      (\<exists>h scheme rest. header = Some h \<and> js_split_ws (js_trim h) = scheme # token # rest \<and>
         toLowerCase scheme = ''bearer'')) \<and>
   (toLowerCase scheme = ''bearer'' \<and> word \<noteq> [] \<and> list_all (Not \<circ> js_space) word \<longrightarrow>
      extractBearerToken (Some (scheme @ '' '' @ word)) = Some word)"
proof (intro conjI impI)
  assume out: "extractBearerToken header = Some token"
  then obtain h scheme rest where h: "header = Some h" "js_split_ws (js_trim h) = scheme # token # rest"
    "toLowerCase scheme = ''bearer''" "token \<noteq> []"
    by (auto simp: extractBearerToken_def split: option.splits list.splits if_splits)
  have "list_all (Not \<circ> js_space) token"
    by (rule js_split_ws_parts [of token "js_trim h"]) (simp add: h)
  with h show "token \<noteq> []" "list_all (Not \<circ> js_space) token"
    "\<exists>h scheme rest. header = Some h \<and> js_split_ws (js_trim h) = scheme # token # rest \<and>
       toLowerCase scheme = ''bearer''" by blast+
next
  assume "toLowerCase scheme = ''bearer'' \<and> word \<noteq> [] \<and> list_all (Not \<circ> js_space) word"
  then show "extractBearerToken (Some (scheme @ '' '' @ word)) = Some word"
    by (intro extractBearerToken_wellformed) simp_all
qed

lemma bearer_header_witness:
  "extractBearerToken (Some ''BEARER abc.def'') = Some ''abc.def''"
proof -
  have "toLowerCase ''BEARER'' = ''bearer''" "list_all (Not \<circ> js_space) ''abc.def''" by code_simp+
  then show ?thesis
    using bearer_header [of None "[]" "''BEARER''" "''abc.def''"] by simp
qed

theorem withTransaction_all_or_nothing_witness:
  "let work = register_work demo_env 5 USER ''ali'' ''hash'' ''Ali'' in
   case withTransaction demo_env work demo_world of (r, w') \<Rightarrow>
     open_tx w' = None \<and> last (trace w') = EvRelease \<and>
     (case work (begun demo_env demo_world) of
        (Inl e, v) \<Rightarrow> r = Inl e \<and> tables (database w') = tables (begin_db demo_env demo_world)
      | (Inr x, v) \<Rightarrow> r = Inr x \<and> tables (database w') = committed demo_env demo_world v)"
proof -
  have "open_tx demo_world = None" "connect_fault demo_env tr = None" "db_fault demo_env tr = Up" for tr
    by (simp_all add: demo_world_def demo_env_def)
  with withTransaction_all_or_nothing [where work = "register_work demo_env 5 USER ''ali'' ''hash'' ''Ali''" and w = demo_world
      and E = demo_env, OF keeps_inside_register]
  show ?thesis by (simp add: Let_def split: prod.splits sum.splits)
qed

end
