(* ===== verification/Service_Theorems.thy ===== *)
theory Service_Theorems
  imports Demo
begin

text \<open>
  What the services guarantee their callers: the transfer service in front of the stored
  procedure, the queue and the notifier; who may see a transaction; and the lists.
\<close>

section \<open>The transfer service\<close>

text \<open>The row a transfer has written is found again, with its two users.\<close>

lemma transfer_details:
  assumes ok: "db_ok d" and out: "transfer_outcome f t (Some a) ds threshold d = (Inr (tid, st), d')"
  shows "\<exists>x fu tu. Option.bind (find (\<lambda>x. t_id x = tid) (transactions d')) (join_details d') = Some (x, fu, tu) \<and>
    t_id x = tid \<and> t_amount x = a \<and> t_receipt_status x = st \<and> u_id fu = f \<and> u_id tu = t \<and>
    fu \<in> set (users d) \<and> tu \<in> set (users d)"
  using ok out
proof (rule transfer_successE)
  fix a' fw tw descr st'
  assume h: "Some a = Some a'" "wallet_of d f = Some fw" "wallet_of d t = Some tw"
    "next_uuid d \<notin> t_id ` set (transactions d)" "(tid, st) = (next_uuid d, st')"
    "d' = transfer_post d fw tw a' descr st'"
    and rows: "fw \<in> set (wallets d)" "tw \<in> set (wallets d)" "w_user_id fw = f" "w_user_id tw = t"
      "w_id fw \<noteq> w_id tw"
  let ?x = "new_transaction d fw tw a descr st"
  have "find (\<lambda>x. t_id x = tid) (transactions d @ [?x]) = Some ?x"
    using h(4,5) by (intro find_snoc) (force simp: new_transaction_def)+
  then have find: "find (\<lambda>x. t_id x = tid) (transactions d') = Some ?x"
    using h by (simp add: transfer_post_def)
  from ok transfer_outcome_db_ok [OF ok out] have wf: "wf_wallets d" "wf_wallets d'" "wf_users d"
    by (simp_all add: db_ok_def)
  have "f \<in> u_id ` set (users d)" "t \<in> u_id ` set (users d)"
    using wf(1) rows by (auto simp: wf_wallets_def)
  then obtain fu tu where u: "fu \<in> set (users d)" "u_id fu = f" "tu \<in> set (users d)" "u_id tu = t"
    by blast
  then have us: "find (\<lambda>u. u_id u = f) (users d') = Some fu" "find (\<lambda>u. u_id u = t) (users d') = Some tu"
    using wf(3) by (simp_all add: find_Some_iff_mem wf_users_def h(6) transfer_post_def)
  have ws: "wallet_by_id d' (w_id fw) = Some (paid d (- a) fw)" "wallet_by_id d' (w_id tw) = Some (paid d a tw)"
    unfolding wallet_by_id_iff [OF wf(2)]
    using rows set_wallets_transfer_post [OF wf(1) rows(1,2,5)] h by (simp_all add: paid_def)
  have "join_details d' ?x = Some (?x, fu, tu)"
    using ws us rows by (simp add: join_details_def owner_of_wallet_def new_transaction_def paid_def)
  with find u h show ?thesis
    by (intro exI [of _ ?x] exI [of _ fu] exI [of _ tu]) (simp add: new_transaction_def)
qed

definition not_log :: "ev \<Rightarrow> bool" where
  "not_log e = (case e of EvLog _ _ \<Rightarrow> False | _ \<Rightarrow> True)"

text \<open>The part of the service after the transfer is committed and read back.\<close>

definition after_commit :: "env \<Rightarrow> uuid \<Rightarrow> receipt_status \<Rightarrow> transaction option \<Rightarrow> transaction option js" where
  "after_commit E tid st transaction =
     await (if st = PENDING
            then try_catch (enqueue E tid)
                   (\<lambda>err. log_msg ''error'' ''Failed to enqueue receipt job, it will be recovered by the worker'')
            else ret ()) (\<lambda>_.
     await (try_catch (notify_or_throw E transaction)
              (\<lambda>err. log_msg ''error'' ''Failed to send transfer notification'')) (\<lambda>_.
     ret transaction))"

lemma transfer_service_split:
  "transfer_service E th f t amount ds =
     await (transactions_transfer E f t amount ds th Pool) (\<lambda>(tid, st).
     await (transactions_findById E tid Pool) (after_commit E tid st))"
  by (simp add: transfer_service_def after_commit_def [abs_def])

lemma after_commit_effect:
  "\<exists>tr. after_commit E tid st x w = (Inr x, w\<lparr>trace := tr\<rparr>) \<and>
     filter not_log tr = filter not_log (trace w) @
       (if st = PENDING then [EvEnqueue RECEIPT_JOB_NAME tid tid] else []) @
       (case x of None \<Rightarrow> [] | Some T \<Rightarrow>
          [EvEmit (userRoom (p_userId (tx_to T))) TRANSFER_RECEIVED (notification_of T)])"
  by (cases x; cases "st = PENDING")
    (auto simp: after_commit_def enqueue_def notify_or_throw_def notifyTransferReceived_def log_msg_def call_def
      try_catch_def await_def not_log_def Let_def split: sum.splits)

text \<open>What a lone transfer does, up to its logging.\<close>

lemma db_safe_tables: "tables d' = tables d \<Longrightarrow> db_safe d' = db_safe d"
  by (simp add: tables_def db_safe_def)

lemma find_details_tables:
  "tables d' = tables d \<Longrightarrow>
   Option.bind (find P (transactions d')) (join_details d') = Option.bind (find P (transactions d)) (join_details d)"
  by (cases "find P (transactions d)") (simp_all add: tables_def join_details_def owner_of_wallet_def wallet_by_id_def)

lemma findById_quiet:
  assumes "quiet E" and found: "Option.bind (find (\<lambda>x. t_id x = tid) (transactions (database w))) (join_details (database w)) = r"
    and safe: "\<And>x. r = Some x \<Longrightarrow> list_all isSafeInteger (details_int8s x)"
  shows "transactions_findById E tid Pool w = (Inr (map_option toTransaction r), after_read E ''transactions.findById'' w)"
proof -
  have "tables (at_query E ''transactions.findById'' w) = tables (database w)" by simp
  from find_details_tables [OF this] found
  have "Option.bind (find (\<lambda>x. t_id x = tid) (transactions (at_query E ''transactions.findById'' w)))
    (join_details (at_query E ''transactions.findById'' w)) = r" by simp
  then show ?thesis
    using safe
    by (cases r) (simp_all add: transactions_findById_def await_def query_quiet_read [OF assms(1)] optional_row_def
        parse_int8s_safe)
qed

lemma transfer_service_success:
  assumes env: "quiet E" and ok: "db_ok (database w)" and safe: "db_safe (database w)" "isSafeInteger a"
    and out: "transfer_outcome f t (Some a) ds th (at_query E ''CALL transfer_funds'' w) = (Inr (tid, st), d')"
  shows "\<exists>T w'. transfer_service E th f t (Some a) ds w = (Inr (Some T), w') \<and>
     tx_id T = tid \<and> tx_amount T = a \<and> tx_receiptStatus T = st \<and>
     p_userId (tx_from T) = f \<and> p_userId (tx_to T) = t \<and> tables (database w') = tables d' \<and>
     filter not_log (trace w') = filter not_log (trace w) @
       [EvQuery ''CALL transfer_funds'', EvQuery ''transactions.findById''] @
       (if st = PENDING then [EvEnqueue RECEIPT_JOB_NAME tid tid] else []) @
       [EvEmit (userRoom t) TRANSFER_RECEIVED (notification_of T)]"
proof -
  let ?d = "at_query E ''CALL transfer_funds'' w"
  have ok': "db_ok ?d" using ok by simp
  let ?w1 = "w\<lparr>trace := trace w @ [EvQuery ''CALL transfer_funds''], database := d'\<rparr>"
  have call: "transactions_transfer E f t (Some a) ds th Pool w = (Inr (tid, st), ?w1)"
    using out by (simp add: transactions_transfer_def query_quiet [OF env] transfer_funds_cases [OF ok'])
  from transfer_details [OF ok' out] obtain x fu tu where
    find: "Option.bind (find (\<lambda>x. t_id x = tid) (transactions d')) (join_details d') = Some (x, fu, tu)"
    and row: "t_id x = tid" "t_amount x = a" "t_receipt_status x = st" "u_id fu = f" "u_id tu = t"
      "fu \<in> set (users ?d)" "tu \<in> set (users ?d)" by blast
  have "list_all isSafeInteger (details_int8s (x, fu, tu))"
    using row safe by (auto simp: details_int8s_def db_safe_def at_query_def)
  with findById_quiet [OF env, of tid ?w1 "Some (x, fu, tu)"] find obtain w2 where
    w2: "transactions_findById E tid Pool ?w1 = (Inr (Some (toTransaction (x, fu, tu))), w2)"
    "trace w2 = trace ?w1 @ [EvQuery ''transactions.findById'']" "tables (database w2) = tables d'"
    by simp
  from after_commit_effect [of E tid st "Some (toTransaction (x, fu, tu))" w2] obtain tr where
    tr: "after_commit E tid st (Some (toTransaction (x, fu, tu))) w2 = (Inr (Some (toTransaction (x, fu, tu))), w2\<lparr>trace := tr\<rparr>)"
    "filter not_log tr = filter not_log (trace w2) @ (if st = PENDING then [EvEnqueue RECEIPT_JOB_NAME tid tid] else []) @
       [EvEmit (userRoom (p_userId (tx_to (toTransaction (x, fu, tu))))) TRANSFER_RECEIVED
         (notification_of (toTransaction (x, fu, tu)))]" by auto
  have "transfer_service E th f t (Some a) ds w = (Inr (Some (toTransaction (x, fu, tu))), w2\<lparr>trace := tr\<rparr>)"
    using call w2(1) tr(1) by (simp add: transfer_service_split)
  then show ?thesis
    using tr(2) w2 row
    by (intro exI [of _ "toTransaction (x, fu, tu)"] exI [of _ "w2\<lparr>trace := tr\<rparr>"])
      (simp add: toTransaction_def not_log_def)
qed

lemma transfer_service_failure:
  assumes env: "quiet E" and ok: "db_ok (database w)"
    and out: "transfer_outcome f t amount ds th (at_query E ''CALL transfer_funds'' w) = (Inl e, d')"
  shows "\<exists>w'. transfer_service E th f t amount ds w = (Inl (pg_error e), w') \<and>
     tables (database w') = tables (database w) \<and> trace w' = trace w @ [EvQuery ''CALL transfer_funds'']"
proof -
  have ok': "db_ok (at_query E ''CALL transfer_funds'' w)" using ok by simp
  have "tables d' = tables (at_query E ''CALL transfer_funds'' w)"
    using out by (rule tables_transfer_outcome_Inl)
  then show ?thesis
    using out by (simp add: transfer_service_split transactions_transfer_def query_quiet [OF env]
        transfer_funds_cases [OF ok'])
qed

lemma transfer_written:
  assumes "db_ok d" and "transfer_outcome f t (Some a) ds th d = (Inr (tid, st), d')"
  shows "st = (if a > th then PENDING else NOT_REQUIRED) \<and> tid \<notin> t_id ` set (transactions d) \<and>
    tid \<in> t_id ` set (transactions d')"
  using assms by (rule transfer_successE) (simp add: transfer_post_def new_transaction_def)

text \<open>C14: the transfer service, in front of an integral database, with no fault and no one else acting:
  either it answers with the transaction it made, which carries the new id, the amount, the two
  users and the receipt status the threshold asks for, and the balances are those of the
  abstract bank after that transfer; or it raises, and no table has changed.\<close>
theorem transfer_service_correct:
  assumes "quiet E" and "db_ok (database w)" and "db_safe (database w)" and "isSafeInteger a"
  shows "case transfer_service E th f t (Some a) ds w of
      (Inr r, w') \<Rightarrow> \<exists>T. r = Some T \<and> tx_amount T = a \<and> p_userId (tx_from T) = f \<and> p_userId (tx_to T) = t \<and>
         tx_receiptStatus T = (if a > th then PENDING else NOT_REQUIRED) \<and>
         tx_id T \<notin> t_id ` set (transactions (database w)) \<and>
         tx_id T \<in> t_id ` set (transactions (database w')) \<and>
         bank_transfer f t a (bank_of (database w)) = Some (bank_of (database w'))
    | (Inl e, w') \<Rightarrow> tables (database w') = tables (database w)"
proof (cases "transfer_outcome f t (Some a) ds th (at_query E ''CALL transfer_funds'' w)")
  case (Pair r d')
  let ?d = "at_query E ''CALL transfer_funds'' w"
  have ok: "db_ok ?d" using assms(2) by simp
  show ?thesis
  proof (cases r)
    case (Inl e)
    with transfer_service_failure [OF assms(1,2)] Pair show ?thesis by fastforce
  next
    case (Inr p)
    obtain tid st where p: "p = (tid, st)" by (cases p)
    with Inr Pair have out: "transfer_outcome f t (Some a) ds th ?d = (Inr (tid, st), d')" by simp
    from transfer_service_success [OF assms out] obtain T w' where
      run: "transfer_service E th f t (Some a) ds w = (Inr (Some T), w')" "tx_id T = tid" "tx_amount T = a"
        "tx_receiptStatus T = st" "p_userId (tx_from T) = f" "p_userId (tx_to T) = t"
        "tables (database w') = tables d'" by blast
    have "transactions ?d = transactions (database w)" by (simp add: at_query_def)
    with transfer_written [OF ok out] have row: "st = (if a > th then PENDING else NOT_REQUIRED)"
      "tid \<notin> t_id ` set (transactions (database w))" "tid \<in> t_id ` set (transactions d')"
      by simp_all
    have "transactions (database w') = transactions d'" using run(7) by (simp add: tables_def)
    moreover have "bank_of (database w') = bank_of d'" "bank_of ?d = bank_of (database w)"
      using bank_of_tables run(7) tables_at_query by blast+
    ultimately show ?thesis
      using run row bank_of_transfer_outcome [OF ok out] by simp
  qed
qed

lemma demo_safe_args: "quiet demo_env" "db_ok (database demo_world)" "db_safe (database demo_world)"
  by (simp_all add: quiet_demo db_ok_demo db_safe_demo)

lemma demo_transfer_outcome:
  "fst (transfer_outcome 1 2 (Some 6000000) None 5000000 (at_query demo_env ''CALL transfer_funds'' demo_world)) =
     Inr (''t1'', PENDING)"
  by (simp add: demo_defs at_query_def demo_env_def transfer_outcome_def wallet_of_def description_column_def
      int8_ok_def Let_def)

theorem transfer_service_correct_witness:
  "\<exists>T. fst (transfer_service demo_env 5000000 1 2 (Some 6000000) None demo_world) = Inr (Some T) \<and>
     tx_amount T = 6000000 \<and> tx_receiptStatus T = PENDING"
proof -
  have a: "isSafeInteger 6000000" by (simp add: isSafeInteger_def MAX_SAFE_INTEGER_def)
  obtain d' where "transfer_outcome 1 2 (Some 6000000) None 5000000 (at_query demo_env ''CALL transfer_funds'' demo_world) =
      (Inr (''t1'', PENDING), d')"
    using demo_transfer_outcome by (metis prod.collapse)
  from transfer_service_success [OF demo_safe_args a this]
  obtain T w' where run: "transfer_service demo_env 5000000 1 2 (Some 6000000) None demo_world = (Inr (Some T), w')"
    by blast
  with transfer_service_correct [OF demo_safe_args a, where th = 5000000 and f = 1 and t = 2 and ds = None]
  show ?thesis by simp
qed

text \<open>Ordering of the effects of a transfer: a refused transfer makes no call beyond the
  stored procedure; a successful one first commits, then reads the row back, then enqueues the
  receipt job under the transaction's id when the receipt is pending and only then, and last
  notifies the room of the recipient, and no other room.\<close>
lemma transfer_service_calls:
  assumes "quiet E" and "db_ok (database w)" and "db_safe (database w)" and "isSafeInteger a"
  shows "case transfer_service E th f t (Some a) ds w of
      (Inl e, w') \<Rightarrow> trace w' = trace w @ [EvQuery ''CALL transfer_funds'']
    | (Inr None, w') \<Rightarrow> False
    | (Inr (Some T), w') \<Rightarrow> filter not_log (trace w') = filter not_log (trace w) @
         [EvQuery ''CALL transfer_funds'', EvQuery ''transactions.findById''] @
         (if a > th then [EvEnqueue RECEIPT_JOB_NAME (tx_id T) (tx_id T)] else []) @
         [EvEmit (userRoom t) TRANSFER_RECEIVED (notification_of T)]"
proof (cases "transfer_outcome f t (Some a) ds th (at_query E ''CALL transfer_funds'' w)")
  case (Pair r d')
  have ok: "db_ok (at_query E ''CALL transfer_funds'' w)" using assms(2) by simp
  show ?thesis
  proof (cases r)
    case (Inl e)
    with transfer_service_failure [OF assms(1,2)] Pair show ?thesis by fastforce
  next
    case (Inr p)
    obtain tid st where p: "p = (tid, st)" by (cases p)
    with Inr Pair have out: "transfer_outcome f t (Some a) ds th (at_query E ''CALL transfer_funds'' w) =
      (Inr (tid, st), d')" by simp
    from transfer_written [OF ok out] have "st = (if a > th then PENDING else NOT_REQUIRED)" by simp
    with transfer_service_success [OF assms out] show ?thesis by fastforce
  qed
qed

lemma transfer_service_calls_witness:
  "\<forall>n. EvEmit (userRoom 2) TRANSFER_RECEIVED n \<notin> set (trace (snd (transfer_service demo_env 5000000 1 1 (Some 6000000) None demo_world)))"
proof -
  have a: "isSafeInteger 6000000" by (simp add: isSafeInteger_def MAX_SAFE_INTEGER_def)
  obtain d' where "transfer_outcome 1 1 (Some 6000000) None 5000000 (at_query demo_env ''CALL transfer_funds'' demo_world) =
      (Inl (wl ''WL002''), d')"
    by (simp add: transfer_outcome_def)
  from transfer_service_failure [OF demo_safe_args(1,2) this]
  obtain w' where run: "transfer_service demo_env 5000000 1 1 (Some 6000000) None demo_world = (Inl (pg_error (wl ''WL002'')), w')"
    by blast
  with transfer_service_calls [OF demo_safe_args a, where th = 5000000 and f = 1 and t = 1 and ds = None] show ?thesis
    by (simp add: demo_world_def)
qed

text \<open>C15: a queue or a socket server that fails never fails a transfer: whatever they answer, in
  any environment, the response of the service and the database are the same.\<close>
theorem queue_and_notifier_never_fail_a_transfer:
  "fst (transfer_service (E\<lparr>queue_add := q, io_emit := i\<rparr>) th f t amount ds w) =
     fst (transfer_service E th f t amount ds w) \<and>
   database (snd (transfer_service (E\<lparr>queue_add := q, io_emit := i\<rparr>) th f t amount ds w)) =
     database (snd (transfer_service E th f t amount ds w))"
proof -
  let ?E = "E\<lparr>queue_add := q, io_emit := i\<rparr>"
  have q: "query ?E ex lbl stmt = query E ex lbl stmt" for ex lbl and stmt :: "'b sql"
  proof -
    have p: "pool_query ?E lbl stmt = pool_query E lbl stmt" for lbl and stmt :: "'b sql"
      by (simp add: pool_query_def session_start_def fun_eq_iff Let_def)
    have f: "db_fault ?E = db_fault E" by simp
    show ?thesis unfolding query_def client_query_def p f ..
  qed
  have same: "transactions_transfer ?E f t amount ds th Pool = transactions_transfer E f t amount ds th Pool"
    "transactions_findById ?E tid Pool = transactions_findById E tid Pool" for tid
    by (simp_all add: transactions_transfer_def transactions_findById_def q)
  have after: "fst (after_commit ?E tid st x u) = fst (after_commit E tid st x u)"
    "database (snd (after_commit ?E tid st x u)) = database (snd (after_commit E tid st x u))" for tid st x u
    using after_commit_effect [of ?E tid st x u] after_commit_effect [of E tid st x u] by auto
  show ?thesis
    by (simp add: transfer_service_split same await_def after split: prod.split sum.split)
qed

end
