(* ===== verification/System_Theorems.thy ===== *)
theory System_Theorems
  imports System Access_Theorems Service_Theorems
begin

text \<open>
  What holds of the whole service, whatever the order of its activities, the failures around it
  and the other sessions of the database; and who gets through to which handler.
\<close>

section \<open>Every reachable state\<close>

text \<open>C1: the books balance in every reachable state. From an integral database on, after any
  sequence of requests, receipt jobs, job failures and recovery rounds, each in an environment
  that may fail any call, lose any connection and let other sessions (which keep the integrity)
  act before any statement: no transaction is left open, the database is integral, the money in
  the wallets is exactly the money issued, and every balance is the sum of its ledger entries
  and not negative.\<close>
theorem service_keeps_the_books:
  assumes "reachable A (\<lambda>E act. others_keep db_ok E) w0 w" and "idle_inv db_ok w0"
  shows "open_tx w = None \<and> db_ok (database w) \<and> total_balance (database w) = issued (database w) \<and>
    (\<forall>x \<in> set (wallets (database w)). 0 \<le> w_balance x \<and>
       w_balance x = sum_list (map signed_amount (statement (database w) (w_id x))))"
proof -
  have ok: "db_ok (database w)" "open_tx w = None"
    using reachable_idle [OF assms] by (simp_all add: idle_inv_def)
  have "w_balance x = sum_list (map signed_amount (statement (database w) (w_id x)))"
    if "x \<in> set (wallets (database w))" for x
  proof -
    have "ledger_chain 0 (statement (database w) (w_id x)) = Some (w_balance x)"
      using ok that by (simp add: db_ok_def ledger_agrees_def)
    moreover have "list_all ledger_check (statement (database w) (w_id x))"
      using ok by (auto simp: db_ok_def wf_ledger_def statement_def list_all_iff)
    ultimately show ?thesis using ledger_chain_sum by fastforce
  qed
  with ok show ?thesis by (simp add: db_ok_def wf_wallets_def)
qed

definition demo_express :: express where
  "demo_express = \<lparr>ex_mounted = (\<lambda>prefix rq. take (length prefix) (rq_url rq) = prefix),
     ex_params = (\<lambda>prefix pattern meth rq.
        if rq_method rq = meth \<and> rq_url rq = prefix @ (if pattern = ''/'' then [] else pattern) then Some [] else None)\<rparr>"

definition demo_zod :: zod where
  "demo_zod sch v = (if conforms sch v then Inr v else Inl [([], ''Invalid input'')])"

lemma demo_zod_sound: "zod_sound demo_zod"
  by (simp add: zod_sound_def demo_zod_def split: sum.splits)

definition demo_api :: api where
  "demo_api = \<lparr>api_express = demo_express, api_zod = demo_zod, api_jwt = demo_jwt, api_secret = ''k'',
     api_expiresIn = ''1h'', api_timing_safe_hash = ''dummy'', api_initialBalance = 10000000,
     api_threshold = 5000000, api_storage = demo_storage, api_redis_ping = None\<rparr>"

definition demo_request :: "string \<Rightarrow> string \<Rightarrow> string option \<Rightarrow> js_value \<Rightarrow> http_request" where
  "demo_request meth url auth body = \<lparr>rq_method = meth, rq_url = url, rq_authorization = auth,
     rq_params = JObject [], rq_query = JObject [], rq_body = Inr body, rq_user = None, rq_validated = []\<rparr>"

lemma fresh_demo_request [simp]: "fresh_request (demo_request meth url auth body)"
  by (simp add: fresh_request_def demo_request_def)

definition demo_token :: "int \<Rightarrow> string \<Rightarrow> string \<Rightarrow> string" where
  "demo_token uid name role = jwt_sign demo_jwt role name ''k'' (js_String uid) ''1h'' 500000"

definition demo_transfer :: http_request where
  "demo_transfer = demo_request ''POST'' ''/api/transfers''
     (Some (''Bearer '' @ demo_token 1 ''ali'' ''USER''))
     (JObject [(''toUserId'', JInt 2), (''amount'', JInt 6000000)])"

lemma demo_reachable:
  "allowed demo_env (ReceiptJob demo_job') \<Longrightarrow>
   reachable demo_api allowed demo_world (perform demo_env demo_api (ReceiptJob demo_job') demo_world)"
  by (rule reachable.step [OF reachable.start]) (simp_all add: fresh_activity_def)

definition sample_job :: job where
  "sample_job = \<lparr>job_transactionId = ''t0'', job_attemptsMade = 0, job_opts_attempts = Some 5\<rparr>"

theorem service_keeps_the_books_witness:
  "total_balance (database (perform demo_env demo_api (ReceiptJob sample_job) demo_world)) =
   issued (database (perform demo_env demo_api (ReceiptJob sample_job) demo_world))"
proof -
  have "reachable demo_api (\<lambda>E act. others_keep db_ok E) demo_world
      (perform demo_env demo_api (ReceiptJob sample_job) demo_world)"
    by (rule demo_reachable) (rule demo_others_keep)
  from service_keeps_the_books [OF this idle_demo] show ?thesis by blast
qed

text \<open>C2: nothing that was recorded is ever lost or rewritten: between any two states of the
  service, users and ledger entries are the same rows followed by new ones, transactions keep
  their id, wallets, amount, description and time, wallets keep their owner, and a receipt that
  was generated stays generated (a pending one may become generated or failed, a failed one
  generated).\<close>
theorem service_history_is_append_only:
  assumes "reachable A (\<lambda>E act. lawful history E) w0 w" and "idle_inv db_ok w0"
  shows "history (database w0) (database w)"
  using assms by (rule history.reachable_respects) simp_all

lemma quiet_lawful: "quiet E \<Longrightarrow> (\<And>d. R d d) \<Longrightarrow> lawful R E"
  by (simp add: lawful_def quiet_def)

theorem service_history_is_append_only_witness:
  "history demo_db (database (perform demo_env demo_api (ReceiptJob sample_job) demo_world))"
proof -
  have "lawful history demo_env" by (rule quiet_lawful [OF quiet_demo history_refl])
  then have "reachable demo_api (\<lambda>E act. lawful history E) demo_world
      (perform demo_env demo_api (ReceiptJob sample_job) demo_world)"
    by (rule demo_reachable)
  from service_history_is_append_only [OF this idle_demo] show ?thesis by simp
qed

text \<open>C3: only its owner can spend from a wallet: as long as no request carries a token that names
  the user, and other sessions do not lower the user's balance, no activity of the service lowers
  it, in any environment and any order.\<close>
theorem only_the_owner_spends:
  assumes "reachable A (\<lambda>E act. lawful (not_lowered uid) E \<and> \<not> may_debit A act uid) w0 w"
    and "idle_inv db_ok w0" and "bank_of (database w0) uid = Some x"
  shows "\<exists>y. bank_of (database w) uid = Some y \<and> x \<le> y"
proof -
  have "not_lowered uid (database w0) (database w)"
    using assms(1,2) by (rule owner.reachable_respects) auto
  with assms(3) show ?thesis by (simp add: not_lowered_def)
qed

lemma bearer_demo_token:
  "authenticate (token_verify demo_jwt ''k'' now) (Some (''Bearer '' @ demo_token uid name role)) =
     (if now div 1000 < 4100
      then Inr \<lparr>au_id = Some uid, au_role = role, au_username = name, au_expiresAt = 4100000\<rparr>
      else Inl (unauthorized (Some ''Access token has expired'') (Some ''TOKEN_EXPIRED'')))"
proof -
  have "toLowerCase ''Bearer'' = ''bearer''" by code_simp
  moreover have "demo_token uid name role \<noteq> []" "list_all (Not \<circ> js_space) (demo_token uid name role)"
    using demo_jwt_text by (simp_all add: demo_token_def jwt_text_def)
  ultimately have "extractBearerToken (Some (''Bearer'' @ '' '' @ demo_token uid name role)) = Some (demo_token uid name role)"
    by (rule extractBearerToken_wellformed)
  then show ?thesis
    using demo_jwt_documented
    by (simp add: authenticate_def demo_token_def token_verify_def jwt_documented_def Let_def)
qed

lemma demo_transfer_acts_for: "acts_for demo_api demo_transfer uid \<longleftrightarrow> uid = 1"
proof -
  have "\<exists>now. (now :: int) div 1000 < 4100" by (rule exI [of _ 0]) simp
  then show ?thesis
    using bearer_demo_token [of _ 1 "''ali''" "''USER''"]
    by (auto simp: acts_for_def demo_transfer_def demo_request_def demo_api_def split: if_splits)
qed

theorem only_the_owner_spends_witness:
  "\<exists>y. bank_of (database (perform demo_env demo_api (HttpRequest demo_transfer) demo_world)) 2 = Some y \<and> 11000000 \<le> y"
proof -
  have "lawful (not_lowered 2) demo_env" by (rule quiet_lawful [OF quiet_demo]) (simp add: not_lowered_def)
  then have "reachable demo_api (\<lambda>E act. lawful (not_lowered 2) E \<and> \<not> may_debit demo_api act 2) demo_world
      (perform demo_env demo_api (HttpRequest demo_transfer) demo_world)"
    using demo_transfer_acts_for [of 2]
    by (intro reachable.step [OF reachable.start]) (simp_all add: may_debit_def fresh_activity_def demo_transfer_def)
  moreover have "bank_of (database demo_world) 2 = Some 11000000"
    by (simp add: demo_defs bank_of_def wallet_of_def)
  ultimately show ?thesis using only_the_owner_spends idle_demo by blast
qed

section \<open>Who reaches which handler\<close>

text \<open>The sources a handler reads, with the schema they were validated against.\<close>

definition input_of :: "handler \<Rightarrow> (string \<times> zschema) option" where
  "input_of h = (case h of
     Register \<Rightarrow> Some (''body'', registerBody) | Login \<Rightarrow> Some (''body'', loginBody)
   | GetByUsername \<Rightarrow> Some (''params'', usernameParams) | GetMyWallet \<Rightarrow> None
   | GetMyLedger \<Rightarrow> Some (''query'', paginationQuery) | CreateTransfer \<Rightarrow> Some (''body'', transferBody)
   | ListMine \<Rightarrow> Some (''query'', paginationQuery) | GetById \<Rightarrow> Some (''params'', uuidParams)
   | DownloadReceipt \<Rightarrow> Some (''params'', uuidParams) | ListAll \<Rightarrow> Some (''query'', paginationQuery)
   | Health \<Rightarrow> None)"

definition public_handler :: "handler \<Rightarrow> bool" where
  "public_handler h \<longleftrightarrow> h = Register \<or> h = Login \<or> h = Health"

definition allowed_roles :: "handler \<Rightarrow> string list option" where
  "allowed_roles h = (case h of ListAll \<Rightarrow> Some [''ADMIN''] | CreateTransfer \<Rightarrow> Some [''USER'', ''ADMIN''] | _ \<Rightarrow> None)"

lemma reached_table:
  assumes "reached A now rq (guard_table createRouter) h rq'" and "zod_sound (api_zod A)"
  shows "genuine A now rq rq' \<and> (\<not> public_handler h \<longrightarrow> rq_user rq' \<noteq> None) \<and>
    (\<forall>roles. allowed_roles h = Some roles \<longrightarrow> (\<exists>u. rq_user rq' = Some u \<and> au_role u \<in> set roles)) \<and>
    (\<forall>src sch. input_of h = Some (src, sch) \<longrightarrow> conforms sch (validated rq' src))"
proof -
  have v: "\<And>rq1 s. validate (api_zod A) (body_schema s) rq1 = Inr rq' \<Longrightarrow> conforms s (validated rq' ''body'')"
    "\<And>rq1 s. validate (api_zod A) (query_schema s) rq1 = Inr rq' \<Longrightarrow> conforms s (validated rq' ''query'')"
    "\<And>rq1 s. validate (api_zod A) (params_schema s) rq1 = Inr rq' \<Longrightarrow> conforms s (validated rq' ''params'')"
    using validate_body [OF assms(2)] validate_query [OF assms(2)] validate_params [OF assms(2)]
    by (simp_all add: body_schema_def query_schema_def params_schema_def)
  from assms(1) obtain acc mws where g: "(h, acc, mws) \<in> set (guard_table createRouter)"
    "genuine A now rq rq'" "passed (acc @ mws) rq'"
    "\<And>xs S. mws = xs @ [Validate S] \<Longrightarrow> \<exists>rq1. validate (api_zod A) S rq1 = Inr rq'"
    unfolding reached_def by blast
  have last: "mws = [] \<or> (case last mws of Validate S \<Rightarrow> \<exists>rq1. validate (api_zod A) S rq1 = Inr rq' | _ \<Rightarrow> True)"
  proof (cases "mws = []")
    case False
    then have "mws = butlast mws @ [last mws]" by simp
    with g(4) [of "butlast mws"] show ?thesis by (cases "last mws") auto
  qed simp
  show ?thesis
    using g(1,2,3) last unfolding guard_table_createRouter list.set insert_iff empty_iff prod.inject
    by (elim disjE conjE FalseE) (auto simp: passed_def public_handler_def allowed_roles_def input_of_def ROLE_USER_def
        ROLE_ADMIN_def dest!: v)
qed

text \<open>C6: no handler is reached without its guards: outside registration, login and the health
  check, the request carries a valid token and \<open>req.user\<close> is the user of that token; the list of
  all transactions is reached by administrators only, a transfer by users and administrators
  only; and whatever a handler reads of the body, query or parameters conforms to the schema of
  its route.\<close>
theorem handlers_are_guarded:
  assumes "run_routers A now createRouter rq = Inr (Some h, rq')" and "fresh_request rq" and "zod_sound (api_zod A)"
  shows "(\<not> public_handler h \<longrightarrow> (\<exists>u. rq_user rq' = Some u \<and>
       authenticate (token_verify (api_jwt A) (api_secret A) now) (rq_authorization rq) = Inr u)) \<and>
    (\<forall>roles. allowed_roles h = Some roles \<longrightarrow> (\<exists>u. rq_user rq' = Some u \<and> au_role u \<in> set roles)) \<and>
    (\<forall>src sch. input_of h = Some (src, sch) \<longrightarrow> conforms sch (validated rq' src))"
proof -
  have "reached A now rq (guard_table createRouter) h rq'"
    using assms(1) genuine_fresh [OF assms(2)] by (rule run_routers_reached)
  from reached_table [OF this assms(3)] show ?thesis by (auto simp: genuine_def)
qed

definition guarded_transfer :: http_request where
  "guarded_transfer = demo_transfer\<lparr>
     rq_user := Some \<lparr>au_id = Some 1, au_role = ''USER'', au_username = ''ali'', au_expiresAt = 4100000\<rparr>,
     rq_validated := [(''body'', JObject [(''toUserId'', JInt 2), (''amount'', JInt 6000000)])]\<rparr>"

lemma conforms_demo_body: "conforms transferBody (JObject [(''toUserId'', JInt 2), (''amount'', JInt 6000000)])"
  by (simp add: transferBody_def js_get_def isSafeInteger_def MAX_SAFE_INTEGER_def)

lemma demo_routing:
  "ex_mounted (api_express demo_api) prefix demo_transfer \<longleftrightarrow> take (length prefix) ''/api/transfers'' = prefix"
  "ex_params (api_express demo_api) ''/api/transfers'' ''/'' ''POST'' demo_transfer = Some []"
  "demo_transfer\<lparr>rq_params := JObject []\<rparr> = demo_transfer"
  by (simp_all add: demo_api_def demo_express_def demo_transfer_def demo_request_def)

lemma run_demo_transfer:
  "run_routers demo_api 500000 createRouter demo_transfer = Inr (Some CreateTransfer, guarded_transfer)"
proof -
  let ?u = "\<lparr>au_id = Some 1, au_role = ''USER'', au_username = ''ali'', au_expiresAt = 4100000\<rparr>"
  have "run_middleware demo_api 500000 Authenticate demo_transfer = Inr (demo_transfer\<lparr>rq_user := Some ?u\<rparr>)"
    using bearer_demo_token [of 500000 1 "''ali''" "''USER''"]
    by (simp add: run_middleware_def demo_transfer_def demo_request_def demo_api_def)
  moreover have "run_middleware demo_api 500000 (Authorize [ROLE_USER, ROLE_ADMIN]) (demo_transfer\<lparr>rq_user := Some ?u\<rparr>) =
      Inr (demo_transfer\<lparr>rq_user := Some ?u\<rparr>)"
    by (simp add: run_middleware_def authorize_def ROLE_USER_def)
  moreover have "run_middleware demo_api 500000 (Validate (body_schema transferBody)) (demo_transfer\<lparr>rq_user := Some ?u\<rparr>) =
      Inr guarded_transfer"
    using conforms_demo_body
    by (simp add: run_middleware_def validate_def validate_source_def body_schema_def request_body_def
        guarded_transfer_def demo_zod_def demo_api_def demo_transfer_def demo_request_def)
  ultimately show ?thesis by (simp add: createRouter_def transfer_router_def demo_routing)
qed

theorem handlers_are_guarded_witness:
  "conforms transferBody (validated guarded_transfer ''body'') \<and>
   authenticate (token_verify demo_jwt ''k'' 500000) (rq_authorization demo_transfer) = Inr (the (rq_user guarded_transfer))"
proof -
  have z: "zod_sound (api_zod demo_api)" "fresh_request demo_transfer"
    using demo_zod_sound by (simp_all add: demo_api_def demo_transfer_def)
  from handlers_are_guarded [OF run_demo_transfer z(2,1)] show ?thesis
    by (auto simp: public_handler_def input_of_def demo_api_def)
qed

end
