(* ===== verification/Transfer_Theorems.thy ===== *)
theory Transfer_Theorems
  imports Demo
begin

text \<open>
  What the stored procedure \<open>transfer_funds\<close> and the ledger triggers guarantee: the result on
  every branch, the refinement of the abstract bank, the conservation of money, and the
  protection of balances and of the ledger against any other statement.
\<close>

section \<open>Balances and the money issued\<close>

lemma sum_list_member_le:
  fixes f :: "'a \<Rightarrow> int"
  shows "x \<in> set xs \<Longrightarrow> (\<And>y. y \<in> set xs \<Longrightarrow> 0 \<le> f y) \<Longrightarrow> f x \<le> sum_list (map f xs)"
proof (induction xs)
  case (Cons y ys)
  then have "0 \<le> f y" by simp
  moreover have "0 \<le> sum_list (map f ys)" using Cons.prems by (intro sum_list_nonneg) auto
  ultimately show ?case using Cons by (auto intro: add_increasing)
qed simp

lemma sum_list_two_le:
  fixes f :: "'a \<Rightarrow> int"
  assumes "x \<in> set xs" "y \<in> set xs" "x \<noteq> y" "\<And>z. z \<in> set xs \<Longrightarrow> 0 \<le> f z"
  shows "f x + f y \<le> sum_list (map f xs)"
  using assms
proof (induction xs)
  case (Cons z zs)
  then have "0 \<le> f z" by simp
  moreover have "0 \<le> sum_list (map f zs)" using Cons.prems by (intro sum_list_nonneg) auto
  ultimately show ?case using Cons sum_list_member_le [of x zs f] sum_list_member_le [of y zs f] by (auto intro: add_increasing)
qed simp

lemma two_balances_le_issued:
  assumes ok: "db_ok d" and "v \<in> set (wallets d)" "w \<in> set (wallets d)" "v \<noteq> w"
  shows "w_balance v + w_balance w \<le> issued d"
proof -
  from ok have "\<And>x. x \<in> set (wallets d) \<Longrightarrow> 0 \<le> w_balance x" by (simp add: db_ok_def wf_wallets_def)
  with assms(2-4) have "w_balance v + w_balance w \<le> total_balance d"
    unfolding total_balance_def by (rule sum_list_two_le)
  with ok show ?thesis by (simp add: db_ok_def)
qed

lemma transfer_credit_in_range:
  assumes ok: "db_ok d" and iss: "issued d < 2 ^ 63" and fw: "wallet_of d f = Some fw"
    and tw: "wallet_of d t = Some tw" and "f \<noteq> t" "0 < a" "a \<le> w_balance fw"
  shows "int8_ok (w_balance tw + a)"
proof -
  from fw tw have m: "fw \<in> set (wallets d)" "tw \<in> set (wallets d)" "w_user_id fw = f" "w_user_id tw = t"
    by (auto dest: wallet_of_SomeD)
  with assms(5) have "fw \<noteq> tw" by auto
  with two_balances_le_issued [OF ok m(1,2)] have "w_balance fw + w_balance tw \<le> issued d" .
  moreover have "0 \<le> w_balance tw" using ok m by (simp add: db_ok_def wf_wallets_def)
  ultimately show ?thesis using assms(2,6,7) by (simp add: int8_ok_def)
qed

section \<open>The procedure\<close>

text \<open>C8: on every input and in every database that satisfies the integrity, calling
  \<open>transfer_funds\<close> as a statement of its own has exactly the result and the effect of
  \<open>transfer_outcome\<close>: the first failing test (missing or non-positive amount, same user, no
  sender wallet, no recipient wallet, too little money, description too long, reused id, balance
  out of range) decides the error and leaves the tables alone, and otherwise the two balances,
  the transaction row and the two ledger rows are written.\<close>
theorem transfer_every_branch:
  "db_ok d \<Longrightarrow> autocommit (transfer_funds f t amount ds threshold) d = transfer_outcome f t amount ds threshold d"
  by (rule transfer_funds_cases)

lemmas outcome_eval = demo_defs transfer_outcome_def wallet_of_def description_column_def varchar_def
  int8_ok_def

theorem transfer_every_branch_witness:
  "fst (autocommit (transfer_funds 1 2 (Some 6000000) (Some ''Rent'') 5000000) demo_db) = Inr (''t1'', PENDING) \<and>
   fst (autocommit (transfer_funds 1 2 (Some 15000000) None 5000000) demo_db) = Inl (wl ''WL005'') \<and>
   fst (autocommit (transfer_funds 1 1 (Some 5) None 5000000) demo_db) = Inl (wl ''WL002'') \<and>
   fst (autocommit (transfer_funds 1 7 (Some 5) None 5000000) demo_db) = Inl (wl ''WL004'')"
  unfolding transfer_every_branch [OF db_ok_demo] by (simp add: outcome_eval Let_def)

text \<open>C9: the procedure implements the abstract bank: a call that succeeds moves exactly the
  amount between the two balances and changes no other, and a call that raises changes none.\<close>
theorem transfer_refines_bank:
  "db_ok d \<Longrightarrow>
   (case autocommit (transfer_funds f t (Some a) ds threshold) d of
      (Inr _, d') \<Rightarrow> bank_transfer f t a (bank_of d) = Some (bank_of d')
    | (Inl _, d') \<Rightarrow> bank_of d' = bank_of d)"
  unfolding transfer_funds_cases
  by (auto split: prod.split sum.split intro: bank_of_transfer_outcome bank_of_tables tables_transfer_outcome_Inl)

theorem transfer_refines_bank_witness:
  "bank_transfer 1 2 4000000 (bank_of demo_db) =
     Some (bank_of (snd (autocommit (transfer_funds 1 2 (Some 4000000) None 5000000) demo_db)))"
proof -
  have "fst (autocommit (transfer_funds 1 2 (Some 4000000) None 5000000) demo_db) = Inr (''t1'', NOT_REQUIRED)"
    unfolding transfer_funds_cases [OF db_ok_demo] by (simp add: outcome_eval Let_def)
  with transfer_refines_bank [OF db_ok_demo, of 1 2 4000000 None 5000000] show ?thesis
    by (cases "autocommit (transfer_funds 1 2 (Some 4000000) None 5000000) demo_db") simp
qed

text \<open>A transfer the bank allows succeeds: when both users have a wallet, the amount is
  positive and covered, the description fits its column and the generated id is new, and the
  money issued fits a BIGINT, the call returns the new id and the receipt status the threshold
  asks for, with the balances of the abstract bank. In particular the credited balance never
  overflows.\<close>
lemma transfer_succeeds:
  assumes "db_ok d" and "issued d < 2 ^ 63" and "bank_transfer f t a (bank_of d) = Some b"
    and "description_column ds = Inr descr" and "next_uuid d \<notin> t_id ` set (transactions d)"
  shows "\<exists>d'. autocommit (transfer_funds f t (Some a) ds threshold) d =
      (Inr (next_uuid d, if a > threshold then PENDING else NOT_REQUIRED), d') \<and> bank_of d' = b"
proof -
  from assms(3) obtain fw tw where h: "wallet_of d f = Some fw" "wallet_of d t = Some tw" "0 < a" "f \<noteq> t"
    "a \<le> w_balance fw"
    by (auto simp: bank_transfer_def bank_of_def split: option.splits if_splits)
  have "int8_ok (w_balance tw + a)"
    using assms(1,2) h by (intro transfer_credit_in_range)
  with h assms(4,5) obtain d' where out: "transfer_outcome f t (Some a) ds threshold d =
      (Inr (next_uuid d, if a > threshold then PENDING else NOT_REQUIRED), d')"
    by (simp add: transfer_outcome_def Let_def)
  with bank_of_transfer_outcome [OF assms(1) out] assms(3) show ?thesis
    by (simp add: transfer_funds_cases [OF assms(1)])
qed

lemma transfer_succeeds_witness:
  "\<exists>d'. autocommit (transfer_funds 2 1 (Some 11000000) (Some ''back'') 5000000) demo_db = (Inr (''t1'', PENDING), d')"
proof -
  obtain b where b: "bank_transfer 2 1 11000000 (bank_of demo_db) = Some b"
    by (simp add: demo_defs bank_transfer_def bank_of_def wallet_of_def)
  have "issued demo_db < 2 ^ 63" by (simp add: demo_defs issued_def opening_amount_def)
  moreover have "description_column (Some ''back'') = Inr (Some ''back'')"
    by (simp add: description_column_def varchar_def)
  moreover have "next_uuid demo_db \<notin> t_id ` set (transactions demo_db)" "next_uuid demo_db = ''t1''"
    by (simp_all add: demo_defs)
  ultimately show ?thesis
    using transfer_succeeds [OF db_ok_demo _ b, of "Some ''back''" "Some ''back''" 5000000] by auto
qed

text \<open>C10: a transfer neither creates nor destroys money and never overdraws: whatever its
  arguments, and whether it succeeds or raises, the sum of all balances stays what it was and no
  balance is negative afterwards; the integrity of the database holds again.\<close>
theorem transfer_conserves_money:
  assumes "db_ok d"
  shows "(let d' = snd (autocommit (transfer_funds f t amount ds threshold) d) in
     total_balance d' = total_balance d \<and> (\<forall>w \<in> set (wallets d'). 0 \<le> w_balance w) \<and> db_ok d')"
proof -
  have "db_ok (snd (autocommit (transfer_funds f t amount ds threshold) d))"
    using transfer.autocommit_keeps assms by (rule keepsD)
  then show ?thesis
    using total_balance_transfer_outcome [OF assms, of f t amount ds threshold]
    by (simp add: transfer_funds_cases [OF assms] db_ok_def wf_wallets_def Let_def)
qed

theorem transfer_conserves_money_witness:
  "total_balance (snd (autocommit (transfer_funds 1 2 (Some 3000000) None 0) demo_db)) = 25000000"
  using transfer_conserves_money [OF db_ok_demo, of 1 2 "Some 3000000" None 0]
  by (simp add: Let_def) (simp add: demo_defs total_balance_def)

text \<open>C13: double entry: a successful transfer appends one transaction row, and one debit of the
  sender's wallet followed by one credit of the recipient's, each with the balance before and
  after, and leaves every earlier row of both tables and all users as they were.\<close>
theorem transfer_double_entry:
  assumes "db_ok d" and "autocommit (transfer_funds f t (Some a) ds threshold) d = (Inr (tid, st), d')"
  shows "\<exists>fw tw. wallet_of d f = Some fw \<and> wallet_of d t = Some tw \<and>
     (\<exists>tx. transactions d' = transactions d @ [tx] \<and> t_id tx = tid \<and> t_receipt_status tx = st \<and>
        t_from_wallet_id tx = w_id fw \<and> t_to_wallet_id tx = w_id tw \<and> t_amount tx = a) \<and>
     transaction_ledger d' = transaction_ledger d @
       [\<lparr>l_id = ledger_seq d, l_wallet_id = w_id fw, l_transaction_id = Some tid, l_entry_type = DEBIT,
         l_amount = a, l_balance_before = w_balance fw, l_balance_after = w_balance fw - a, l_created_at = now_ts d\<rparr>,
        \<lparr>l_id = ledger_seq d + 1, l_wallet_id = w_id tw, l_transaction_id = Some tid, l_entry_type = CREDIT,
         l_amount = a, l_balance_before = w_balance tw, l_balance_after = w_balance tw + a, l_created_at = now_ts d\<rparr>] \<and>
     users d' = users d"
proof -
  from assms have "transfer_outcome f t (Some a) ds threshold d = (Inr (tid, st), d')"
    by (simp add: transfer_funds_cases)
  from transfer_successE [OF assms(1) this] show ?thesis
    by cases (simp add: transfer_post_def transfer_entry_def new_transaction_def)
qed

theorem transfer_double_entry_witness:
  "\<exists>tid st d'. autocommit (transfer_funds 1 2 (Some 3000000) None 0) demo_db = (Inr (tid, st), d') \<and>
     length (transaction_ledger d') = 6 \<and> length (transactions d') = 2"
proof -
  obtain d' where e: "autocommit (transfer_funds 1 2 (Some 3000000) None 0) demo_db = (Inr (''t1'', PENDING), d')"
    unfolding transfer_funds_cases [OF db_ok_demo] by (simp add: outcome_eval Let_def)
  with transfer_double_entry [OF db_ok_demo e] have "length (transaction_ledger d') = 6" "length (transactions d') = 2"
    by (auto simp: demo_defs)
  with e show ?thesis by blast
qed

section \<open>Statements and triggers\<close>

text \<open>The ledger explains every balance: the signed amounts of a wallet's statement add up
  to its balance, each entry starts from the balance the entry before it left, the first from 0,
  and the last one ends in the balance of the wallet.\<close>
lemma statement_explains_balance:
  assumes "db_ok d" and "w \<in> set (wallets d)"
  shows "w_balance w = sum_list (map signed_amount (statement d (w_id w))) \<and>
     ledger_chain 0 (statement d (w_id w)) = Some (w_balance w) \<and>
     (statement d (w_id w) \<noteq> [] \<longrightarrow> l_balance_after (last (statement d (w_id w))) = w_balance w)"
proof -
  have chain: "ledger_chain 0 (statement d (w_id w)) = Some (w_balance w)"
    using assms by (simp add: db_ok_def ledger_agrees_def)
  have "list_all ledger_check (statement d (w_id w))"
    using assms by (auto simp: db_ok_def wf_ledger_def statement_def list_all_iff)
  from ledger_chain_sum [OF this chain] chain ledger_chain_last [OF chain] show ?thesis by simp
qed

lemma statement_explains_balance_witness:
  "w_balance (demo_wallet 1 14000000) = 20000000 - 6000000"
  using statement_explains_balance [OF db_ok_demo, of "demo_wallet 1 14000000"]
  by (simp add: demo_defs)

text \<open>The ledger is append-only: an \<open>UPDATE\<close> or a \<open>DELETE\<close> on \<open>transaction_ledger\<close> raises
  \<open>WL007\<close> as soon as it selects a row, and whatever it selects, the tables stay as they were.\<close>
lemma ledger_append_only:
  "tables (snd (autocommit (update_ledger sel f) d)) = tables d \<and>
   tables (snd (autocommit (delete_ledger sel) d)) = tables d \<and>
   (case fst (autocommit (update_ledger sel f) d) of
      Inl e \<Rightarrow> sqlstate e = ''WL007'' | Inr n \<Rightarrow> n = 0 \<and> filter sel (transaction_ledger d) = []) \<and>
   (case fst (autocommit (delete_ledger sel) d) of
      Inl e \<Rightarrow> sqlstate e = ''WL007'' | Inr n \<Rightarrow> n = 0 \<and> filter sel (transaction_ledger d) = [])"
proof (cases "filter sel (transaction_ledger d)")
  case Nil
  then have "map (\<lambda>l. if sel l then f l else l) (transaction_ledger d) = transaction_ledger d"
    "filter (Not \<circ> sel) (transaction_ledger d) = transaction_ledger d"
    by (auto simp: filter_empty_conv filter_id_conv intro: map_idI)
  with Nil show ?thesis
    by (simp add: autocommit_def update_ledger_def delete_ledger_def tables_def commit_db_def)
next
  case (Cons l ls)
  then show ?thesis
    by (simp add: autocommit_def update_ledger_def delete_ledger_def fn_ledger_append_only_def)
qed

text \<open>A balance cannot be changed behind the ledger: outside \<open>transfer_funds\<close> (that is, with
  no current transaction id set) an update of a wallet's balance by any amount leaves all
  balances as they were, and one that would change the balance raises.\<close>
lemma direct_balance_change_rejected:
  assumes "current_tx d = None" and "wallet_by_id d wid = Some w" and "delta \<noteq> 0"
  shows "(\<exists>e. fst (autocommit (update_wallet_balance wid delta) d) = Inl e \<and>
       (int8_ok (w_balance w + delta) \<and> 0 \<le> w_balance w + delta \<longrightarrow> sqlstate e = ''WL006'')) \<and>
     tables (snd (autocommit (update_wallet_balance wid delta) d)) = tables d"
  using assms
  by (simp add: autocommit_def update_wallet_balance_def wallet_by_id_def Let_def guard_not_def
      set_updated_at_wallet_def wallets_check_def fn_wallet_balance_ledger_update_def)

lemma direct_balance_change_rejected_witness:
  "\<exists>e. fst (autocommit (update_wallet_balance 1 1000) demo_db) = Inl e \<and> sqlstate e = ''WL006''"
  using direct_balance_change_rejected [of demo_db 1 "demo_wallet 1 14000000" 1000]
  by (simp add: demo_defs wallet_by_id_def int8_ok_def)

end
