(* ===== verification/Http_Theorems.thy ===== *)
theory Http_Theorems
  imports System_Theorems Transfer_Theorems
begin

text \<open>
  What a client of the HTTP server sees: requests without a valid token, the answer of a transfer
  request from the bearer token to the status code, and what an error discloses.
\<close>

section \<open>Refusals\<close>

text \<open>The errors of the middlewares: application errors the error handler sends as they are.\<close>

definition refusal :: "js_error \<Rightarrow> bool" where
  "refusal e \<longleftrightarrow> instanceof_AppError e \<and> err_type e = None \<and> err_statusCode e \<in> {400, 401, 403, 404} \<and>
     (\<forall>c. err_code e = Some c \<longrightarrow> \<not> mapped_code c)"

lemma refusal_AppError:
  "status \<in> {400, 401, 403, 404} \<Longrightarrow> \<not> mapped_code code \<Longrightarrow> refusal (AppError status code msg details)"
  by (simp add: refusal_def AppError_def)

lemma refusal_authenticate: "authenticate (token_verify J secret now) header = Inl e \<Longrightarrow> refusal e"
  by (auto simp: authenticate_def token_verify_def unauthorized_def mapped_code_iff
      intro!: refusal_AppError split: option.splits jwt_result.splits)

lemma refusal_authorize: "authorize roles user = Inl e \<Longrightarrow> refusal e"
  by (auto simp: authorize_def unauthorized_def forbidden_def mapped_code_iff
      intro!: refusal_AppError split: option.splits if_splits)

lemma refusal_validate: "validate Z S rq = Inl e \<Longrightarrow> refusal e"
  by (auto simp: validate_def badRequest_def mapped_code_iff Let_def
      intro!: refusal_AppError split: prod.splits if_splits)

lemma refusal_middleware: "run_middleware A now mw rq = Inl e \<Longrightarrow> refusal e"
  by (cases mw) (auto simp: run_middleware_def dest: refusal_authenticate refusal_authorize refusal_validate
      split: sum.splits)

lemma refusal_middlewares: "run_middlewares A now mws rq = Inl e \<Longrightarrow> refusal e"
  by (induction mws arbitrary: rq) (auto dest: refusal_middleware split: sum.splits)

lemma refusal_router: "run_router A now prefix ls rq = Inl e \<Longrightarrow> refusal e"
  by (induction A now prefix ls rq rule: run_router.induct)
    (auto dest: refusal_middlewares split: sum.splits option.splits)

lemma refusal_routers: "run_routers A now rs rq = Inl e \<Longrightarrow> refusal e"
  by (induction A now rs rq rule: run_routers.induct)
    (auto dest: refusal_router split: sum.splits option.splits if_splits)

lemma refusal_not_found: "refusal (notFoundHandler rq)"
  by (simp add: notFoundHandler_def notFound_def refusal_AppError mapped_code_iff)

lemma errorHandler_refusal:
  assumes "refusal e"
  shows "errorHandler e w =
    (Inr \<lparr>rsp_status = err_statusCode e, rsp_body = PError (error_code e) (err_message e) (err_details e)\<rparr>, w)"
proof -
  have "translate_error e = e"
    using assms by (simp add: refusal_def translate_error_def mapDatabaseError_unmapped)
  with assms show ?thesis by (simp add: errorHandler_def refusal_def)
qed

text \<open>What \<open>app\<close> does once the routers have decided.\<close>

lemma app_split:
  assumes "rq_body rq = Inr v"
  shows "app E A rq w = (case run_routers A (clock E (trace w)) createRouter rq of
      Inl e \<Rightarrow> errorHandler e w
    | Inr (None, rq') \<Rightarrow> errorHandler (notFoundHandler rq') w
    | Inr (Some h, rq') \<Rightarrow> try_catch (handle E A h rq') errorHandler w)"
  using assms by (simp add: app_def dispatch_def try_catch_def split: sum.split option.split prod.split)

lemma guarded_user:
  assumes "run_routers A now createRouter rq = Inr (Some h, rq')" "fresh_request rq" "\<not> public_handler h"
  shows "\<exists>u. authenticate (token_verify (api_jwt A) (api_secret A) now) (rq_authorization rq) = Inr u"
proof -
  have "reached A now rq (guard_table createRouter) h rq'"
    using assms(1) genuine_fresh [OF assms(2)] by (rule run_routers_reached)
  then obtain acc mws where g: "(h, acc, mws) \<in> set (guard_table createRouter)"
    "genuine A now rq rq'" "passed (acc @ mws) rq'"
    unfolding reached_def by blast
  then have "Authenticate \<in> set (acc @ mws)"
    using assms(3) unfolding guard_table_createRouter list.set insert_iff empty_iff prod.inject
    by (elim disjE conjE FalseE) (simp_all add: public_handler_def)
  with g(2,3) show ?thesis by (auto simp: passed_def genuine_def)
qed


definition demo_anonymous :: http_request where
  "demo_anonymous = demo_request ''GET'' ''/api/wallets/me'' None JUndefined"

lemma demo_anonymous_run: "\<exists>e. run_routers demo_api now createRouter demo_anonymous = Inl e"
  by (simp add: createRouter_def wallet_router_def demo_anonymous_def demo_request_def demo_api_def demo_express_def
      run_middleware_def authenticate_def extractBearerToken_def)


section \<open>The answer of a transfer request\<close>

text \<open>What the API promises for a transfer of \<open>a\<close> from \<open>f\<close> to \<open>t\<close>, over the abstract bank: a status
  and an error code, or the balances afterwards.\<close>

definition transfer_answer :: "int \<Rightarrow> int \<Rightarrow> int \<Rightarrow> bank \<Rightarrow> int \<times> string + bank" where
  "transfer_answer f t a b =
     (if f = t then Inl (400, ''SELF_TRANSFER_NOT_ALLOWED'')
      else case b f of None \<Rightarrow> Inl (404, ''SENDER_WALLET_NOT_FOUND'') | Some x \<Rightarrow>
        (case b t of None \<Rightarrow> Inl (404, ''RECIPIENT_NOT_FOUND'') | Some y \<Rightarrow>
           if x < a then Inl (422, ''INSUFFICIENT_FUNDS'') else Inr (b(f \<mapsto> x - a, t \<mapsto> y + a))))"

text \<open>The message that comes with each code.\<close>

definition refusal_message :: "string \<Rightarrow> string" where
  "refusal_message code =
     (if code = ''INVALID_AMOUNT'' then ''Transfer amount must be greater than zero''
      else if code = ''SELF_TRANSFER_NOT_ALLOWED'' then ''Cannot transfer funds to the same wallet''
      else if code = ''SENDER_WALLET_NOT_FOUND'' then ''Sender wallet not found''
      else if code = ''RECIPIENT_NOT_FOUND'' then ''Recipient wallet not found''
      else ''Insufficient funds'')"

lemma refusal_message_wl:
  "DATABASE_ERRORS c = Some (status, code) \<Longrightarrow> sqlerrm (wl c) = refusal_message code"
  by (auto simp: DATABASE_ERRORS_def wl_def refusal_message_def split: if_splits)

lemma errorHandler_database:
  assumes "DATABASE_ERRORS c = Some (status, code)"
  shows "errorHandler (pg_error (wl c)) w =
    (Inr \<lparr>rsp_status = status, rsp_body = PError code (refusal_message code) None\<rparr>, w)"
proof -
  have "sqlstate (wl c) = c" by (simp add: wl_def)
  then show ?thesis
    using assms refusal_message_wl [OF assms]
    by (simp add: errorHandler_def translate_error_def mapDatabaseError_def pg_error_def
        error_code_def other_error_def AppError_def)
qed

text \<open>The statement of the procedure agrees with the promise.\<close>

lemma transfer_outcome_answer:
  assumes ok: "db_ok d" and iss: "issued d < 2 ^ 63" and a: "0 < a"
    and descr: "description_column ds = Inr descr" and new: "next_uuid d \<notin> t_id ` set (transactions d)"
  shows "case transfer_answer f t a (bank_of d) of
      Inl p \<Rightarrow> (\<exists>c. transfer_outcome f t (Some a) ds th d = (Inl (wl c), d) \<and> DATABASE_ERRORS c = Some p)
    | Inr b \<Rightarrow> (\<exists>tid st d'. transfer_outcome f t (Some a) ds th d = (Inr (tid, st), d') \<and>
        st = (if a > th then PENDING else NOT_REQUIRED) \<and> bank_of d' = b)"
proof (cases "\<exists>fw tw. f \<noteq> t \<and> wallet_of d f = Some fw \<and> wallet_of d t = Some tw \<and> a \<le> w_balance fw")
  case True
  then obtain fw tw where h: "f \<noteq> t" "wallet_of d f = Some fw" "wallet_of d t = Some tw" "a \<le> w_balance fw" by blast
  have "int8_ok (w_balance tw + a)" using ok iss h(2,3,1) a h(4) by (rule transfer_credit_in_range)
  with h a descr new obtain d' where out: "transfer_outcome f t (Some a) ds th d =
      (Inr (next_uuid d, if a > th then PENDING else NOT_REQUIRED), d')"
    by (simp add: transfer_outcome_def Let_def)
  from bank_of_transfer_outcome [OF ok out] h a show ?thesis
    using out by (simp add: transfer_answer_def bank_of_def bank_transfer_def)
next
  case False
  then show ?thesis using a
    by (auto simp: transfer_answer_def transfer_outcome_def bank_of_def split: option.splits)
qed

lemma conforms_transfer_input:
  assumes "conforms transferBody b"
  shows "\<exists>t a descr. js_get b ''toUserId'' = JInt t \<and> js_get b ''amount'' = JInt a \<and> 0 < a \<and> isSafeInteger a \<and>
     description_column (js_string (js_get b ''description'')) = Inr descr"
  using assms
proof (rule conforms_transferBody)
  fix u a
  assume b: "js_get b ''toUserId'' = JInt u" "js_get b ''amount'' = JInt a" "0 < a" "a \<le> MAX_SAFE_INTEGER"
    and s: "js_get b ''description'' = JUndefined \<or> (\<exists>s. js_get b ''description'' = JStr s \<and> length s \<le> 255 \<and> js_trim s = s)"
  from s have "\<exists>descr. description_column (js_string (js_get b ''description'')) = Inr descr"
    by (auto simp: js_string_def description_column_def varchar_def)
  with b show ?thesis by (auto simp: isSafeInteger_def)
qed

text \<open>The request handed to the transfer handler, and the database its statement finds.\<close>

definition transfer_at :: "env \<Rightarrow> world \<Rightarrow> bool" where
  "transfer_at E w \<longleftrightarrow> quiet E \<and> db_ok (database w) \<and> db_safe (database w) \<and> issued (database w) < 2 ^ 63 \<and>
     gen_uuid E (trace w @ [EvQuery ''CALL transfer_funds'']) \<notin> t_id ` set (transactions (database w))"

lemma issued_at_query: "issued (at_query E lbl w) = issued (database w)"
  by (simp add: issued_def at_query_def)

lemma handle_transfer:
  assumes "rq_user rq = Some u" "au_id u = Some f" "js_get (validated rq ''body'') ''toUserId'' = JInt t"
    "js_get (validated rq ''body'') ''amount'' = JInt a"
  shows "handle E A CreateTransfer rq = ok_json 201 PTransaction
    (transfer_service E (api_threshold A) f t (Some a) (js_string (js_get (validated rq ''body'') ''description'')))"
  using assms by (simp add: handle_def transfer_controller_create_def req_user_def bigint_param_def js_int_def Let_def)

text \<open>The answer of the controller and the error handler to a validated transfer.\<close>

lemma transfer_answered:
  assumes at: "transfer_at E w" and a: "0 < a" "isSafeInteger a" and descr: "description_column ds = Inr descr"
  shows "\<exists>rsp w'. try_catch (ok_json 201 PTransaction (transfer_service E th f t (Some a) ds)) errorHandler w =
      (Inr rsp, w') \<and>
    (case transfer_answer f t a (bank_of (database w)) of
       Inl (status, code) \<Rightarrow> rsp_status rsp = status \<and> rsp_body rsp = PError code (refusal_message code) None \<and>
         tables (database w') = tables (database w)
     | Inr b \<Rightarrow> rsp_status rsp = 201 \<and> bank_of (database w') = b \<and>
         (\<exists>T. rsp_body rsp = PTransaction (Some T) \<and> tx_amount T = a \<and> p_userId (tx_from T) = f \<and>
            p_userId (tx_to T) = t \<and> tx_receiptStatus T = (if a > th then PENDING else NOT_REQUIRED)))"
proof -
  from at have env: "quiet E" "db_ok (database w)" "db_safe (database w)" "issued (database w) < 2 ^ 63"
    "gen_uuid E (trace w @ [EvQuery ''CALL transfer_funds'']) \<notin> t_id ` set (transactions (database w))"
    by (simp_all add: transfer_at_def)
  let ?d = "at_query E ''CALL transfer_funds'' w"
  have bank: "bank_of ?d = bank_of (database w)" by (rule bank_of_tables) simp
  have "db_ok ?d" "issued ?d < 2 ^ 63" "next_uuid ?d \<notin> t_id ` set (transactions ?d)"
    using env by (simp_all add: issued_at_query) (simp add: at_query_def)
  note answer = transfer_outcome_answer [OF this(1,2) a(1) descr this(3), of f t th]
  show ?thesis
  proof (cases "transfer_answer f t a (bank_of (database w))")
    case (Inl p)
    with answer bank
    obtain c where c: "transfer_outcome f t (Some a) ds th ?d = (Inl (wl c), ?d)" "DATABASE_ERRORS c = Some p" by auto
    obtain w' where run: "transfer_service E th f t (Some a) ds w = (Inl (pg_error (wl c)), w')"
      "tables (database w') = tables (database w)"
      using transfer_service_failure [OF env(1,2) c(1)] by blast
    obtain status code where p: "p = (status, code)" by (cases p)
    note errorHandler_database [OF c(2) [unfolded p], of w']
    with run Inl p show ?thesis by (simp add: try_catch_def ok_json_def)
  next
    case (Inr x)
    with answer bank
    obtain tid d' where out: "transfer_outcome f t (Some a) ds th ?d =
        (Inr (tid, if a > th then PENDING else NOT_REQUIRED), d')" "bank_of d' = x" by auto
    from transfer_service_success [OF env(1-3) a(2) out(1)] obtain T w' where
      run: "transfer_service E th f t (Some a) ds w = (Inr (Some T), w')" "tx_amount T = a"
        "tx_receiptStatus T = (if a > th then PENDING else NOT_REQUIRED)"
        "p_userId (tx_from T) = f" "p_userId (tx_to T) = t" "tables (database w') = tables d'" by blast
    moreover have "bank_of (database w') = x" using bank_of_tables [OF run(6)] out(2) by simp
    ultimately show ?thesis using Inr by (simp add: try_catch_def ok_json_def)
  qed
qed

text \<open>C4: what a client gets for a transfer, from its bearer token to the balances, with no fault and no
  other session acting. When the request
  gets through to the handler with a user whose id is a number, the body holds a recipient and a
  positive amount, and the answer is the one promised over the abstract bank: 400 for a transfer
  to oneself, 404 for a missing wallet of the sender or of the recipient, 422 when the balance
  does not suffice, each with its code and message and without any change of a table; otherwise 201 with the
  transaction, the sender being the user of the token, and exactly the promised balances.\<close>
theorem transfer_request_answer:
  assumes "transfer_at E w" and "zod_sound (api_zod A)" and "fresh_request rq" and "rq_body rq = Inr v"
    and "run_routers A (clock E (trace w)) createRouter rq = Inr (Some CreateTransfer, rq')"
    and "rq_user rq' = Some u" and "au_id u = Some f"
  shows "\<exists>t a rsp w'. js_get (validated rq' ''body'') ''toUserId'' = JInt t \<and>
    js_get (validated rq' ''body'') ''amount'' = JInt a \<and> 0 < a \<and> app E A rq w = (Inr rsp, w') \<and>
    (case transfer_answer f t a (bank_of (database w)) of
       Inl (status, code) \<Rightarrow> rsp_status rsp = status \<and> rsp_body rsp = PError code (refusal_message code) None \<and>
         tables (database w') = tables (database w)
     | Inr b \<Rightarrow> rsp_status rsp = 201 \<and> bank_of (database w') = b \<and>
         (\<exists>T. rsp_body rsp = PTransaction (Some T) \<and> tx_amount T = a \<and> p_userId (tx_from T) = f \<and>
            p_userId (tx_to T) = t \<and> tx_receiptStatus T = (if a > api_threshold A then PENDING else NOT_REQUIRED)))"
proof -
  let ?b = "validated rq' ''body''"
  have "reached A (clock E (trace w)) rq (guard_table createRouter) CreateTransfer rq'"
    using assms(5) genuine_fresh [OF assms(3)] by (rule run_routers_reached)
  from reached_table [OF this assms(2)] have "conforms transferBody ?b" by (simp add: input_of_def)
  from conforms_transfer_input [OF this] obtain t a descr where b: "js_get ?b ''toUserId'' = JInt t"
    "js_get ?b ''amount'' = JInt a" "0 < a" "isSafeInteger a"
    "description_column (js_string (js_get ?b ''description'')) = Inr descr" by blast
  have "app E A rq w = try_catch (ok_json 201 PTransaction
      (transfer_service E (api_threshold A) f t (Some a) (js_string (js_get ?b ''description'')))) errorHandler w"
    using assms(5) handle_transfer [OF assms(6,7) b(1,2)] by (simp add: app_split [OF assms(4)])
  with b transfer_answered [OF assms(1) b(3-5), of "api_threshold A" f t] show ?thesis by auto
qed

lemma demo_transfer_at: "transfer_at demo_env demo_world"
  by (simp add: transfer_at_def quiet_demo db_ok_demo db_safe_demo)
    (simp add: demo_defs demo_env_def issued_def opening_amount_def)

theorem transfer_request_answer_witness:
  "\<exists>rsp w'. app demo_env demo_api demo_transfer demo_world = (Inr rsp, w') \<and> rsp_status rsp = 201 \<and>
     bank_of (database w') 2 = Some 17000000"
proof -
  have h: "zod_sound (api_zod demo_api)" "fresh_request demo_transfer"
    "rq_body demo_transfer = Inr (JObject [(''toUserId'', JInt 2), (''amount'', JInt 6000000)])"
    "run_routers demo_api (clock demo_env (trace demo_world)) createRouter demo_transfer =
      Inr (Some CreateTransfer, guarded_transfer)"
    using demo_zod_sound run_demo_transfer
    by (simp_all add: demo_env_def) (simp_all add: demo_api_def demo_transfer_def demo_request_def fresh_request_def)
  have u: "rq_user guarded_transfer = Some \<lparr>au_id = Some 1, au_role = ''USER'', au_username = ''ali'', au_expiresAt = 4100000\<rparr>"
    "au_id \<lparr>au_id = Some 1, au_role = ''USER'', au_username = ''ali'', au_expiresAt = 4100000\<rparr> = Some 1"
    by (simp_all add: guarded_transfer_def)
  have body: "validated guarded_transfer ''body'' = JObject [(''toUserId'', JInt 2), (''amount'', JInt 6000000)]"
    by (simp add: guarded_transfer_def validated_def)
  have "transfer_answer 1 2 6000000 (bank_of (database demo_world)) =
      Inr ((bank_of demo_db)(1 \<mapsto> 8000000, 2 \<mapsto> 17000000))"
    by (simp add: transfer_answer_def) (simp add: demo_defs bank_of_def wallet_of_def)
  with transfer_request_answer [OF demo_transfer_at h u] show ?thesis
    by (auto simp: body js_get_def)
qed

end
