(* ===== verification/Docs.thy ===== *)
theory Docs
  imports Http_Theorems
begin

text \<open>
  The whole of \<open>src/app.js\<close>: the preflight requests \<open>cors()\<close> answers, and the documentation of
  \<open>src/routes/docs.routes.js\<close>, which \<open>src/routes/index.js\<close> mounts before the routes of \<open>Http_Api\<close>. Swagger
  UI is a parameter; what is proved is that none of this touches the service.
\<close>

section \<open>The documentation\<close>

definition OPENAPI_PATH :: string where
  "OPENAPI_PATH = ''docs/openapi.yaml''"

text \<open>\<open>YAML.parse(fs.readFileSync(\<dots>, 'utf8'))\<close>, when the router is made.\<close>

definition loadOpenApiDocument ::
  "(string \<Rightarrow> js_error + string) \<Rightarrow> (string \<Rightarrow> js_error + js_value) \<Rightarrow> js_error + js_value" where
  "loadOpenApiDocument readFileSync YAML_parse =
     (case readFileSync OPENAPI_PATH of Inl e \<Rightarrow> Inl e | Inr content \<Rightarrow> YAML_parse content)"

text \<open>\<open>ds_swagger_ui\<close>: the page or the asset served for a document and a title; \<open>ds_cors_answers\<close>: the
  preflight requests \<open>cors()\<close> answers itself.\<close>

record docs =
  ds_cors_answers :: "http_request \<Rightarrow> bool"
  ds_document :: js_value
  ds_swagger_ui :: "js_value \<Rightarrow> string \<Rightarrow> http_request \<Rightarrow> string"

datatype site_answer =
    ApiAnswer response
  | Preflight
  | OpenApiDocument js_value
  | DocsPage string

definition createDocsRouter :: "express \<Rightarrow> docs \<Rightarrow> http_request \<Rightarrow> site_answer option" where
  "createDocsRouter X D rq =
     (if ex_params X [] ''/api-docs.json'' ''GET'' rq \<noteq> None then Some (OpenApiDocument (ds_document D))
      else if ex_mounted X ''/api-docs'' rq
      then Some (DocsPage (ds_swagger_ui D (ds_document D) ''Digital Wallet API'' rq))
      else None)"

section \<open>The application\<close>

text \<open>First \<open>cors()\<close>, then comes \<open>express.json()\<close>, then the routers.\<close>

definition createApp :: "env \<Rightarrow> api \<Rightarrow> docs \<Rightarrow> http_request \<Rightarrow> site_answer js" where
  "createApp E A D rq =
     (if ds_cors_answers D rq then ret Preflight
      else case (rq_body rq, createDocsRouter (api_express A) D rq) of
        (Inr _, Some page) \<Rightarrow> ret page
      | _ \<Rightarrow> await (app E A rq) (\<lambda>rsp. ret (ApiAnswer rsp)))"

lemma createApp_api:
  "\<not> ds_cors_answers D rq \<Longrightarrow> createDocsRouter (api_express A) D rq = None \<Longrightarrow>
   createApp E A D rq = await (app E A rq) (\<lambda>rsp. ret (ApiAnswer rsp))"
  by (simp add: createApp_def split: sum.splits)

text \<open>Either the service answers, or nothing happens at all.\<close>

lemma createApp_cases:
  obtains (page) page where "createApp E A D rq w = (Inr page, w)" "\<And>rsp. page \<noteq> ApiAnswer rsp"
  | (api) "createApp E A D rq w = await (app E A rq) (\<lambda>rsp. ret (ApiAnswer rsp)) w"
proof (cases "ds_cors_answers D rq \<or> (\<exists>v. rq_body rq = Inr v) \<and> createDocsRouter (api_express A) D rq \<noteq> None")
  case True
  have "createDocsRouter (api_express A) D rq = Some p \<Longrightarrow> p \<noteq> ApiAnswer rsp" for p rsp
    by (auto simp: createDocsRouter_def split: if_splits)
  with True have "\<exists>p. createApp E A D rq w = (Inr p, w) \<and> (\<forall>rsp. p \<noteq> ApiAnswer rsp)"
    by (cases "rq_body rq") (auto simp: createApp_def)
  with page show ?thesis by blast
next
  case False
  then show ?thesis by (intro api) (auto simp: createApp_def split: sum.splits option.splits)
qed

text \<open>Every request is answered: no error leaves the application.\<close>

lemma createApp_always_answers: "\<exists>rsp w'. createApp E A D rq w = (Inr rsp, w')"
proof (cases rule: createApp_cases [of E A D rq w])
  case api
  have "\<exists>rsp w'. errorHandler e v = (Inr rsp, w')" for e v
    by (simp add: errorHandler_def log_msg_def call_def Let_def)
  then have "\<exists>rsp w'. app E A rq w = (Inr rsp, w')"
    by (auto simp: app_def try_catch_def split: prod.splits sum.splits)
  with api show ?thesis by auto
qed simp

context program_invariant
begin

lemma keeps_createApp [keeps_intros]:
  assumes "others_keep P E" "fresh_request rq" "\<And>n. acts_for A rq n \<Longrightarrow> payer n"
  shows "keeps (idle_inv P) (createApp E A D rq)"
proof -
  have "keeps (idle_inv P) (await (app E A rq) (\<lambda>rsp. ret (ApiAnswer rsp)))"
    using keeps_app [OF assms] by (intro keeps_await keeps_ret)
  then show ?thesis unfolding createApp_def by (auto intro!: keeps_ret split: sum.splits option.splits)
qed

end

end
