(* ===== verification/Listing_Theorems.thy ===== *)
theory Listing_Theorems
  imports Service_Theorems
begin

text \<open>
  Who sees which transaction, and what the list endpoints answer: the transactions of a user,
  newest first, page by page, and the pages put together.
\<close>

section \<open>Who may see a transaction\<close>

text \<open>C17: in every environment, with failures and with any number of other sessions, a
  transaction is only ever returned to an administrator or to one of its two parties; the same
  holds of the download link of its receipt, which is only signed for a generated receipt.\<close>
theorem transactions_are_private:
  "(fst (transaction_getById E tid requester w) = Inr t \<longrightarrow>
      au_role requester = ''ADMIN'' \<or> Some (p_userId (tx_from t)) = au_id requester \<or>
      Some (p_userId (tx_to t)) = au_id requester) \<and>
   (fst (transaction_getReceiptDownloadUrl E C tid requester w) = Inr url \<longrightarrow>
      (\<exists>t. fst (transaction_getById E tid requester w) = Inr t \<and> canView t requester \<and>
         tx_receiptStatus t = GENERATED))"
proof -
  have see: "canView t requester" if "transaction_getById E tid requester w = (Inr t, u)" for t u
    using that unfolding transaction_getById_def
    by (auto elim!: await_InrE split: option.splits if_splits)
  show ?thesis
  proof (intro conjI impI)
    assume "fst (transaction_getById E tid requester w) = Inr t"
    with see show "au_role requester = ''ADMIN'' \<or> Some (p_userId (tx_from t)) = au_id requester \<or>
      Some (p_userId (tx_to t)) = au_id requester"
      by (cases "transaction_getById E tid requester w") (simp add: canView_def ROLE_ADMIN_def)
  next
    assume "fst (transaction_getReceiptDownloadUrl E C tid requester w) = Inr url"
    then obtain w' where "transaction_getReceiptDownloadUrl E C tid requester w = (Inr url, w')"
      by (cases "transaction_getReceiptDownloadUrl E C tid requester w") simp
    then obtain t u where "transaction_getById E tid requester w = (Inr t, u)" "tx_receiptStatus t = GENERATED"
      unfolding transaction_getReceiptDownloadUrl_def by (auto elim!: await_InrE split: if_splits)
    with see show "\<exists>t. fst (transaction_getById E tid requester w) = Inr t \<and> canView t requester \<and>
      tx_receiptStatus t = GENERATED" by force
  qed
qed

theorem transactions_are_private_witness:
  "\<exists>t. fst (transaction_getById demo_env ''t0''
       \<lparr>au_id = Some 1, au_role = ''USER'', au_username = ''ali'', au_expiresAt = 0\<rparr> demo_world) = Inr t \<and>
     (p_userId (tx_from t) = 1 \<or> p_userId (tx_to t) = 1)"
proof -
  obtain t where "fst (transaction_getById demo_env ''t0''
       \<lparr>au_id = Some 1, au_role = ''USER'', au_username = ''ali'', au_expiresAt = 0\<rparr> demo_world) = Inr t"
    by (simp add: transaction_getById_def transactions_findById_def join_details_def owner_of_wallet_def
        wallet_by_id_def toTransaction_def canView_def details_int8s_def demo_eval)
  with transactions_are_private [of demo_env "''t0''"
      "\<lparr>au_id = Some 1, au_role = ''USER'', au_username = ''ali'', au_expiresAt = 0\<rparr>" demo_world t] show ?thesis
    by auto
qed

definition transaction_not_found :: js_error where
  "transaction_not_found = notFound (Some ''Transaction not found'') (Some ''TRANSACTION_NOT_FOUND'')"

definition stored_transaction :: "db \<Rightarrow> uuid \<Rightarrow> transaction option" where
  "stored_transaction d tid =
     map_option toTransaction (Option.bind (find (\<lambda>x. t_id x = tid) (transactions d)) (join_details d))"

lemma stored_details_safe:
  assumes "db_safe d" "Option.bind (find (\<lambda>x. t_id x = tid) (transactions d)) (join_details d) = Some r"
  shows "list_all isSafeInteger (details_int8s r)"
  using assms by (auto simp: bind_eq_Some_conv dest!: find_SomeD intro: join_details_safe)

lemma findById_stored:
  assumes "quiet E" "db_safe (database w)"
  shows "transactions_findById E tid Pool w =
    (Inr (stored_transaction (database w) tid), after_read E ''transactions.findById'' w)"
  unfolding stored_transaction_def
  by (rule findById_quiet [OF assms(1) refl]) (rule stored_details_safe [OF assms(2)])

text \<open>A transaction that exists but is not the requester's is answered exactly as one that does
  not exist: same error, same calls, so the response does not reveal which ids are in use.\<close>
lemma hidden_is_not_found:
  assumes "quiet E" and "db_safe (database w)"
  shows "fst (transaction_getById E tid requester w) =
      (case stored_transaction (database w) tid of
         None \<Rightarrow> Inl transaction_not_found
       | Some t \<Rightarrow> if canView t requester then Inr t else Inl transaction_not_found) \<and>
    trace (snd (transaction_getById E tid requester w)) = trace w @ [EvQuery ''transactions.findById'']"
  by (auto simp: transaction_getById_def transaction_not_found_def findById_stored [OF assms] await_def
      split: option.split)

lemma hidden_is_not_found_witness:
  "fst (transaction_getById demo_env ''t0'' \<lparr>au_id = Some 7, au_role = ''USER'', au_username = ''eve'', au_expiresAt = 0\<rparr> demo_world)
     = fst (transaction_getById demo_env ''none'' \<lparr>au_id = Some 7, au_role = ''USER'', au_username = ''eve'', au_expiresAt = 0\<rparr> demo_world)"
  unfolding hidden_is_not_found [OF demo_safe_args(1,3), THEN conjunct1]
  by (simp add: demo_defs stored_transaction_def join_details_def owner_of_wallet_def wallet_by_id_def
      toTransaction_def canView_def ROLE_ADMIN_def)

section \<open>The transactions of a user\<close>

lemma join_details_iff:
  assumes ok: "db_ok d" and t: "t \<in> set (transactions d)"
  obtains fw tw fu tu where "fw \<in> set (wallets d)" "w_id fw = t_from_wallet_id t" "tw \<in> set (wallets d)"
    "w_id tw = t_to_wallet_id t" "u_id fu = w_user_id fw" "u_id tu = w_user_id tw"
    "join_details d t = Some (t, fu, tu)"
proof -
  from ok have wf: "wf_wallets d" "wf_users d" "wf_transactions d" by (simp_all add: db_ok_def)
  have "t_from_wallet_id t \<in> w_id ` set (wallets d)" "t_to_wallet_id t \<in> w_id ` set (wallets d)"
    using wf(3) t by (simp_all add: wf_transactions_def)
  then obtain fw tw where w: "fw \<in> set (wallets d)" "w_id fw = t_from_wallet_id t" "tw \<in> set (wallets d)"
    "w_id tw = t_to_wallet_id t" by (metis imageE)
  then have "w_user_id fw \<in> u_id ` set (users d)" "w_user_id tw \<in> u_id ` set (users d)"
    using wf(1) by (simp_all add: wf_wallets_def)
  then obtain fu tu where u: "fu \<in> set (users d)" "u_id fu = w_user_id fw" "tu \<in> set (users d)"
    "u_id tu = w_user_id tw" by (metis imageE)
  have us: "find (\<lambda>u. u_id u = w_user_id fw) (users d) = Some fu"
    "find (\<lambda>u. u_id u = w_user_id tw) (users d) = Some tu"
    using u wf(2) by (simp_all add: find_Some_iff_mem wf_users_def)
  have ws: "wallet_by_id d (t_from_wallet_id t) = Some fw" "wallet_by_id d (t_to_wallet_id t) = Some tw"
    using w by (simp_all add: wallet_by_id_iff [OF wf(1)])
  from us ws have "join_details d t = Some (t, fu, tu)"
    by (simp add: join_details_def owner_of_wallet_def)
  with w u that show ?thesis by blast
qed

lemma sorted_order_desc: "sorted_wrt (\<lambda>x y. a y \<le> a x) (order_desc a b rows)"
proof -
  have "sorted (map a (sort_key a (sort_key b rows)))" by (rule sorted_sort_key)
  then show ?thesis
    by (simp add: order_desc_def sorted_wrt_rev sorted_map)
qed

lemma sorted_wrt_toTransaction:
  "sorted_wrt (\<lambda>x y. t_created_at (fst y) \<le> t_created_at (fst x)) xs \<Longrightarrow>
   sorted_wrt (\<lambda>x y. tx_createdAt y \<le> tx_createdAt x) (map toTransaction xs)"
  by (simp add: sorted_wrt_map toTransaction_def split_beta)

text \<open>A user's list holds exactly the transactions the user is a party of, that is, the ones
  \<open>canView\<close> grants a requester who is no administrator, newest first.\<close>
lemma list_for_user_is_what_the_user_may_see:
  assumes "db_ok d" and "wallet_of d uid \<noteq> None" and "au_id requester = Some uid" and "au_role requester \<noteq> ''ADMIN''"
  shows "set (map toTransaction (details_of_user uid d)) =
      {T \<in> set (map toTransaction (ordered_details d (transactions d))). canView T requester} \<and>
    sorted_wrt (\<lambda>x y. tx_createdAt y \<le> tx_createdAt x) (map toTransaction (details_of_user uid d))"
proof -
  from assms(2) obtain w where w: "wallet_of d uid = Some w" by blast
  from assms(1) have wf: "wf_wallets d" by (simp add: db_ok_def)
  have mem: "w \<in> set (wallets d)" "w_user_id w = uid" using w by (auto simp: wallet_of_iff [OF wf])
  have party: "(t_from_wallet_id t = w_id w \<or> t_to_wallet_id t = w_id w) \<longleftrightarrow> canView (toTransaction (t, fu, tu)) requester"
    if t: "t \<in> set (transactions d)" and j: "join_details d t = Some (t, fu, tu)" for t fu tu
  proof -
    have inj: "v \<in> set (wallets d) \<Longrightarrow> w_id v = w_id w \<longleftrightarrow> w_user_id v = uid" for v
      using wf mem by (auto simp: wf_wallets_def dest: distinct_map_inj)
    obtain fw tw fu' tu' where r: "fw \<in> set (wallets d)" "w_id fw = t_from_wallet_id t" "tw \<in> set (wallets d)"
      "w_id tw = t_to_wallet_id t" "u_id fu' = w_user_id fw" "u_id tu' = w_user_id tw"
      "join_details d t = Some (t, fu', tu')" by (rule join_details_iff [OF assms(1) t])
    from j r(7) have "fu' = fu" "tu' = tu" by simp_all
    with r have "(t_from_wallet_id t = w_id w) = (u_id fu = uid)" "(t_to_wallet_id t = w_id w) = (u_id tu = uid)"
      using inj [of fw] inj [of tw] by metis+
    then show ?thesis using assms(3,4)
      by (auto simp: canView_def ROLE_ADMIN_def toTransaction_def)
  qed
  have join: "\<exists>fu tu. join_details d t = Some (t, fu, tu)" if "t \<in> set (transactions d)" for t
    by (rule join_details_iff [OF assms(1) that]) blast
  have "set (details_of_user uid d) = {x \<in> set (ordered_details d (transactions d)). canView (toTransaction x) requester}"
    using party join w
    by (force simp: details_of_user_def ordered_details_def List.map_filter_def)
  then show ?thesis
    using sorted_wrt_toTransaction sorted_order_desc [of "t_created_at \<circ> fst"]
    by (auto simp: details_of_user_def ordered_details_def)
qed

lemma list_for_user_is_what_the_user_may_see_witness:
  "map toTransaction (details_of_user 1 demo_db) \<noteq> [] \<and>
   list_all (\<lambda>T. canView T \<lparr>au_id = Some 1, au_role = ''USER'', au_username = ''ali'', au_expiresAt = 0\<rparr>)
     (map toTransaction (details_of_user 1 demo_db))"
proof -
  have "wallet_of demo_db 1 \<noteq> None" "details_of_user 1 demo_db \<noteq> []"
    by (simp_all add: demo_defs wallet_of_def details_of_user_def ordered_details_def List.map_filter_def
        join_details_def owner_of_wallet_def wallet_by_id_def order_desc_def)
  with list_for_user_is_what_the_user_may_see [OF db_ok_demo, of 1
      "\<lparr>au_id = Some 1, au_role = ''USER'', au_username = ''ali'', au_expiresAt = 0\<rparr>"]
  show ?thesis by (simp add: list_all_iff)
qed

section \<open>Pages\<close>

definition page_of :: "'a list \<Rightarrow> int \<Rightarrow> int \<Rightarrow> 'a paginated" where
  "page_of xs page limit =
     (let s = slice limit ((page - 1) * limit) xs; n = reported_total s xs in
      \<lparr>pg_items = s, pg_pagination =
         \<lparr>pg_page = page, pg_limit = limit, pg_total = n, pg_totalPages = ceil_div n limit\<rparr>\<rparr>)"

definition page_ok :: "int \<Rightarrow> int \<Rightarrow> bool" where
  "page_ok page limit \<longleftrightarrow> 1 \<le> page \<and> 1 \<le> limit \<and> int8_ok limit \<and> int8_ok ((page - 1) * limit)"

lemma list_endpoints:
  assumes "quiet E" "db_safe (database w)" "page_ok page limit"
  shows "fst (wallet_getLedger E uid page limit w) =
      Inr (page_of (map toLedgerEntry (ledger_rows_of_user uid (database w))) page limit)"
    "fst (transaction_listForUser E uid page limit w) =
      Inr (page_of (map toTransaction (details_of_user uid (database w))) page limit)"
    "fst (transaction_listAll E page limit w) =
      Inr (page_of (map toTransaction (ordered_details (database w) (transactions (database w)))) page limit)"
  using assms user_ledger.response [of E w page limit uid] user_transactions.response [of E w page limit uid]
    all_transactions.response [of E w page limit]
  by (simp_all add: page_ok_def wallet_getLedger_def transaction_listForUser_def transaction_listAll_def
      toOffset_def page_of_def Let_def)

text \<open>Each list endpoint answers page \<open>p\<close> of limit \<open>l\<close> with the rows from \<open>(p - 1) * l\<close> on, at
  most \<open>l\<close> of them, and reports the page, the limit, the number of all rows and the number of
  pages, as long as the page has a row at all.\<close>
lemma pages_are_slices:
  assumes "quiet E" and "db_safe (database w)" and "page_ok page limit"
  shows "fst (wallet_getLedger E uid page limit w) =
      Inr (page_of (map toLedgerEntry (ledger_rows_of_user uid (database w))) page limit) \<and>
    fst (transaction_listForUser E uid page limit w) =
      Inr (page_of (map toTransaction (details_of_user uid (database w))) page limit) \<and>
    fst (transaction_listAll E page limit w) =
      Inr (page_of (map toTransaction (ordered_details (database w) (transactions (database w)))) page limit) \<and>
    (\<forall>xs :: ledger_obj list. page \<le> ceil_div (int (length xs)) limit \<longrightarrow>
       pg_items (page_of xs page limit) \<noteq> [] \<and> int (length (pg_items (page_of xs page limit))) \<le> limit \<and>
       pg_total (pg_pagination (page_of xs page limit)) = int (length xs))"
proof -
  have "0 < limit" "1 \<le> page" using assms(3) by (simp_all add: page_ok_def)
  then have "pg_items (page_of xs page limit) \<noteq> [] \<and> int (length (pg_items (page_of xs page limit))) \<le> limit \<and>
       pg_total (pg_pagination (page_of xs page limit)) = int (length xs)"
    if "page \<le> ceil_div (int (length xs)) limit" for xs :: "ledger_obj list"
    using that slice_nonempty_iff [of limit page xs]
    by (simp add: page_of_def reported_total_def Let_def) (simp add: slice_def)
  with list_endpoints [OF assms] show ?thesis by blast
qed

lemma page_ok_demo: "page_ok 1 1" "page_ok 2 1" "page_ok 3 1"
  by (simp_all add: page_ok_def int8_ok_def)

lemma pages_are_slices_witness:
  "\<exists>p. fst (wallet_getLedger demo_env 1 2 1 demo_world) = Inr p \<and> map entry_amount (pg_items p) = [20000000] \<and>
     pg_total (pg_pagination p) = 2"
  using pages_are_slices [OF demo_safe_args(1,3) page_ok_demo(2), of 1]
  by (simp add: demo_defs page_of_def slice_def reported_total_def ledger_rows_of_user_def order_desc_def
      toLedgerEntry_def Let_def)

text \<open>C20: reading all pages the first page announces, one after the other, gives every ledger entry
  of the user exactly once and in order.\<close>
theorem ledger_pages_cover_the_ledger:
  assumes "quiet E" and "db_safe (database w)" and "1 \<le> limit" and "int8_ok limit"
    and "int8_ok (int (length (ledger_rows_of_user uid (database w))))"
    and "fst (wallet_getLedger E uid 1 limit w) = Inr first"
  shows "concat (map (\<lambda>p. case fst (wallet_getLedger E uid (int p) limit w) of
            Inr q \<Rightarrow> pg_items q | Inl _ \<Rightarrow> [])
          [1..<Suc (nat (pg_totalPages (pg_pagination first)))]) =
     map toLedgerEntry (ledger_rows_of_user uid (database w))"
proof -
  let ?xs = "map toLedgerEntry (ledger_rows_of_user uid (database w))"
  have one: "page_ok 1 limit" using assms(3,4) by (simp add: page_ok_def int8_ok_def)
  have first: "first = page_of ?xs 1 limit"
    using assms(6) list_endpoints(1) [OF assms(1,2) one, of uid] by simp
  define n where "n = ceil_div (int (length ?xs)) limit"
  have b: "int (length ?xs) \<le> n * limit" "(n - 1) * limit < int (length ?xs)" "0 \<le> n"
    using ceil_div_bounds [of limit "int (length ?xs)"] assms(3)
    by (simp_all add: n_def) (simp add: ceil_div_def div_nonpos_pos_le0)
  have total: "pg_totalPages (pg_pagination first) = n"
  proof (cases "?xs = []")
    case True
    then show ?thesis by (simp add: first page_of_def reported_total_def slice_def n_def Let_def ceil_div_def)
  next
    case False
    with assms(3) show ?thesis
      by (simp add: first page_of_def reported_total_def slice_def n_def Let_def)
  qed
  have item: "(case fst (wallet_getLedger E uid (int p) limit w) of Inr q \<Rightarrow> pg_items q | Inl _ \<Rightarrow> []) =
      slice limit ((int p - 1) * limit) ?xs" if "p \<in> set [1..<Suc (nat n)]" for p
  proof -
    have p: "1 \<le> int p" "int p \<le> n" using that b(3) by auto
    then have "(int p - 1) * limit \<le> (n - 1) * limit" using assms(3) by (intro mult_right_mono) simp_all
    with b(2) have "(int p - 1) * limit < int (length ?xs)" by linarith
    moreover have "0 \<le> (int p - 1) * limit" using p assms(3) by simp
    moreover have "int (length ?xs) < 2 ^ 63" using assms(5) by (simp add: int8_ok_def)
    ultimately have "int8_ok ((int p - 1) * limit)" unfolding int8_ok_def by linarith
    then have "page_ok (int p) limit" using assms(3,4) p by (simp add: page_ok_def)
    from list_endpoints(1) [OF assms(1,2) this] show ?thesis by (simp add: page_of_def Let_def)
  qed
  have "int (length ?xs) \<le> int (nat n * nat limit)" using b(1,3) assms(3) by simp
  then have "length ?xs \<le> nat n * nat limit" by linarith
  then have all: "concat (map (\<lambda>p. slice limit ((int p - 1) * limit) ?xs) [1..<Suc (nat n)]) = ?xs"
    using assms(3) by (subst concat_slices) simp_all
  have "map (\<lambda>p. case fst (wallet_getLedger E uid (int p) limit w) of Inr q \<Rightarrow> pg_items q | Inl _ \<Rightarrow> [])
      [1..<Suc (nat n)] = map (\<lambda>p. slice limit ((int p - 1) * limit) ?xs) [1..<Suc (nat n)]"
    by (rule map_cong [OF refl item])
  then show ?thesis unfolding total by (simp only: all)
qed

theorem ledger_pages_cover_the_ledger_witness:
  "\<exists>first. fst (wallet_getLedger demo_env 1 1 1 demo_world) = Inr first \<and>
     concat (map (\<lambda>p. case fst (wallet_getLedger demo_env 1 (int p) 1 demo_world) of
            Inr q \<Rightarrow> pg_items q | Inl _ \<Rightarrow> [])
          [1..<Suc (nat (pg_totalPages (pg_pagination first)))]) =
     map toLedgerEntry (ledger_rows_of_user 1 demo_db)"
proof -
  have "int8_ok 1" "int8_ok (int (length (ledger_rows_of_user 1 (database demo_world))))"
    by (simp_all add: int8_ok_def ledger_rows_of_user_def demo_defs order_desc_def)
  moreover have "\<exists>first. fst (wallet_getLedger demo_env 1 1 1 demo_world) = Inr first"
    using list_endpoints(1) [OF demo_safe_args(1,3) page_ok_demo(1)] by blast
  ultimately show ?thesis
    using ledger_pages_cover_the_ledger [OF demo_safe_args(1,3), of 1 1] by auto
qed

text \<open>Beyond the last page the number of rows is not reported: the row count is read off the
  first row of the page, so a page past the end answers a total of 0 and 0 pages although the
  list is not empty.\<close>
lemma page_past_the_end_reports_no_rows:
  assumes "quiet E" and "db_safe (database w)" and "page_ok page limit"
    and "ceil_div (int (length (details_of_user uid (database w)))) limit < page"
  shows "fst (transaction_listForUser E uid page limit w) =
     Inr \<lparr>pg_items = [], pg_pagination =
            \<lparr>pg_page = page, pg_limit = limit, pg_total = 0, pg_totalPages = 0\<rparr>\<rparr>"
proof -
  have "slice limit ((page - 1) * limit) (map toTransaction (details_of_user uid (database w))) = []"
    using slice_nonempty_iff [of limit page "map toTransaction (details_of_user uid (database w))"] assms(3,4)
    by (simp add: page_ok_def)
  with list_endpoints(2) [OF assms(1-3), of uid] show ?thesis
    by (simp add: page_of_def reported_total_def Let_def ceil_div_def)
qed

lemma page_past_the_end_reports_no_rows_witness:
  "details_of_user 1 demo_db \<noteq> [] \<and>
   fst (transaction_listForUser demo_env 1 2 1 demo_world) =
     Inr \<lparr>pg_items = [], pg_pagination =
            \<lparr>pg_page = 2, pg_limit = 1, pg_total = 0, pg_totalPages = 0\<rparr>\<rparr>"
proof -
  have l: "length (details_of_user 1 demo_db) = 1"
    by (simp add: demo_defs wallet_of_def details_of_user_def ordered_details_def List.map_filter_def
        join_details_def owner_of_wallet_def wallet_by_id_def order_desc_def)
  then show ?thesis
    using page_past_the_end_reports_no_rows [OF demo_safe_args(1,3) page_ok_demo(2), of 1]
    by (auto simp: ceil_div_def)
qed

end
