(* ===== verification/Seed_Theorems.thy ===== *)
theory Seed_Theorems
  imports Seeder Access_Theorems
begin

text \<open>
  What seeding the database does: each missing account is registered with its role and balance,
  in a transaction of its own; accounts that exist are left alone; doing it again changes nothing.
\<close>

section \<open>One account\<close>

definition ensure_work :: "env \<Rightarrow> account \<Rightarrow> bool js" where
  "ensure_work E acc =
     await (users_findByUsername E (acc_username acc) Client) (\<lambda>found.
      if found \<noteq> None then ret False
      else await (call (EvHash (acc_password acc) 10) (bcrypt_hash E)) (\<lambda>passwordHash.
        await (register_work E (acc_balance acc) (acc_role acc) (acc_username acc) passwordHash (acc_fullName acc)) (\<lambda>_.
        ret True)))"

lemma ensureUser_work: "ensureUser E acc = withTransaction E (ensure_work E acc)"
proof -
  have "await (register_work E b role u h f) (\<lambda>_. ret True) = await (users_create E u h f role Client) (\<lambda>user.
      await (wallets_create E (user_id user) b Client) (\<lambda>_. ret True))" for b role u h f
    by (auto simp: register_work_def await_def fun_eq_iff split: prod.splits sum.splits)
  then show ?thesis unfolding ensureUser_def ensure_work_def by (simp only:)
qed

lemma keeps_inside_find: "keeps (inside_tx d0) (users_findByUsername E u Client)"
  unfolding users_findByUsername_def by (intro keeps_intros keeps_inside_query keeps_inside_optional)

lemma keeps_inside_ensure: "keeps (inside_tx d0) (ensure_work E acc)"
  unfolding ensure_work_def
  by (intro keeps_intros keeps_inside_find keeps_inside_register) simp

text \<open>A transaction without faults and without other sessions.\<close>

lemma tx_quiet:
  assumes env: "quiet E" and work: "keeps (inside_tx (begin_db E w)) work" and run: "withTransaction E work w = (r, w')"
  shows "case r of Inl e \<Rightarrow> tables (database w') = tables (database w)
     | Inr x \<Rightarrow> \<exists>v. work (begun E w) = (Inr x, v) \<and> (open_tx v = Some (begin_db E w, False) \<longrightarrow>
         open_tx w' = None \<and> tables (database w') = tables (database v))"
proof -
  have d0: "tables (begin_db E w) = tables (database w)"
    using env by (simp add: quiet_def begin_db_def session_start_def tables_def)
  obtain r' v where v: "work (begun E w) = (r', v)" by (cases "work (begun E w)")
  have "inside_tx (begin_db E w) (begun E w)" by (simp add: inside_tx_def begun_def)
  from keepsE [OF work this v] have "inside_tx (begin_db E w) v" .
  then have "tables (database (client_rollback_state (v\<lparr>trace := trace v @ [EvRollback]\<rparr>))) = tables (begin_db E w)"
    by (intro tables_rollback_state) simp
  with run v d0 show ?thesis
    by (cases r') (auto simp: withTransaction_calm [OF quiet_calm [OF env]] client_commit_state_def)
qed

lemma find_client_calm:
  assumes "calm E" "open_tx w = Some (d0, False)" "users_findByUsername E u Client w = (Inr x, w')"
  shows "database w' = database w \<and> open_tx w' = Some (d0, False) \<and>
    x = map_option toUser (find (\<lambda>v. u_username v = u) (users (database w)))"
  using assms(2,3)
  by (auto simp: users_findByUsername_def client_query_calm [OF assms(1,2)] await_def sql_result_def optional_row_def
      dest: parse_int8s_cases split: option.splits prod.splits sum.splits)

text \<open>What ensuring an account has done.\<close>

definition ensured :: "db \<Rightarrow> account \<Rightarrow> bool \<Rightarrow> db \<Rightarrow> bool" where
  "ensured d acc created d' \<longleftrightarrow>
     (if acc_username acc \<in> u_username ` set (users d) then \<not> created \<and> tables d' = tables d
      else created \<and> (\<exists>hash r. registered d (acc_balance acc) (acc_role acc) (acc_username acc) hash (acc_fullName acc) r d'))"

lemma ensureUser_quiet:
  assumes env: "quiet E" and run: "ensureUser E acc w = (r, w')"
  shows "case r of Inl e \<Rightarrow> tables (database w') = tables (database w)
     | Inr created \<Rightarrow> open_tx w' = None \<and> ensured (database w) acc created (database w')"
proof -
  note calm = quiet_calm [OF env]
  let ?d = "begin_db E w"
  have d: "tables ?d = tables (database w)"
    using env by (simp add: quiet_def begin_db_def session_start_def tables_def)
  then have us: "users ?d = users (database w)" by (simp add: tables_def)
  have open0: "open_tx (begun E w) = Some (?d, False)" by (simp add: begun_def)
  note tx = tx_quiet [OF env keeps_inside_ensure run [unfolded ensureUser_work]]
  show ?thesis
  proof (cases r)
    case (Inl e)
    with tx show ?thesis by simp
  next
    case (Inr created)
    with tx obtain v where v: "ensure_work E acc (begun E w) = (Inr created, v)"
      "open_tx v = Some (?d, False) \<Longrightarrow> open_tx w' = None \<and> tables (database w') = tables (database v)" by auto
    obtain found w1 where f: "users_findByUsername E (acc_username acc) Client (begun E w) = (Inr found, w1)"
      using v(1) unfolding ensure_work_def by (rule await_InrE)
    note found = find_client_calm [OF calm open0 f]
    show ?thesis
    proof (cases found)
      case (Some u)
      then have "created = False" "v = w1" using v(1) f by (simp_all add: ensure_work_def)
      moreover have "acc_username acc \<in> u_username ` set (users (database w))"
        using Some found us by (auto simp: begun_def dest!: find_SomeD intro: rev_image_eqI)
      ultimately show ?thesis using Inr v(2) found d by (simp add: ensured_def begun_def)
    next
      case None
      obtain h w2 where h: "call (EvHash (acc_password acc) 10) (bcrypt_hash E) w1 = (Inr h, w2)"
        and rest: "await (register_work E (acc_balance acc) (acc_role acc) (acc_username acc) h (acc_fullName acc))
          (\<lambda>_. ret True) w2 = (Inr created, v)"
        using v(1) f None by (auto simp: ensure_work_def elim: await_InrE)
      have w2: "database w2 = ?d" "open_tx w2 = Some (?d, False)"
        using h found by (auto simp: call_def Let_def begun_def)
      obtain reg where "register_work E (acc_balance acc) (acc_role acc) (acc_username acc) h (acc_fullName acc) w2 = (Inr reg, v)"
        and "created = True" using rest by (auto elim!: await_InrE)
      from register_work_Inr [OF calm w2(2) this(1)] w2 have
        "registered ?d (acc_balance acc) (acc_role acc) (acc_username acc) h (acc_fullName acc) reg (database v)"
        "open_tx v = Some (?d, False)" by simp_all
      then have "registered (database w) (acc_balance acc) (acc_role acc) (acc_username acc) h (acc_fullName acc) reg (database w')"
        using v(2) by (intro registered_tables [OF _ d [symmetric]]) simp_all
      moreover have "acc_username acc \<notin> u_username ` set (users (database w))"
        using None found us by (auto simp: begun_def find_None_iff)
      ultimately show ?thesis using Inr \<open>created = True\<close> v(2) \<open>open_tx v = _\<close> by (auto simp: ensured_def)
    qed
  qed
qed

lemma ensureUser_existing:
  assumes env: "quiet E" and user: "acc_username acc \<in> u_username ` set (users (database w))"
    and safe: "\<forall>u \<in> set (users (database w)). isSafeInteger (u_id u)"
  shows "\<exists>w'. ensureUser E acc w = (Inr False, w') \<and> tables (database w') = tables (database w)"
proof -
  note calm = quiet_calm [OF env]
  let ?d = "begin_db E w" and ?P = "\<lambda>v. u_username v = acc_username acc"
  have d: "tables ?d = tables (database w)"
    using env by (simp add: quiet_def begin_db_def session_start_def tables_def)
  then have us: "users ?d = users (database w)" by (simp add: tables_def)
  from user have "find ?P (users (database w)) \<noteq> None" by (auto simp: find_None_iff)
  then obtain v where v: "find ?P (users (database w)) = Some v" by blast
  with safe have "isSafeInteger (u_id v)" by (auto dest: find_SomeD)
  then have "parse_int8s [u_id v] x = (Inr (), x)" for x by (simp add: parse_int8_def)
  moreover have open0: "open_tx (begun E w) = Some (?d, False)" "database (begun E w) = ?d" by (simp_all add: begun_def)
  ultimately have "ensure_work E acc (begun E w) = (Inr False, (begun E w)
      \<lparr>trace := trace (begun E w) @ [EvQuery ''users.findByUsername''], database := ?d, open_tx := Some (?d, False)\<rparr>)"
    using v us open0(2) by (simp add: ensure_work_def users_findByUsername_def client_query_calm [OF calm open0(1)] await_def
        sql_result_def optional_row_def)
  then show ?thesis
    using d open0 by (simp add: ensureUser_work withTransaction_calm [OF calm] client_commit_state_def)
qed

section \<open>All accounts\<close>

abbreviation seed_account :: "env \<Rightarrow> account \<Rightarrow> unit js" where
  "seed_account E account \<equiv> await (ensureUser E account) (\<lambda>created.
     if created then log_msg ''info'' ''Seeded user'' else ret ())"

lemma ensured_users:
  assumes "ensured d acc created d'" "length (acc_username acc) \<le> 50"
  shows "acc_username acc \<in> u_username ` set (users d') \<and>
    (\<exists>us. users d' = users d @ us \<and> (\<forall>u \<in> set us. u_username u = acc_username acc \<and> u_role u = acc_role acc))"
proof (cases "acc_username acc \<in> u_username ` set (users d)")
  case True
  with assms have "users d' = users d" by (simp add: ensured_def tables_def)
  with True show ?thesis by simp
next
  case False
  with assms(1) obtain u where "users d' = users d @ [u]" "varchar 50 (acc_username acc) = Inr (u_username u)"
    "u_role u = acc_role acc" by (auto simp: ensured_def registered_def)
  with assms(2) show ?thesis by (simp add: varchar_def)
qed

lemma log_msg_Inr: "log_msg l m w = (Inr (), w\<lparr>trace := trace w @ [EvLog l m]\<rparr>)"
  by (simp add: log_msg_def call_def Let_def)

lemma seed_first:
  assumes "quiet E" "for_each accs (seed_account E) w = (Inr (), w')" "list_all (\<lambda>a. length (acc_username a) \<le> 50) accs"
  shows "list_all (\<lambda>a. acc_username a \<in> u_username ` set (users (database w'))) accs \<and>
    (\<exists>us. users (database w') = users (database w) @ us \<and>
       list_all (\<lambda>u. list_ex (\<lambda>a. u_username u = acc_username a \<and> u_role u = acc_role a) accs) us)"
  using assms(2,3)
proof (induction accs arbitrary: w)
  case Nil
  then show ?case by simp
next
  case (Cons a accs)
  obtain w1 where one: "seed_account E a w = (Inr (), w1)" and rest: "for_each accs (seed_account E) w1 = (Inr (), w')"
    using Cons.prems(1) by (auto elim!: await_InrE)
  obtain created w0 where e: "ensureUser E a w = (Inr created, w0)" "database w1 = database w0"
    using one by (auto simp: log_msg_Inr elim!: await_InrE split: if_splits)
  from ensureUser_quiet [OF assms(1) e(1)] have "ensured (database w) a created (database w0)" by simp
  from ensured_users [OF this] Cons.prems(2) e(2) obtain us where us:
    "acc_username a \<in> u_username ` set (users (database w1))" "users (database w1) = users (database w) @ us"
    "\<forall>u \<in> set us. u_username u = acc_username a \<and> u_role u = acc_role a"
    unfolding e(2) list.pred_inject by blast
  from Cons.IH [OF rest] Cons.prems(2) obtain vs where vs:
    "list_all (\<lambda>a. acc_username a \<in> u_username ` set (users (database w'))) accs"
    "users (database w') = users (database w1) @ vs"
    "list_all (\<lambda>u. list_ex (\<lambda>a. u_username u = acc_username a \<and> u_role u = acc_role a) accs) vs"
    unfolding list.pred_inject by blast
  from us vs show ?case by (auto simp: list_all_iff list_ex_iff)
qed

lemma seed_again:
  assumes "quiet E" "list_all (\<lambda>a. acc_username a \<in> u_username ` set (users (database w))) accs"
    "\<forall>u \<in> set (users (database w)). isSafeInteger (u_id u)"
  shows "\<exists>w'. for_each accs (seed_account E) w = (Inr (), w') \<and> tables (database w') = tables (database w)"
  using assms(2,3)
proof (induction accs arbitrary: w)
  case Nil
  then show ?case by simp
next
  case (Cons a accs)
  obtain w1 where w1: "ensureUser E a w = (Inr False, w1)" "tables (database w1) = tables (database w)"
    using ensureUser_existing [OF assms(1), of a w] Cons.prems by auto
  then have "users (database w1) = users (database w)" by (simp add: tables_def)
  with Cons.IH [of w1] Cons.prems obtain w' where "for_each accs (seed_account E) w1 = (Inr (), w')"
    "tables (database w') = tables (database w1)" by auto
  moreover have "seed_account E a w = (Inr (), w1)" using w1(1) by (simp add: await_def)
  ultimately show ?case using w1(2) by simp
qed

text \<open>C28: seeding makes the configured accounts exist and can be repeated: when it returns, every
  configured username has a user; the users from before are the same rows, followed by new ones,
  each of a configured username with its configured role (so no one else is made an
  administrator); and seeding again returns and changes no table, so a password that was changed
  since is not reset.\<close>
theorem seeding_is_repeatable:
  assumes "quiet E" and "runSeed E C w = (Inr (), w')" and "length (sd_adminUsername C) \<le> 50"
    and "\<forall>u \<in> set (users (database w')). isSafeInteger (u_id u)"
  shows "list_all (\<lambda>a. acc_username a \<in> u_username ` set (users (database w'))) (seed_accounts C) \<and>
    (\<exists>us. users (database w') = users (database w) @ us \<and>
       list_all (\<lambda>u. list_ex (\<lambda>a. u_username u = acc_username a \<and> u_role u = acc_role a) (seed_accounts C)) us) \<and>
    (\<exists>w''. runSeed E C w' = (Inr (), w'') \<and> tables (database w'') = tables (database w'))"
proof -
  have "list_all (\<lambda>a. length (acc_username a) \<le> 50) (seed_accounts C)"
    using assms(3) by (simp add: seed_accounts_def DEMO_USERS_def)
  from seed_first [OF assms(1) assms(2) [unfolded runSeed_def] this]
    seed_again [OF assms(1) _ assms(4), of "seed_accounts C"]
  show ?thesis unfolding runSeed_def by blast
qed

definition demo_seed :: seed_config where
  "demo_seed = \<lparr>sd_adminUsername = ''admin'', sd_adminPassword = ''Password@123'',
     sd_adminFullName = ''System Administrator'', sd_demoUsers = True\<rparr>"

lemma demo_seeding: "\<exists>w'. runSeed demo_env demo_seed demo_world = (Inr (), w') \<and> map u_id (users (database w')) = [1, 2, 3]"
  by (simp add: register_eval runSeed_def demo_seed_def seed_accounts_def DEMO_USERS_def ensureUser_def)

theorem seeding_is_repeatable_witness:
  "\<exists>w' w''. runSeed demo_env demo_seed demo_world = (Inr (), w') \<and> runSeed demo_env demo_seed w' = (Inr (), w'') \<and>
     tables (database w'') = tables (database w')"
proof -
  obtain w' where w': "runSeed demo_env demo_seed demo_world = (Inr (), w')" "map u_id (users (database w')) = [1, 2, 3]"
    using demo_seeding by (elim exE conjE)
  have "\<forall>n \<in> set (map u_id (users (database w'))). isSafeInteger n"
    unfolding w'(2) by (simp add: isSafeInteger_def MAX_SAFE_INTEGER_def)
  then have "\<forall>u \<in> set (users (database w')). isSafeInteger (u_id u)" by simp
  moreover have "length (sd_adminUsername demo_seed) \<le> 50" by (simp add: demo_seed_def)
  ultimately show ?thesis using seeding_is_repeatable [OF quiet_demo w'(1)] w'(1) by blast
qed

end
