(* ===== verification/Sockets.thy ===== *)
theory Sockets
  imports Validation
begin

text \<open>
  \<open>src/sockets/index.js\<close>: the handshake of a socket, its room, the timer that ends its session,
  and the notifications that reach it. The server is a step relation over the sessions that are
  open; Socket.io keeps the membership of rooms, which the sessions carry.
\<close>

section \<open>Handshake\<close>

definition js_truthy :: "js_value \<Rightarrow> bool" where
  "js_truthy v = (case v of
     JUndefined \<Rightarrow> False | JNull \<Rightarrow> False | JBool b \<Rightarrow> b | JInt n \<Rightarrow> n \<noteq> 0 | JFloat t \<Rightarrow> t \<noteq> ''NaN''
   | JStr s \<Rightarrow> s \<noteq> [] | JArray _ \<Rightarrow> True | JObject _ \<Rightarrow> True)"

text \<open>\<open>hs_auth_token\<close> is \<open>socket.handshake.auth?.token\<close>.\<close>

record handshake =
  hs_auth_token :: js_value
  hs_authorization :: "string option"

definition extractSocketToken :: "handshake \<Rightarrow> js_value" where
  "extractSocketToken h =
     (if js_truthy (hs_auth_token h) then hs_auth_token h
      else case extractBearerToken (hs_authorization h) of Some t \<Rightarrow> JStr t | None \<Rightarrow> JNull)"

text \<open>\<open>tokenService.verify\<close> on any value: \<open>jsonwebtoken\<close> rejects one that is not a text.\<close>

definition verify_value :: "(string \<Rightarrow> js_error + auth_user) \<Rightarrow> js_value \<Rightarrow> js_error + auth_user" where
  "verify_value verify v = (case v of
     JStr t \<Rightarrow> verify t
   | _ \<Rightarrow> Inl (unauthorized (Some ''Access token is invalid'') (Some ''INVALID_TOKEN'')))"

record handshake_error =
  he_message :: string
  he_code :: "string option"

definition authenticateSocket ::
  "(string \<Rightarrow> js_error + auth_user) \<Rightarrow> handshake \<Rightarrow> handshake_error + auth_user" where
  "authenticateSocket verify h =
     (let token = extractSocketToken h in
      if \<not> js_truthy token
      then Inl \<lparr>he_message = ''Authentication required'', he_code = Some ''UNAUTHORIZED''\<rparr>
      else case verify_value verify token of
        Inr user \<Rightarrow> Inr user
      | Inl err \<Rightarrow> Inl \<lparr>he_message = err_message err, he_code = err_code err\<rparr>)"

context token_verifier
begin

text \<open>A refused handshake carries one of three codes; an accepted one a verified token.\<close>

lemma handshake_refused:
  "authenticateSocket verify h = Inl e \<Longrightarrow>
   he_code e \<in> {Some ''UNAUTHORIZED'', Some ''TOKEN_EXPIRED'', Some ''INVALID_TOKEN''}"
  by (auto simp: authenticateSocket_def verify_value_def unauthorized_def AppError_def Let_def
      split: if_splits sum.splits js_value.splits dest: refuses)

lemma handshake_accepted:
  "authenticateSocket verify h = Inr u \<Longrightarrow> \<exists>t. extractSocketToken h = JStr t \<and> verify t = Inr u"
  by (auto simp: authenticateSocket_def verify_value_def Let_def split: if_splits sum.splits js_value.splits)

end

section \<open>Sessions\<close>

definition MAX_TIMER_MS :: int where
  "MAX_TIMER_MS = 2 ^ 31 - 1"

text \<open>\<open>user:\<close> and the id of the user, \<open>NaN\<close> for a token whose subject is no number.\<close>

definition session_room :: "auth_user \<Rightarrow> string" where
  "session_room user = (case au_id user of Some n \<Rightarrow> userRoom n | None \<Rightarrow> ''user:NaN'')"

datatype socket_event =
    SessionReady "int option" int
  | SessionExpired
  | RoomEvent string notification

record session =
  s_id :: nat
  s_user :: auth_user
  s_room :: string
  s_connectedAt :: int
  s_due :: int

record io_state =
  io_now :: int
  io_next :: nat
  io_sessions :: "session list"
  io_sent :: "(nat \<times> int \<times> socket_event) list"

definition session_delay :: "int \<Rightarrow> int \<Rightarrow> int" where
  "session_delay expiresAt now = min (max (expiresAt - now) 0) MAX_TIMER_MS"

definition io_start :: "int \<Rightarrow> io_state" where
  "io_start t = \<lparr>io_now = t, io_next = 0, io_sessions = [], io_sent = []\<rparr>"

definition on_connection :: "auth_user \<Rightarrow> io_state \<Rightarrow> io_state" where
  "on_connection user st = st\<lparr>
     io_next := io_next st + 1,
     io_sessions := io_sessions st @
       [\<lparr>s_id = io_next st, s_user = user, s_room = session_room user, s_connectedAt = io_now st,
         s_due = io_now st + session_delay (au_expiresAt user) (io_now st)\<rparr>],
     io_sent := io_sent st @ [(io_next st, io_now st, SessionReady (au_id user) (au_expiresAt user))]\<rparr>"

text \<open>The \<open>disconnect\<close> event clears the timer with the session.\<close>

definition on_disconnect :: "nat \<Rightarrow> io_state \<Rightarrow> io_state" where
  "on_disconnect sid st = st\<lparr>io_sessions := filter (\<lambda>s. s_id s \<noteq> sid) (io_sessions st)\<rparr>"

text \<open>The timer: \<open>session:expired\<close>, then \<open>disconnect(true)\<close>.\<close>

definition on_expiry :: "nat \<Rightarrow> io_state \<Rightarrow> io_state" where
  "on_expiry sid st = on_disconnect sid (st\<lparr>io_sent := io_sent st @ [(sid, io_now st, SessionExpired)]\<rparr>)"

text \<open>\<open>io.to(room).emit(name, payload)\<close>\<close>

definition emit_to_room :: "string \<Rightarrow> string \<Rightarrow> notification \<Rightarrow> io_state \<Rightarrow> io_state" where
  "emit_to_room room name n st = st\<lparr>io_sent := io_sent st @
     map (\<lambda>s. (s_id s, io_now st, RoomEvent name n)) (filter (\<lambda>s. s_room s = room) (io_sessions st))\<rparr>"

text \<open>What the Socket.io server does with a call of the process, and with a sequence of them.\<close>

definition deliver :: "ev \<Rightarrow> io_state \<Rightarrow> io_state" where
  "deliver e st = (case e of EvEmit room name n \<Rightarrow> emit_to_room room name n st | _ \<Rightarrow> st)"

definition deliver_all :: "ev list \<Rightarrow> io_state \<Rightarrow> io_state" where
  "deliver_all es st = fold deliver es st"

text \<open>
  One step of the server: a socket whose handshake was accepted at a time not after now, one that
  leaves, a timer that is due, a notification, or time that passes; a timer fires at most \<open>lag\<close>
  after it is due.
\<close>

inductive io_step :: "(int \<Rightarrow> string \<Rightarrow> js_error + auth_user) \<Rightarrow> int \<Rightarrow> io_state \<Rightarrow> io_state \<Rightarrow> bool"
  for verify :: "int \<Rightarrow> string \<Rightarrow> js_error + auth_user" and lag :: int where
  connect: "authenticateSocket (verify t) h = Inr user \<Longrightarrow> t \<le> io_now st \<Longrightarrow>
    io_step verify lag st (on_connection user st)"
| leave: "io_step verify lag st (on_disconnect sid st)"
| expire: "s \<in> set (io_sessions st) \<Longrightarrow> s_due s \<le> io_now st \<Longrightarrow>
    io_step verify lag st (on_expiry (s_id s) st)"
| notify: "io_step verify lag st (emit_to_room room name n st)"
| tick: "io_now st \<le> t \<Longrightarrow> (\<And>s. s \<in> set (io_sessions st) \<Longrightarrow> t \<le> s_due s + lag) \<Longrightarrow>
    io_step verify lag st (st\<lparr>io_now := t\<rparr>)"

inductive io_reachable :: "(int \<Rightarrow> string \<Rightarrow> js_error + auth_user) \<Rightarrow> int \<Rightarrow> io_state \<Rightarrow> bool"
  for verify :: "int \<Rightarrow> string \<Rightarrow> js_error + auth_user" and lag :: int where
  io_init: "io_reachable verify lag (io_start t)"
| io_next: "io_reachable verify lag st \<Longrightarrow> io_step verify lag st st' \<Longrightarrow> io_reachable verify lag st'"

inductive_cases io_stepE: "io_step verify lag st st'"

section \<open>What holds of every open session\<close>

text \<open>
  The user is the one a verified token named before the socket connected, the room is that
  user's, and the timer has not been missed.
\<close>

definition session_ok :: "(int \<Rightarrow> string \<Rightarrow> js_error + auth_user) \<Rightarrow> int \<Rightarrow> int \<Rightarrow> session \<Rightarrow> bool" where
  "session_ok verify lag now s \<longleftrightarrow>
     (\<exists>t token. t \<le> s_connectedAt s \<and> verify t token = Inr (s_user s)) \<and>
     s_room s = session_room (s_user s) \<and>
     s_due s = s_connectedAt s + session_delay (au_expiresAt (s_user s)) (s_connectedAt s) \<and>
     s_connectedAt s \<le> now \<and> now \<le> s_due s + lag"

text \<open>A session was told to expire no earlier than its token, unless its timer is the longest one.\<close>

definition expiry_ok :: "io_state \<Rightarrow> bool" where
  "expiry_ok st \<longleftrightarrow> (\<forall>sid t. (sid, t, SessionExpired) \<in> set (io_sent st) \<longrightarrow>
     (\<exists>t0 uid expiresAt. (sid, t0, SessionReady uid expiresAt) \<in> set (io_sent st) \<and>
        (expiresAt \<le> t \<or> t0 + MAX_TIMER_MS \<le> t)))"

definition io_inv :: "(int \<Rightarrow> string \<Rightarrow> js_error + auth_user) \<Rightarrow> int \<Rightarrow> io_state \<Rightarrow> bool" where
  "io_inv verify lag st \<longleftrightarrow>
     (\<forall>s \<in> set (io_sessions st). session_ok verify lag (io_now st) s \<and> s_id s < io_next st \<and>
        (s_id s, s_connectedAt s, SessionReady (au_id (s_user s)) (au_expiresAt (s_user s))) \<in> set (io_sent st)) \<and>
     distinct (map s_id (io_sessions st)) \<and> expiry_ok st"

lemma session_delay_nonneg: "0 \<le> session_delay e t"
  by (simp add: session_delay_def MAX_TIMER_MS_def)

lemma session_delay_due: "t + session_delay e t \<le> t' \<Longrightarrow> e \<le> t' \<or> t + MAX_TIMER_MS \<le> t'"
  by (auto simp: session_delay_def min_def max_def split: if_splits)

lemma expiry_ok_sent:
  assumes "expiry_ok st" "io_sent st' = io_sent st @ es" "\<And>e. e \<in> set es \<Longrightarrow> snd (snd e) \<noteq> SessionExpired"
  shows "expiry_ok st'"
  unfolding expiry_ok_def
proof (intro allI impI)
  fix sid t
  assume "(sid, t, SessionExpired) \<in> set (io_sent st')"
  with assms(2,3) have "(sid, t, SessionExpired) \<in> set (io_sent st)" by fastforce
  with assms(1) obtain t0 uid expiresAt where "(sid, t0, SessionReady uid expiresAt) \<in> set (io_sent st)"
    "expiresAt \<le> t \<or> t0 + MAX_TIMER_MS \<le> t" unfolding expiry_ok_def by blast
  with assms(2) show "\<exists>t0 uid expiresAt. (sid, t0, SessionReady uid expiresAt) \<in> set (io_sent st') \<and>
    (expiresAt \<le> t \<or> t0 + MAX_TIMER_MS \<le> t)" by auto
qed

lemma io_inv_start: "io_inv verify lag (io_start t)"
  by (simp add: io_inv_def io_start_def expiry_ok_def)

lemma accepted: "authenticateSocket verify h = Inr u \<Longrightarrow> \<exists>token. verify token = Inr u"
  by (auto simp: authenticateSocket_def verify_value_def Let_def split: if_splits sum.splits js_value.splits)

lemma io_inv_step:
  assumes "io_step verify lag st st'" "0 \<le> lag" "io_inv verify lag st"
  shows "io_inv verify lag st'"
  using assms(1)
proof cases
  case (connect t h user)
  let ?s = "\<lparr>s_id = io_next st, s_user = user, s_room = session_room user, s_connectedAt = io_now st,
    s_due = io_now st + session_delay (au_expiresAt user) (io_now st)\<rparr>"
  have "session_ok verify lag (io_now st) ?s"
    using connect(2,3) accepted [of "verify t" h user] assms(2) session_delay_nonneg [of "au_expiresAt user" "io_now st"]
    by (auto simp: session_ok_def)
  moreover have "expiry_ok st'"
    using assms(3)
    by (intro expiry_ok_sent [of st st' "[(io_next st, io_now st, SessionReady (au_id user) (au_expiresAt user))]"])
      (simp_all add: io_inv_def connect(1) on_connection_def)
  moreover have "io_sessions st' = io_sessions st @ [?s]" "io_now st' = io_now st" "io_next st' = io_next st + 1"
    "set (io_sent st') = insert (io_next st, io_now st, SessionReady (au_id user) (au_expiresAt user)) (set (io_sent st))"
    by (simp_all add: connect(1) on_connection_def)
  moreover have "io_next st \<notin> s_id ` set (io_sessions st)"
    using assms(3) by (auto simp: io_inv_def)
  ultimately show ?thesis
    using assms(3) by (simp add: io_inv_def less_Suc_eq)
next
  case (leave sid)
  then show ?thesis
    using assms(3) expiry_ok_sent [of st st' "[]"] by (auto simp: io_inv_def on_disconnect_def distinct_map_filter)
next
  case (expire s)
  let ?e = "(s_id s, io_now st, SessionExpired)"
  from assms(3) expire(2) have s: "session_ok verify lag (io_now st) s"
    "(s_id s, s_connectedAt s, SessionReady (au_id (s_user s)) (au_expiresAt (s_user s))) \<in> set (io_sent st)"
    by (simp_all add: io_inv_def)
  then have "au_expiresAt (s_user s) \<le> io_now st \<or> s_connectedAt s + MAX_TIMER_MS \<le> io_now st"
    using expire(3) by (intro session_delay_due) (simp add: session_ok_def)
  with s(2) assms(3) have "expiry_ok (st\<lparr>io_sent := io_sent st @ [?e]\<rparr>)"
    by (fastforce simp: expiry_ok_def io_inv_def)
  then show ?thesis
    using assms(3) expire(1)
    by (auto simp: io_inv_def on_expiry_def on_disconnect_def distinct_map_filter expiry_ok_def)
next
  case (notify room name n)
  have "expiry_ok st'"
    using assms(3) by (intro expiry_ok_sent [of st st'
      "map (\<lambda>s. (s_id s, io_now st, RoomEvent name n)) (filter (\<lambda>s. s_room s = room) (io_sessions st))"])
      (auto simp: io_inv_def notify emit_to_room_def)
  then show ?thesis using assms(3) by (auto simp: io_inv_def notify emit_to_room_def)
next
  case (tick t)
  have "expiry_ok st'"
    using assms(3) by (intro expiry_ok_sent [of st st' "[]"]) (simp_all add: io_inv_def tick(1))
  then show ?thesis using assms(3) tick by (auto simp: io_inv_def session_ok_def)
qed

lemma io_reachable_inv: "io_reachable verify lag st \<Longrightarrow> 0 \<le> lag \<Longrightarrow> io_inv verify lag st"
  by (induction rule: io_reachable.induct) (auto intro: io_inv_start io_inv_step)

end
