(* ===== verification/Socket_Theorems.thy ===== *)
theory Socket_Theorems
  imports Sockets System_Theorems
begin

text \<open>
  What the socket server guarantees: a notification reaches the sessions of its recipient and no
  others, and a session ends with its token, up to the longest timer.
\<close>

section \<open>Notifications\<close>

lemma session_room_eq: "session_room u = userRoom n \<longleftrightarrow> au_id u = Some n"
proof -
  have "js_Number ''NaN'' = None" by (simp add: js_Number_def is_digit_def)
  then have "js_String n \<noteq> ''NaN''" by (metis js_Number_String option.distinct(1))
  then show ?thesis
    by (auto simp: session_room_def userRoom_def js_String_inject split: option.split)
qed

lemma deliver_all_filter: "deliver_all (filter not_log es) st = deliver_all es st"
  by (induction es arbitrary: st) (auto simp: deliver_all_def deliver_def not_log_def split: ev.splits)

lemma deliver_other: "(\<And>room name n. e \<noteq> EvEmit room name n) \<Longrightarrow> deliver e st = st"
  by (cases e) (auto simp: deliver_def)

text \<open>The sessions of a user, and what they have been sent.\<close>

definition sessions_of :: "int \<Rightarrow> io_state \<Rightarrow> session list" where
  "sessions_of uid st = filter (\<lambda>s. au_id (s_user s) = Some uid) (io_sessions st)"

lemma room_sessions:
  assumes "io_inv verify lag st"
  shows "filter (\<lambda>s. s_room s = userRoom uid) (io_sessions st) = sessions_of uid st"
  using assms unfolding sessions_of_def
  by (intro filter_cong refl) (auto simp: io_inv_def session_ok_def session_room_eq)

text \<open>A notification is delivered to its recipient and to no one else: when a transfer has been
  answered, the calls it made, given to the socket server in any reachable state, send one event
  to each open session of the user who received the money, with the facts of that transaction,
  and nothing to any other session; and the user of a session is the one a verified token named
  when the socket connected.\<close>
lemma notifications_reach_the_recipient_only:
  assumes "io_reachable verify lag st" and "0 \<le> lag"
    and "quiet E" and "db_ok (database w)" and "db_safe (database w)" and "isSafeInteger a"
    and "transfer_service E th f t (Some a) ds w = (Inr (Some T), w')" and "trace w' = trace w @ es"
  shows "io_sent (deliver_all es st) = io_sent st @
      map (\<lambda>s. (s_id s, io_now st, RoomEvent TRANSFER_RECEIVED (notification_of T))) (sessions_of t st) \<and>
    (\<forall>s \<in> set (sessions_of t st). au_id (s_user s) = Some t \<and>
       (\<exists>t0 token. t0 \<le> s_connectedAt s \<and> verify t0 token = Inr (s_user s)))"
proof -
  have inv: "io_inv verify lag st" using assms(1,2) by (rule io_reachable_inv)
  let ?emit = "EvEmit (userRoom t) TRANSFER_RECEIVED (notification_of T)"
  obtain tid st' d' where out: "transfer_outcome f t (Some a) ds th (at_query E ''CALL transfer_funds'' w) = (Inr (tid, st'), d')"
    using transfer_service_failure [OF assms(3,4), where f = f and t = t and amount = "Some a" and ds = ds and th = th] assms(7)
    by (cases "transfer_outcome f t (Some a) ds th (at_query E ''CALL transfer_funds'' w)"; cases "fst (transfer_outcome f t (Some a) ds th (at_query E ''CALL transfer_funds'' w))") fastforce+
  from transfer_service_success [OF assms(3-6) out] assms(7,8)
  have "filter not_log es = [EvQuery ''CALL transfer_funds'', EvQuery ''transactions.findById''] @
      (if st' = PENDING then [EvEnqueue RECEIPT_JOB_NAME tid tid] else []) @ [?emit]" by auto
  then have "deliver_all es st = deliver ?emit st"
    by (subst deliver_all_filter [symmetric]) (simp add: deliver_all_def deliver_def)
  moreover have "io_sent (deliver ?emit st) = io_sent st @
      map (\<lambda>s. (s_id s, io_now st, RoomEvent TRANSFER_RECEIVED (notification_of T))) (sessions_of t st)"
    by (simp add: deliver_def emit_to_room_def room_sessions [OF inv])
  moreover have "au_id (s_user s) = Some t \<and> (\<exists>t0 token. t0 \<le> s_connectedAt s \<and> verify t0 token = Inr (s_user s))"
    if "s \<in> set (sessions_of t st)" for s
    using that inv by (auto simp: sessions_of_def io_inv_def session_ok_def)
  ultimately show ?thesis by simp
qed

text \<open>One session of the second user of the demo.\<close>

definition demo_io :: io_state where
  "demo_io = on_connection \<lparr>au_id = Some 2, au_role = ''USER'', au_username = ''sara'', au_expiresAt = 4100000\<rparr>
     (io_start 500000)"

lemma demo_handshake:
  "authenticateSocket (token_verify demo_jwt ''k'' 500000)
     \<lparr>hs_auth_token = JStr (demo_token 2 ''sara'' ''USER''), hs_authorization = None\<rparr> =
   Inr \<lparr>au_id = Some 2, au_role = ''USER'', au_username = ''sara'', au_expiresAt = 4100000\<rparr>"
proof -
  have "demo_token 2 ''sara'' ''USER'' \<noteq> []" using demo_jwt_text by (simp add: demo_token_def jwt_text_def)
  then have "authenticateSocket (token_verify demo_jwt ''k'' 500000)
     \<lparr>hs_auth_token = JStr (demo_token 2 ''sara'' ''USER''), hs_authorization = None\<rparr> =
     (case token_verify demo_jwt ''k'' 500000 (demo_token 2 ''sara'' ''USER'') of Inr user \<Rightarrow> Inr user
      | Inl err \<Rightarrow> Inl \<lparr>he_message = err_message err, he_code = err_code err\<rparr>)"
    by (simp add: authenticateSocket_def extractSocketToken_def verify_value_def js_truthy_def)
  then show ?thesis
    using demo_jwt_documented by (simp add: demo_token_def token_verify_def jwt_documented_def Let_def)
qed

lemma demo_io_reachable: "io_reachable (token_verify demo_jwt ''k'') 1000 demo_io"
  unfolding demo_io_def
  by (rule io_reachable.io_next [OF io_reachable.io_init
        io_step.connect [where verify = "token_verify demo_jwt ''k''" and t = 500000, OF demo_handshake]])
    (simp add: io_start_def)

lemma demo_transfer_trace:
  "\<exists>T w' es. transfer_service demo_env 5000000 1 2 (Some 6000000) None demo_world = (Inr (Some T), w') \<and>
     trace w' = trace demo_world @ es"
proof -
  have a: "isSafeInteger 6000000" by (simp add: isSafeInteger_def MAX_SAFE_INTEGER_def)
  obtain d' where "transfer_outcome 1 2 (Some 6000000) None 5000000 (at_query demo_env ''CALL transfer_funds'' demo_world) =
      (Inr (''t1'', PENDING), d')"
    using demo_transfer_outcome by (metis prod.collapse)
  from transfer_service_success [OF demo_safe_args a this] show ?thesis by (auto simp: demo_world_def)
qed

lemma notifications_reach_the_recipient_only_witness:
  "\<exists>T es. io_sent (deliver_all es demo_io) =
     [(0, 500000, SessionReady (Some 2) 4100000), (0, 500000, RoomEvent TRANSFER_RECEIVED (notification_of T))]"
proof -
  have a: "isSafeInteger 6000000" by (simp add: isSafeInteger_def MAX_SAFE_INTEGER_def)
  obtain T w' es where run: "transfer_service demo_env 5000000 1 2 (Some 6000000) None demo_world = (Inr (Some T), w')"
    "trace w' = trace demo_world @ es" using demo_transfer_trace by blast
  from notifications_reach_the_recipient_only [OF demo_io_reachable _ demo_safe_args a run]
  have "io_sent (deliver_all es demo_io) = io_sent demo_io @
      map (\<lambda>s. (s_id s, io_now demo_io, RoomEvent TRANSFER_RECEIVED (notification_of T))) (sessions_of 2 demo_io)" by simp
  then show ?thesis by (auto simp: demo_io_def on_connection_def io_start_def sessions_of_def)
qed

section \<open>The end of a session\<close>

lemma session_delay_le: "session_delay e t \<le> MAX_TIMER_MS \<and> t + session_delay e t \<le> max e t"
  by (simp add: session_delay_def min_def max_def)

text \<open>C30: a session ends with its token: in every reachable state an open session has not outlived
  the expiry of its token by more than the lag of the timers (or, when it connected with a token
  that had just expired, its connection), nor the longest timer; and a session is told that it
  expired only when its token has, or when it was open for the longest timer of \<open>2^31 - 1\<close>
  milliseconds.\<close>
theorem sessions_end_with_their_token:
  assumes "io_reachable verify lag st" and "0 \<le> lag"
  shows "(\<forall>s \<in> set (io_sessions st). io_now st \<le> max (au_expiresAt (s_user s)) (s_connectedAt s) + lag \<and>
       io_now st \<le> s_connectedAt s + MAX_TIMER_MS + lag) \<and>
    (\<forall>sid t. (sid, t, SessionExpired) \<in> set (io_sent st) \<longrightarrow>
       (\<exists>t0 uid expiresAt. (sid, t0, SessionReady uid expiresAt) \<in> set (io_sent st) \<and>
          (expiresAt \<le> t \<or> t0 + MAX_TIMER_MS \<le> t)))"
proof -
  have inv: "io_inv verify lag st" using assms by (rule io_reachable_inv)
  have "io_now st \<le> max (au_expiresAt (s_user s)) (s_connectedAt s) + lag \<and>
      io_now st \<le> s_connectedAt s + MAX_TIMER_MS + lag" if "s \<in> set (io_sessions st)" for s
  proof -
    have "io_now st \<le> s_connectedAt s + session_delay (au_expiresAt (s_user s)) (s_connectedAt s) + lag"
      using inv that unfolding io_inv_def session_ok_def by fastforce
    with session_delay_le [of "au_expiresAt (s_user s)" "s_connectedAt s"] show ?thesis by linarith
  qed
  with inv show ?thesis by (simp add: io_inv_def expiry_ok_def)
qed

theorem sessions_end_with_their_token_witness:
  "list_all (\<lambda>s. io_now demo_io \<le> au_expiresAt (s_user s) + 1000) (io_sessions demo_io) \<and> io_sessions demo_io \<noteq> []"
proof -
  have "\<forall>s \<in> set (io_sessions demo_io). io_now demo_io \<le> max (au_expiresAt (s_user s)) (s_connectedAt s) + 1000"
    using sessions_end_with_their_token [OF demo_io_reachable] by simp
  then show ?thesis by (simp add: demo_io_def on_connection_def io_start_def)
qed

text \<open>A token that lives longer than the longest timer loses its session before it expires.\<close>

lemma long_session_ends_early:
  "MAX_TIMER_MS < expiresAt - now \<Longrightarrow> now + session_delay expiresAt now < expiresAt"
  by (simp add: session_delay_def)

end
