(* ===== verification/Config.thy ===== *)
theory Config
  imports Http_Api Seeder
begin

text \<open>
  \<open>src/config/index.js\<close>: the schema of the environment and the configuration made of it, and
  what \<open>src/container.js\<close> takes from it. \<open>zod\<close>, \<open>URL\<close> and the syntax of URLs are parameters.
\<close>

section \<open>The environment\<close>

definition booleanString :: zschema where
  "booleanString = ZDefault (ZEnumTransform [''true'', ''false''] (\<lambda>v. JBool (v = ''true''))) (JStr ''false'')"

definition positive_number :: "int \<Rightarrow> zschema" where
  "positive_number d = ZDefault (ZCoerceNumber [ZInt None, ZPositive]) (JInt d)"

definition nonnegative_number :: "int \<Rightarrow> zschema" where
  "nonnegative_number d = ZDefault (ZCoerceNumber [ZInt None, ZNonNegative]) (JInt d)"

definition env_schema :: "(string \<Rightarrow> bool) \<Rightarrow> zschema" where
  "env_schema is_url = ZObject
     [(''NODE_ENV'', ZDefault (ZEnum [''development'', ''production'', ''test'']) (JStr ''development'')),
      (''PORT'', positive_number 3000),
      (''LOG_LEVEL'', ZDefault (ZEnum [''fatal'', ''error'', ''warn'', ''info'', ''debug'', ''trace'', ''silent''])
         (JStr ''info'')),
      (''DATABASE_URL'', ZString [ZMinLength 1 None]),
      (''DB_POOL_MAX'', positive_number 10),
      (''DB_IDLE_TIMEOUT_MS'', nonnegative_number 30000),
      (''DB_CONNECTION_TIMEOUT_MS'', nonnegative_number 5000),
      (''REDIS_URL'', ZString [ZMinLength 1 None]),
      (''JWT_SECRET'', ZString [ZMinLength 32 None]),
      (''JWT_EXPIRES_IN'', ZDefault (ZString []) (JStr ''1h'')),
      (''INITIAL_WALLET_BALANCE'', nonnegative_number 10000000),
      (''RECEIPT_THRESHOLD'', nonnegative_number 5000000),
      (''RECEIPT_JOB_ATTEMPTS'', positive_number 5),
      (''RECEIPT_JOB_BACKOFF_MS'', positive_number 2000),
      (''WORKER_CONCURRENCY'', positive_number 5),
      (''MINIO_ENDPOINT'', ZString [ZMinLength 1 None]),
      (''MINIO_PORT'', positive_number 9000),
      (''MINIO_USE_SSL'', booleanString),
      (''MINIO_ACCESS_KEY'', ZString [ZMinLength 1 None]),
      (''MINIO_SECRET_KEY'', ZString [ZMinLength 1 None]),
      (''MINIO_BUCKET'', ZDefault (ZString [ZMinLength 3 None]) (JStr ''receipts'')),
      (''MINIO_REGION'', ZDefault (ZString []) (JStr ''us-east-1'')),
      (''MINIO_PUBLIC_URL'', ZString [ZUrl is_url]),
      (''RECEIPT_URL_EXPIRY_SECONDS'',
         ZDefault (ZCoerceNumber [ZInt None, ZPositive, ZMax 604800]) (JInt 604800)),
      (''ADMIN_USERNAME'', ZDefault (ZString [ZMinLength 3 None]) (JStr ''admin'')),
      (''ADMIN_PASSWORD'', ZString [ZMinLength 8 None]),
      (''ADMIN_FULL_NAME'', ZDefault (ZString [ZMinLength 1 None]) (JStr ''System Administrator'')),
      (''SEED_DEMO_USERS'', booleanString)]"

section \<open>The configuration\<close>

record db_config =
  cfg_connectionString :: string
  cfg_max :: int
  cfg_idleTimeoutMillis :: int
  cfg_connectionTimeoutMillis :: int

record receipt_config =
  cfg_threshold :: int
  cfg_jobAttempts :: int
  cfg_jobBackoffMs :: int
  cfg_workerConcurrency :: int
  cfg_urlExpirySeconds :: int

record minio_public =
  pub_endPoint :: string
  pub_port :: int
  pub_useSSL :: bool

record minio_config =
  cfg_endPoint :: string
  cfg_minioPort :: int
  cfg_useSSL :: bool
  cfg_accessKey :: string
  cfg_secretKey :: string
  cfg_bucket :: string
  cfg_region :: string
  cfg_public :: minio_public

record config =
  cfg_env :: string
  cfg_isTest :: bool
  cfg_port :: int
  cfg_logLevel :: string
  cfg_db :: db_config
  cfg_redis_url :: string
  cfg_jwt_secret :: string
  cfg_jwt_expiresIn :: string
  cfg_initialBalance :: int
  cfg_receipt :: receipt_config
  cfg_minio :: minio_config
  cfg_seed :: seed_config

text \<open>\<open>new URL(\<dots>)\<close>: \<open>url_port\<close> is \<open>Number(url.port)\<close>, 0 when the URL names no port.\<close>

record url =
  url_hostname :: string
  url_port :: int
  url_protocol :: string

definition env_text :: "js_value \<Rightarrow> string \<Rightarrow> string" where
  "env_text env k = js_text (js_get env k)"

definition env_int :: "js_value \<Rightarrow> string \<Rightarrow> int" where
  "env_int env k = (case js_int (js_get env k) of Some n \<Rightarrow> n | None \<Rightarrow> 0)"

definition env_bool :: "js_value \<Rightarrow> string \<Rightarrow> bool" where
  "env_bool env k = (js_get env k = JBool True)"

definition public_of :: "url \<Rightarrow> minio_public" where
  "public_of u = \<lparr>pub_endPoint = url_hostname u,
     pub_port = (if url_port u \<noteq> 0 then url_port u else if url_protocol u = ''https:'' then 443 else 80),
     pub_useSSL = (url_protocol u = ''https:'')\<rparr>"

definition config_of :: "(string \<Rightarrow> url) \<Rightarrow> js_value \<Rightarrow> config" where
  "config_of new_url env =
     \<lparr>cfg_env = env_text env ''NODE_ENV'', cfg_isTest = (env_text env ''NODE_ENV'' = ''test''),
      cfg_port = env_int env ''PORT'', cfg_logLevel = env_text env ''LOG_LEVEL'',
      cfg_db = \<lparr>cfg_connectionString = env_text env ''DATABASE_URL'', cfg_max = env_int env ''DB_POOL_MAX'',
        cfg_idleTimeoutMillis = env_int env ''DB_IDLE_TIMEOUT_MS'',
        cfg_connectionTimeoutMillis = env_int env ''DB_CONNECTION_TIMEOUT_MS''\<rparr>,
      cfg_redis_url = env_text env ''REDIS_URL'',
      cfg_jwt_secret = env_text env ''JWT_SECRET'', cfg_jwt_expiresIn = env_text env ''JWT_EXPIRES_IN'',
      cfg_initialBalance = env_int env ''INITIAL_WALLET_BALANCE'',
      cfg_receipt = \<lparr>cfg_threshold = env_int env ''RECEIPT_THRESHOLD'',
        cfg_jobAttempts = env_int env ''RECEIPT_JOB_ATTEMPTS'', cfg_jobBackoffMs = env_int env ''RECEIPT_JOB_BACKOFF_MS'',
        cfg_workerConcurrency = env_int env ''WORKER_CONCURRENCY'',
        cfg_urlExpirySeconds = env_int env ''RECEIPT_URL_EXPIRY_SECONDS''\<rparr>,
      cfg_minio = \<lparr>cfg_endPoint = env_text env ''MINIO_ENDPOINT'', cfg_minioPort = env_int env ''MINIO_PORT'',
        cfg_useSSL = env_bool env ''MINIO_USE_SSL'', cfg_accessKey = env_text env ''MINIO_ACCESS_KEY'',
        cfg_secretKey = env_text env ''MINIO_SECRET_KEY'', cfg_bucket = env_text env ''MINIO_BUCKET'',
        cfg_region = env_text env ''MINIO_REGION'', cfg_public = public_of (new_url (env_text env ''MINIO_PUBLIC_URL''))\<rparr>,
      cfg_seed = \<lparr>sd_adminUsername = env_text env ''ADMIN_USERNAME'', sd_adminPassword = env_text env ''ADMIN_PASSWORD'',
        sd_adminFullName = env_text env ''ADMIN_FULL_NAME'', sd_demoUsers = env_bool env ''SEED_DEMO_USERS''\<rparr>\<rparr>"

definition env_issues :: "(string list \<times> string) list \<Rightarrow> string" where
  "env_issues issues = ''Invalid environment configuration:'' @
     concat (map (\<lambda>(path, message). CHR 0x0A # join_path path @ '': '' @ message) issues)"

definition load_config ::
  "zod \<Rightarrow> (string \<Rightarrow> bool) \<Rightarrow> (string \<Rightarrow> url) \<Rightarrow> js_value \<Rightarrow> js_error + config" where
  "load_config safeParse is_url new_url process_env =
     (case safeParse (env_schema is_url) process_env of
        Inl issues \<Rightarrow> Inl (other_error ''Error'' None (env_issues issues))
      | Inr env \<Rightarrow> Inr (config_of new_url env))"

section \<open>The container\<close>

text \<open>What \<open>createContainer\<close> and \<open>server.js\<close> take from the configuration.\<close>

definition createContainer ::
  "config \<Rightarrow> express \<Rightarrow> zod \<Rightarrow> jwt \<Rightarrow> string \<Rightarrow> (ev list \<Rightarrow> js_error + unit) option \<Rightarrow> api" where
  "createContainer C X Z J timing_safe_hash ping =
     \<lparr>api_express = X, api_zod = Z, api_jwt = J, api_secret = cfg_jwt_secret C, api_expiresIn = cfg_jwt_expiresIn C,
      api_timing_safe_hash = timing_safe_hash, api_initialBalance = cfg_initialBalance C,
      api_threshold = cfg_threshold (cfg_receipt C),
      api_storage = \<lparr>sc_bucket = cfg_bucket (cfg_minio C), sc_region = cfg_region (cfg_minio C),
        sc_urlExpirySeconds = cfg_urlExpirySeconds (cfg_receipt C)\<rparr>,
      api_redis_ping = ping\<rparr>"

section \<open>What a configuration satisfies\<close>

lemma conforms_positive: "conforms (positive_number d) (js_get env k) \<Longrightarrow> 0 < env_int env k \<and> isSafeInteger (env_int env k)"
  by (cases "js_get env k") (auto simp: positive_number_def env_int_def js_int_def)

lemma conforms_nonnegative:
  "conforms (nonnegative_number d) (js_get env k) \<Longrightarrow> 0 \<le> env_int env k \<and> isSafeInteger (env_int env k)"
  by (cases "js_get env k") (auto simp: nonnegative_number_def env_int_def js_int_def)

lemma conforms_text: "conforms (ZString [ZMinLength n m]) (js_get env k) \<Longrightarrow> n \<le> length (env_text env k)"
  by (cases "js_get env k") (auto simp: env_text_def js_text_def)

definition config_ok :: "config \<Rightarrow> bool" where
  "config_ok C \<longleftrightarrow>
     0 < cfg_port C \<and> 0 < cfg_max (cfg_db C) \<and> 0 \<le> cfg_idleTimeoutMillis (cfg_db C) \<and>
     0 \<le> cfg_connectionTimeoutMillis (cfg_db C) \<and>
     32 \<le> length (cfg_jwt_secret C) \<and>
     0 \<le> cfg_initialBalance C \<and> isSafeInteger (cfg_initialBalance C) \<and>
     0 \<le> cfg_threshold (cfg_receipt C) \<and> 0 < cfg_jobAttempts (cfg_receipt C) \<and>
     0 < cfg_jobBackoffMs (cfg_receipt C) \<and> 0 < cfg_workerConcurrency (cfg_receipt C) \<and>
     0 < cfg_urlExpirySeconds (cfg_receipt C) \<and> cfg_urlExpirySeconds (cfg_receipt C) \<le> 604800 \<and>
     3 \<le> length (cfg_bucket (cfg_minio C)) \<and> pub_port (cfg_public (cfg_minio C)) \<noteq> 0 \<and>
     3 \<le> length (sd_adminUsername (cfg_seed C)) \<and> 8 \<le> length (sd_adminPassword (cfg_seed C))"

lemma config_of_ok:
  assumes "conforms (env_schema is_url) env"
  shows "config_ok (config_of new_url env)"
proof -
  from assms have c: "list_all (\<lambda>(k, sch). conforms sch (js_get env k))
    (case env_schema is_url of ZObject fs \<Rightarrow> fs)" by (simp add: env_schema_def list_all_iff)
  note c = c [unfolded env_schema_def zschema.case list.pred_inject prod.case conforms.simps(9)]
  have n: "0 < env_int env ''PORT''" "0 < env_int env ''DB_POOL_MAX''" "0 < env_int env ''RECEIPT_JOB_ATTEMPTS''"
    "0 < env_int env ''RECEIPT_JOB_BACKOFF_MS''" "0 < env_int env ''WORKER_CONCURRENCY''"
    using c conforms_positive by blast+
  have m: "0 \<le> env_int env ''DB_IDLE_TIMEOUT_MS''" "0 \<le> env_int env ''DB_CONNECTION_TIMEOUT_MS''"
    "0 \<le> env_int env ''INITIAL_WALLET_BALANCE''" "isSafeInteger (env_int env ''INITIAL_WALLET_BALANCE'')"
    "0 \<le> env_int env ''RECEIPT_THRESHOLD''"
    using c conforms_nonnegative by blast+
  have t: "32 \<le> length (env_text env ''JWT_SECRET'')" "3 \<le> length (env_text env ''MINIO_BUCKET'')"
    "3 \<le> length (env_text env ''ADMIN_USERNAME'')" "8 \<le> length (env_text env ''ADMIN_PASSWORD'')"
    using c conforms_text by blast+
  have e: "0 < env_int env ''RECEIPT_URL_EXPIRY_SECONDS'' \<and> env_int env ''RECEIPT_URL_EXPIRY_SECONDS'' \<le> 604800"
    using c by (cases "js_get env ''RECEIPT_URL_EXPIRY_SECONDS''") (simp_all add: env_int_def js_int_def)
  show ?thesis using n m t e by (simp add: config_ok_def config_of_def public_of_def)
qed

end
