(* ===== verification/Config_Theorems.thy ===== *)
theory Config_Theorems
  imports Config System_Theorems Seed_Theorems
begin

text \<open>
  What the start-up guarantees of the configuration, and one value it lets through that the
  database refuses.
\<close>


definition demo_process_env :: js_value where
  "demo_process_env = JObject
     [(''NODE_ENV'', JStr ''production''), (''PORT'', JInt 3000), (''LOG_LEVEL'', JStr ''info''),
      (''DATABASE_URL'', JStr ''postgres://db''), (''DB_POOL_MAX'', JInt 10), (''DB_IDLE_TIMEOUT_MS'', JInt 30000),
      (''DB_CONNECTION_TIMEOUT_MS'', JInt 5000), (''REDIS_URL'', JStr ''redis://redis''),
      (''JWT_SECRET'', JStr ''0123456789abcdef0123456789abcdef''), (''JWT_EXPIRES_IN'', JStr ''1h''),
      (''INITIAL_WALLET_BALANCE'', JInt 10000000), (''RECEIPT_THRESHOLD'', JInt 5000000),
      (''RECEIPT_JOB_ATTEMPTS'', JInt 5), (''RECEIPT_JOB_BACKOFF_MS'', JInt 2000), (''WORKER_CONCURRENCY'', JInt 5),
      (''MINIO_ENDPOINT'', JStr ''minio''), (''MINIO_PORT'', JInt 9000), (''MINIO_USE_SSL'', JBool False),
      (''MINIO_ACCESS_KEY'', JStr ''key''), (''MINIO_SECRET_KEY'', JStr ''secret''), (''MINIO_BUCKET'', JStr ''receipts''),
      (''MINIO_REGION'', JStr ''us-east-1''), (''MINIO_PUBLIC_URL'', JStr ''http://localhost:9000''),
      (''RECEIPT_URL_EXPIRY_SECONDS'', JInt 604800), (''ADMIN_USERNAME'', JStr ''admin''),
      (''ADMIN_PASSWORD'', JStr ''Admin@12345''), (''ADMIN_FULL_NAME'', JStr ''System Administrator''),
      (''SEED_DEMO_USERS'', JBool True)]"

definition demo_url :: url where
  "demo_url = \<lparr>url_hostname = ''localhost'', url_port = 9000, url_protocol = ''http:''\<rparr>"

lemma demo_process_env_conforms: "conforms (env_schema (\<lambda>_. True)) demo_process_env"
  by (simp add: env_schema_def demo_process_env_def js_get_def positive_number_def nonnegative_number_def
      booleanString_def isSafeInteger_def MAX_SAFE_INTEGER_def)


text \<open>An administrator's name the configuration accepts and the database refuses.\<close>

lemma admin_username_refused:
  "conforms (ZString [ZMinLength 3 None]) (JStr ''Admin'') \<and>
   (\<exists>e w'. runSeed demo_env (demo_seed\<lparr>sd_adminUsername := ''Admin''\<rparr>) demo_world = (Inl e, w') \<and>
      err_code e = Some ''23514'')"
  by (simp add: register_eval runSeed_def demo_seed_def seed_accounts_def DEMO_USERS_def ensureUser_def
      check_violation_def pg_error_def other_error_def)

end
