(* ===== verification/Lifecycle.thy ===== *)
theory Lifecycle
  imports Prelude
begin

text \<open>
  The shutdown of \<open>src/server.js\<close> and \<open>src/worker.js\<close>: the handler \<open>shutdown\<close> of each as the list of what it does,
  run by an event loop. A handler runs up to its next \<open>await\<close> and goes on when the call it awaits
  settles; signals arrive at any time; a call that rejects ends the process with an unhandled rejection.
\<close>

section \<open>Shutting down\<close>

datatype shutdown_call =
    LogInfo string | ClearRecoveryTimer | CloseWorker | CloseSockets | CloseQueue | EndPool | DisconnectRedis

text \<open>The calls behind an \<open>await\<close>; the others return at once.\<close>

definition awaited :: "shutdown_call \<Rightarrow> bool" where
  "awaited c \<longleftrightarrow> c \<in> {CloseWorker, CloseSockets, CloseQueue, EndPool}"

text \<open>\<open>server.js\<close> and \<open>worker.js\<close>: what \<open>shutdown\<close> does, in order, before \<open>process.exit(0)\<close>.\<close>

definition server_shutdown :: "shutdown_call list" where
  "server_shutdown = [LogInfo ''Shutting down HTTP server'', CloseSockets, CloseQueue, EndPool, DisconnectRedis]"

definition worker_shutdown :: "shutdown_call list" where
  "worker_shutdown = [LogInfo ''Shutting down receipt worker'', ClearRecoveryTimer, CloseWorker, CloseQueue, EndPool,
     DisconnectRedis]"

text \<open>What has been done, the call that is awaited, what is left of the handler, and the exit code.\<close>

record process =
  shuttingDown :: bool
  pr_done :: "shutdown_call list"
  pr_awaits :: "shutdown_call option"
  pr_left :: "shutdown_call list"
  pr_exit :: "int option"

definition running :: process where
  "running = \<lparr>shuttingDown = False, pr_done = [], pr_awaits = None, pr_left = [], pr_exit = None\<rparr>"

text \<open>The handler goes on with \<open>cs\<close>.\<close>

fun go_on :: "shutdown_call list \<Rightarrow> process \<Rightarrow> process" where
  "go_on [] p = p\<lparr>pr_awaits := None, pr_left := [], pr_exit := Some 0\<rparr>"
| "go_on (c # cs) p =
     (if awaited c then p\<lparr>pr_awaits := Some c, pr_left := cs\<rparr> else go_on cs (p\<lparr>pr_done := pr_done p @ [c]\<rparr>))"

text \<open>The handler of \<open>SIGTERM\<close> and \<open>SIGINT\<close>.\<close>

definition on_signal :: "shutdown_call list \<Rightarrow> process \<Rightarrow> process" where
  "on_signal script p = (if shuttingDown p then p else go_on script (p\<lparr>shuttingDown := True\<rparr>))"

text \<open>The call the handler awaits settles.\<close>

definition on_settled :: "bool \<Rightarrow> process \<Rightarrow> process" where
  "on_settled rejected p = (case pr_awaits p of
      None \<Rightarrow> p
    | Some c \<Rightarrow> if rejected then p\<lparr>pr_exit := Some 1\<rparr> else go_on (pr_left p) (p\<lparr>pr_done := pr_done p @ [c]\<rparr>))"

datatype process_event = Signal | Settled bool

text \<open>A process whose signal handler does \<open>script\<close>; nothing happens to one that has ended.\<close>

definition process_event :: "shutdown_call list \<Rightarrow> process_event \<Rightarrow> process \<Rightarrow> process" where
  "process_event script e p =
     (if pr_exit p \<noteq> None then p
      else case e of Signal \<Rightarrow> on_signal script p | Settled rejected \<Rightarrow> on_settled rejected p)"

definition process_run :: "shutdown_call list \<Rightarrow> process_event list \<Rightarrow> process" where
  "process_run script es = fold (process_event script) es running"

section \<open>The states of a shutdown\<close>

text \<open>The calls made so far, the awaited one included.\<close>

definition calls_made :: "process \<Rightarrow> shutdown_call list" where
  "calls_made p = pr_done p @ (case pr_awaits p of None \<Rightarrow> [] | Some c \<Rightarrow> [c])"

text \<open>A handler is suspended at a call it awaits, or has done everything.\<close>

definition process_inv :: "shutdown_call list \<Rightarrow> process \<Rightarrow> bool" where
  "process_inv script p \<longleftrightarrow>
     (if shuttingDown p then calls_made p @ pr_left p = script \<and> (pr_awaits p = None \<longrightarrow> pr_exit p = Some 0 \<and> pr_left p = []) \<and>
        (case pr_awaits p of None \<Rightarrow> True | Some c \<Rightarrow> awaited c \<and> pr_exit p \<in> {None, Some 1})
      else p = running)"

lemma process_inv_go_on:
  "shuttingDown p \<Longrightarrow> pr_done p @ cs = script \<Longrightarrow> pr_exit p = None \<Longrightarrow> process_inv script (go_on cs p)"
  by (induction cs p rule: go_on.induct) (auto simp: process_inv_def calls_made_def)

lemma process_inv_event:
  assumes inv: "process_inv script p"
  shows "process_inv script (process_event script e p)"
proof (cases "pr_exit p")
  case None
  show ?thesis
  proof (cases e)
    case Signal
    have "process_inv script (go_on script (running\<lparr>shuttingDown := True\<rparr>))"
      by (rule process_inv_go_on) (simp_all add: running_def)
    moreover have "p = running" if "\<not> shuttingDown p" using inv that by (simp add: process_inv_def)
    ultimately show ?thesis using inv None by (auto simp: process_event_def on_signal_def Signal)
  next
    case (Settled rejected)
    show ?thesis
    proof (cases "pr_awaits p")
      case None
      then show ?thesis using inv by (simp add: process_event_def on_settled_def Settled)
    next
      case (Some c)
      then have sd: "shuttingDown p" using inv by (auto simp: process_inv_def running_def split: if_splits)
      then have script: "(pr_done p @ [c]) @ pr_left p = script" using inv Some by (simp add: process_inv_def calls_made_def)
      have "process_inv script (go_on (pr_left p) (p\<lparr>pr_done := pr_done p @ [c]\<rparr>))"
        by (rule process_inv_go_on) (use sd script None in simp_all)
      moreover have "process_inv script (p\<lparr>pr_exit := Some 1\<rparr>)"
        using inv sd Some by (simp add: process_inv_def calls_made_def)
      ultimately show ?thesis using inv Some by (simp add: process_event_def on_settled_def Settled)
    qed
  qed
qed (use inv in \<open>simp add: process_event_def\<close>)

lemma process_inv_run: "process_inv script (process_run script es)"
proof -
  have "process_inv script p \<Longrightarrow> process_inv script (fold (process_event script) es p)" for p
    by (induction es arbitrary: p) (simp_all add: process_inv_event)
  moreover have "process_inv script running" by (simp add: process_inv_def running_def)
  ultimately show ?thesis by (simp add: process_run_def)
qed

text \<open>Only a rejection ends a process with 1.\<close>

lemma go_on_exit: "pr_exit p = None \<Longrightarrow> pr_exit (go_on cs p) \<in> {None, Some 0}"
  by (induction cs p rule: go_on.induct) auto

lemma exit_event:
  "pr_exit p \<in> {None, Some 0} \<Longrightarrow> e \<noteq> Settled True \<Longrightarrow> pr_exit (process_event script e p) \<in> {None, Some 0}"
  using go_on_exit
  by (cases e) (auto simp: process_event_def on_signal_def on_settled_def split: option.splits)

lemma exit_run: "Settled True \<notin> set es \<Longrightarrow> pr_exit (process_run script es) \<in> {None, Some 0}"
proof -
  have "pr_exit p \<in> {None, Some 0} \<Longrightarrow> Settled True \<notin> set es \<Longrightarrow>
      pr_exit (fold (process_event script) es p) \<in> {None, Some 0}" for p
  proof (induction es arbitrary: p)
    case (Cons e es)
    then have "pr_exit (process_event script e p) \<in> {None, Some 0}" by (intro exit_event) auto
    with Cons show ?case by simp
  qed simp
  then show "Settled True \<notin> set es \<Longrightarrow> pr_exit (process_run script es) \<in> {None, Some 0}"
    by (simp add: process_run_def running_def)
qed

text \<open>How many calls are still to settle.\<close>

definition to_settle :: "process \<Rightarrow> nat" where
  "to_settle p = (case pr_awaits p of None \<Rightarrow> 0 | Some c \<Rightarrow> 1) + length (filter awaited (pr_left p))"

lemma to_settle_go_on: "to_settle (go_on cs p) = length (filter awaited cs)"
  by (induction cs p rule: go_on.induct) (auto simp: to_settle_def)

definition settled_count :: "process_event list \<Rightarrow> nat" where
  "settled_count es = length (filter (\<lambda>e. e \<noteq> Signal) es)"

lemma shuttingDown_go_on [simp]: "shuttingDown (go_on cs p) = shuttingDown p"
  by (induction cs p rule: go_on.induct) auto

lemma go_on_exit_iff: "pr_exit p = None \<Longrightarrow> pr_exit (go_on cs p) = (if filter awaited cs = [] then Some 0 else None)"
  by (induction cs p rule: go_on.induct) auto

text \<open>Each call that settles brings the end nearer, signals do not, and the end comes with the last.\<close>

lemma shutdown_progress:
  assumes "process_inv script p" "shuttingDown p" "Settled True \<notin> set es"
    "pr_exit p = (if to_settle p = 0 then Some 0 else None)"
  shows "pr_exit (fold (process_event script) es p) = (if to_settle p \<le> settled_count es then Some 0 else None)"
  using assms
proof (induction es arbitrary: p)
  case Nil
  then show ?case by (simp add: settled_count_def)
next
  case (Cons e es)
  let ?q = "process_event script e p"
  show ?case
  proof (cases "to_settle p = 0 \<or> e = Signal")
    case True
    then have "?q = p" using Cons.prems(2,4) by (auto simp: process_event_def on_signal_def)
    with Cons.IH [of p] Cons.prems True show ?thesis by (auto simp: settled_count_def)
  next
    case False
    then have e: "e = Settled False" using Cons.prems(3) by (cases e) auto
    have none: "pr_exit p = None" using Cons.prems(4) False by simp
    obtain c where c: "pr_awaits p = Some c"
      using Cons.prems(1,2) none by (cases "pr_awaits p") (auto simp: process_inv_def)
    have q: "?q = go_on (pr_left p) (p\<lparr>pr_done := pr_done p @ [c]\<rparr>)"
      using none c by (simp add: process_event_def on_settled_def e)
    have "to_settle ?q = length (filter awaited (pr_left p))" unfolding q by (rule to_settle_go_on)
    then have "to_settle p = Suc (to_settle ?q)" using c by (simp add: to_settle_def)
    moreover have "pr_exit ?q = (if to_settle ?q = 0 then Some 0 else None)"
      unfolding q by (simp add: to_settle_go_on go_on_exit_iff none)
    moreover have "shuttingDown ?q" using Cons.prems(2) by (simp add: q)
    ultimately show ?thesis
      using Cons.IH [OF process_inv_event [OF Cons.prems(1)]] Cons.prems(3) by (simp add: settled_count_def e)
  qed
qed

lemma quiet_before_signal: "Signal \<notin> set es \<Longrightarrow> process_run script es = running"
proof -
  have "Signal \<notin> set es \<Longrightarrow> fold (process_event script) es running = running" for es
  proof (induction es)
    case (Cons e es)
    then have "process_event script e running = running"
      by (cases e) (auto simp: process_event_def on_settled_def running_def)
    with Cons show ?case by simp
  qed simp
  then show "Signal \<notin> set es \<Longrightarrow> process_run script es = running" by (simp add: process_run_def)
qed

text \<open>After the first signal, with no rejection, the process ends with 0 as soon as every awaited call has settled.\<close>

lemma shutdown_ends:
  assumes "Signal \<notin> set before" "Settled True \<notin> set after"
  shows "pr_exit (process_run script (before @ Signal # after)) =
    (if length (filter awaited script) \<le> settled_count after then Some 0 else None)"
proof -
  let ?p = "go_on script (running\<lparr>shuttingDown := True\<rparr>)"
  have run: "process_run script (before @ Signal # after) = fold (process_event script) after ?p"
    using quiet_before_signal [OF assms(1), of script]
    by (simp add: process_run_def process_event_def on_signal_def) (simp add: running_def)
  have "process_inv script ?p" by (rule process_inv_go_on) (simp_all add: running_def)
  moreover have "pr_exit ?p = (if to_settle ?p = 0 then Some 0 else None)"
    by (simp add: to_settle_go_on go_on_exit_iff running_def)
  moreover have "shuttingDown ?p" by simp
  ultimately show ?thesis
    unfolding run using shutdown_progress [of script ?p after] assms(2) by (simp add: to_settle_go_on)
qed

text \<open>What has been done are the first calls of the handler, and the next one may have been made.\<close>

lemma done_prefix:
  obtains k where "k \<le> length script" "pr_done (process_run script es) = take k script"
    "calls_made (process_run script es) \<in> {take k script, take (Suc k) script}"
proof -
  let ?p = "process_run script es"
  show ?thesis
  proof (cases "shuttingDown ?p")
    case True
    then have script: "calls_made ?p @ pr_left ?p = script" using process_inv_run [of script es] by (simp add: process_inv_def)
    have "length (pr_done ?p) \<le> length script"
      using arg_cong [OF script, of length] by (simp add: calls_made_def split: option.splits)
    moreover have "pr_done ?p = take (length (pr_done ?p)) script"
      by (subst script [symmetric]) (simp add: calls_made_def)
    moreover have "calls_made ?p = take (length (calls_made ?p)) script" by (subst script [symmetric]) simp
    moreover have "length (calls_made ?p) \<in> {length (pr_done ?p), Suc (length (pr_done ?p))}"
      by (simp add: calls_made_def split: option.split)
    ultimately show ?thesis by (intro that [of "length (pr_done ?p)"]) auto
  next
    case False
    then have "?p = running" using process_inv_run [of script es] by (simp add: process_inv_def)
    then show ?thesis by (intro that [of 0]) (simp_all add: calls_made_def running_def)
  qed
qed

lemma done_at_exit:
  "pr_exit (process_run script es) = Some 0 \<Longrightarrow> pr_done (process_run script es) = script"
  using process_inv_run [of script es]
  by (auto simp: process_inv_def calls_made_def running_def split: if_splits option.splits)

text \<open>\<open>c\<close> is only called when the calls \<open>C\<close> are done.\<close>

definition only_after :: "shutdown_call \<Rightarrow> shutdown_call set \<Rightarrow> process \<Rightarrow> bool" where
  "only_after c C p \<longleftrightarrow> (c \<in> set (calls_made p) \<longrightarrow> C \<subseteq> set (pr_done p))"

text \<open>An order of calls that every initial part of the handler keeps is kept at every moment.\<close>

lemma only_after_run:
  assumes "\<forall>k \<in> set [0..<length script]. c \<in> set (take (Suc k) script) \<longrightarrow> C \<subseteq> set (take k script)"
  shows "only_after c C (process_run script es)"
proof -
  obtain k where k: "k \<le> length script" "pr_done (process_run script es) = take k script"
    "calls_made (process_run script es) \<in> {take k script, take (Suc k) script}" by (rule done_prefix)
  have sub: "set (take k script) \<subseteq> set (take (Suc k) script)" by (rule set_take_subset_set_take) simp
  show ?thesis
  proof (cases "k = length script")
    case False
    then have "k \<in> set [0..<length script]" using k(1) by simp
    with assms have "c \<in> set (take (Suc k) script) \<longrightarrow> C \<subseteq> set (take k script)" by blast
    moreover have "set (calls_made (process_run script es)) \<subseteq> set (take (Suc k) script)" using k(3) sub by auto
    ultimately show ?thesis unfolding only_after_def k(2) by blast
  next
    case True
    show ?thesis
    proof (cases "c \<in> set script")
      case member: True
      then obtain i where i: "i < length script" "script ! i = c" by (auto simp: in_set_conv_nth)
      then have "c \<in> set (take (Suc i) script)" by (simp add: take_Suc_conv_app_nth)
      then have "C \<subseteq> set (take i script)" using assms i(1) by simp
      also have "\<dots> \<subseteq> set script" by (rule set_take_subset)
      finally show ?thesis using k True by (auto simp: only_after_def)
    qed (use k True in \<open>auto simp: only_after_def\<close>)
  qed
qed

lemma made_distinct: "distinct script \<Longrightarrow> distinct (calls_made (process_run script es))"
  by (rule done_prefix [of script es]) auto

section \<open>Property\<close>

text \<open>C40: the two processes shut down in order. Whatever signals arrive and however the calls settle, at
  every moment each call of the handler has been made at most once, and a resource is only ended when what
  uses it has been closed. The server ends the pool after the sockets and the queue, and disconnects Redis
  after the pool; the worker stops the recovery timer and closes the worker before it closes the queue, ends
  the pool after these, and disconnects Redis last. A process is undisturbed until the first signal, ends
  with 0 only after all its calls and with 1 only when one has rejected; and when none rejects it ends with
  0 exactly when, after the first signal, its three awaited calls have settled.\<close>

theorem shutdown_is_orderly:
  fixes es :: "process_event list"
  defines "p \<equiv> process_run server_shutdown es" and "q \<equiv> process_run worker_shutdown es"
  shows "distinct (calls_made p) \<and> distinct (calls_made q) \<and>
    only_after CloseQueue {CloseSockets} p \<and>
    only_after EndPool {CloseSockets, CloseQueue} p \<and>
    only_after DisconnectRedis {CloseSockets, CloseQueue, EndPool} p \<and>
    only_after CloseWorker {ClearRecoveryTimer} q \<and>
    only_after CloseQueue {ClearRecoveryTimer, CloseWorker} q \<and>
    only_after EndPool {ClearRecoveryTimer, CloseWorker, CloseQueue} q \<and>
    only_after DisconnectRedis {ClearRecoveryTimer, CloseWorker, CloseQueue, EndPool} q \<and>
    (Signal \<notin> set es \<longrightarrow> p = running \<and> q = running) \<and>
    (pr_exit p = Some 0 \<longrightarrow> {CloseSockets, CloseQueue, EndPool, DisconnectRedis} \<subseteq> set (pr_done p)) \<and>
    (pr_exit q = Some 0 \<longrightarrow>
      {ClearRecoveryTimer, CloseWorker, CloseQueue, EndPool, DisconnectRedis} \<subseteq> set (pr_done q)) \<and>
    (pr_exit p \<notin> {None, Some 0} \<or> pr_exit q \<notin> {None, Some 0} \<longrightarrow> Settled True \<in> set es) \<and>
    (\<forall>before after. es = before @ Signal # after \<and> Signal \<notin> set before \<and> Settled True \<notin> set after \<longrightarrow>
      pr_exit p = (if 3 \<le> settled_count after then Some 0 else None) \<and>
      pr_exit q = (if 3 \<le> settled_count after then Some 0 else None))"
proof -
  have three: "length (filter awaited server_shutdown) = 3" "length (filter awaited worker_shutdown) = 3"
    by (simp_all add: server_shutdown_def worker_shutdown_def awaited_def)
  have "distinct server_shutdown" "distinct worker_shutdown"
    by (simp_all add: server_shutdown_def worker_shutdown_def)
  moreover have "only_after CloseQueue {CloseSockets} p" "only_after EndPool {CloseSockets, CloseQueue} p"
    "only_after DisconnectRedis {CloseSockets, CloseQueue, EndPool} p"
    unfolding p_def by (rule only_after_run; simp add: server_shutdown_def)+
  moreover have "only_after CloseWorker {ClearRecoveryTimer} q"
    "only_after CloseQueue {ClearRecoveryTimer, CloseWorker} q"
    "only_after EndPool {ClearRecoveryTimer, CloseWorker, CloseQueue} q"
    "only_after DisconnectRedis {ClearRecoveryTimer, CloseWorker, CloseQueue, EndPool} q"
    unfolding q_def by (rule only_after_run; simp add: worker_shutdown_def)+
  moreover have "pr_exit p = Some 0 \<Longrightarrow> {CloseSockets, CloseQueue, EndPool, DisconnectRedis} \<subseteq> set (pr_done p)"
    unfolding p_def by (subst done_at_exit) (simp_all add: server_shutdown_def)
  moreover have "pr_exit q = Some 0 \<Longrightarrow>
      {ClearRecoveryTimer, CloseWorker, CloseQueue, EndPool, DisconnectRedis} \<subseteq> set (pr_done q)"
    unfolding q_def by (subst done_at_exit) (simp_all add: worker_shutdown_def)
  ultimately show ?thesis
    using made_distinct [of _ es] quiet_before_signal [of es] exit_run [of es] shutdown_ends three
    unfolding p_def q_def by metis
qed

theorem shutdown_is_orderly_witness:
  "pr_exit (process_run worker_shutdown [Settled False, Signal, Settled False, Signal, Settled False]) = None \<and>
   pr_exit (process_run worker_shutdown [Settled False, Signal, Settled False, Signal, Settled False, Settled False]) = Some 0"
proof -
  have ends: "pr_exit (process_run worker_shutdown (before @ Signal # after)) = (if 3 \<le> settled_count after then Some 0 else None)"
    if "Signal \<notin> set before" "Settled True \<notin> set after" for before after
    using shutdown_is_orderly [of "before @ Signal # after"] that by (elim conjE allE [of _ before] allE [of _ after]) simp
  show ?thesis
    using ends [of "[Settled False]" "[Settled False, Signal, Settled False]"]
      ends [of "[Settled False]" "[Settled False, Signal, Settled False, Settled False]"]
    by (simp add: settled_count_def)
qed

end
