(* ===== verification/Migrations.thy ===== *)
theory Migrations
  imports World "HOL-Library.List_Lexorder"
begin

text \<open>
  \<open>src/db/migrator.js\<close>. The database is a value of an arbitrary type with the table
  \<open>schema_migrations\<close> beside it; what running a migration file does to it is a parameter, as are
  the directory and the faults of the connection. A lost connection makes the server roll back
  and release the advisory lock, and the client refuses every further query.
\<close>

section \<open>The migration session\<close>

text \<open>\<open>mg_applied\<close> is the table \<open>schema_migrations\<close>, \<open>None\<close> when it does not exist.\<close>

record 'd mig_db =
  mg_schema :: 'd
  mg_applied :: "string list option"

text \<open>\<open>mg_tx\<close> is the open transaction: the database when it began, and whether a statement failed.\<close>

record 'd mig =
  mg_db :: "'d mig_db"
  mg_tx :: "('d mig_db \<times> bool) option"
  mg_up :: bool
  mg_lock :: bool
  mg_trace :: "string list"

record 'd mig_env =
  me_connect :: "js_error option"
  me_fault :: "string list \<Rightarrow> fault"
  me_readdir :: "js_error + string list"
  me_readFile :: "string \<Rightarrow> js_error + string"
  me_run :: "string \<Rightarrow> 'd \<Rightarrow> sql_error + 'd"

type_synonym ('d, 'a) mg = "(js_error, 'd mig, 'a) eff"

definition durable :: "'d mig \<Rightarrow> 'd mig_db" where
  "durable s = (case mg_tx s of None \<Rightarrow> mg_db s | Some (d0, _) \<Rightarrow> d0)"

definition hang_up :: "'d mig \<Rightarrow> 'd mig" where
  "hang_up s = s\<lparr>mg_db := durable s, mg_tx := None, mg_up := False, mg_lock := False\<rparr>"

text \<open>A query on the client; \<open>act\<close> is what the server does with it.\<close>

definition mg_call :: "'d mig_env \<Rightarrow> string \<Rightarrow> ('d mig \<Rightarrow> (sql_error + 'a) \<times> 'd mig) \<Rightarrow> ('d, 'a) mg" where
  "mg_call E lbl act = (\<lambda>s.
     let s1 = s\<lparr>mg_trace := mg_trace s @ [lbl]\<rparr> in
     if \<not> mg_up s then (Inl not_queryable, s1)
     else case me_fault E (mg_trace s1) of
       Up \<Rightarrow> (sql_result (fst (act s1)), snd (act s1))
     | DownBefore e \<Rightarrow> (Inl e, hang_up s1)
     | DownAfter e \<Rightarrow> (Inl e, hang_up (snd (act s1))))"

text \<open>A statement: refused in a transaction that has failed, and failing the one it is in.\<close>

definition mg_stmt :: "('d mig_db \<Rightarrow> sql_error + 'a \<times> 'd mig_db) \<Rightarrow> 'd mig \<Rightarrow> (sql_error + 'a) \<times> 'd mig" where
  "mg_stmt stmt s =
     (case mg_tx s of
        Some (d0, True) \<Rightarrow> (Inl (sql_err ''25P02'' ''current transaction is aborted''), s)
      | _ \<Rightarrow> (case stmt (mg_db s) of
           Inl e \<Rightarrow> (Inl e, s\<lparr>mg_tx := map_option (\<lambda>(d0, _). (d0, True)) (mg_tx s)\<rparr>)
         | Inr (x, d) \<Rightarrow> (Inr x, s\<lparr>mg_db := d\<rparr>)))"

definition mg_begin :: "'d mig \<Rightarrow> (sql_error + unit) \<times> 'd mig" where
  "mg_begin s = (Inr (), s\<lparr>mg_tx := Some (mg_db s, False)\<rparr>)"

definition mg_commit :: "'d mig \<Rightarrow> (sql_error + unit) \<times> 'd mig" where
  "mg_commit s = (Inr (), case mg_tx s of
      Some (d0, True) \<Rightarrow> s\<lparr>mg_db := d0, mg_tx := None\<rparr>
    | _ \<Rightarrow> s\<lparr>mg_tx := None\<rparr>)"

definition mg_rollback :: "'d mig \<Rightarrow> (sql_error + unit) \<times> 'd mig" where
  "mg_rollback s = (Inr (), s\<lparr>mg_db := durable s, mg_tx := None\<rparr>)"

definition mg_set_lock :: "bool \<Rightarrow> 'd mig \<Rightarrow> (sql_error + unit) \<times> 'd mig" where
  "mg_set_lock b s = (Inr (), s\<lparr>mg_lock := b\<rparr>)"

section \<open>The migrator\<close>

definition ends_with :: "string \<Rightarrow> string \<Rightarrow> bool" where
  "ends_with suffix s \<longleftrightarrow> length suffix \<le> length s \<and> drop (length s - length suffix) s = suffix"

definition listMigrationFiles :: "string list \<Rightarrow> string list" where
  "listMigrationFiles entries = sort (filter (ends_with ''.sql'') entries)"

definition create_table :: "'d mig_db \<Rightarrow> sql_error + unit \<times> 'd mig_db" where
  "create_table d = Inr ((), d\<lparr>mg_applied := Some (case mg_applied d of None \<Rightarrow> [] | Some vs \<Rightarrow> vs)\<rparr>)"

definition undefined_table :: sql_error where
  "undefined_table = sql_err ''42P01'' ''relation schema_migrations does not exist''"

definition select_versions :: "'d mig_db \<Rightarrow> sql_error + string list \<times> 'd mig_db" where
  "select_versions d = (case mg_applied d of None \<Rightarrow> Inl undefined_table | Some vs \<Rightarrow> Inr (vs, d))"

definition run_sql :: "'d mig_env \<Rightarrow> string \<Rightarrow> 'd mig_db \<Rightarrow> sql_error + unit \<times> 'd mig_db" where
  "run_sql E sql d = (case me_run E sql (mg_schema d) of Inl e \<Rightarrow> Inl e | Inr x \<Rightarrow> Inr ((), d\<lparr>mg_schema := x\<rparr>))"

definition insert_version :: "string \<Rightarrow> 'd mig_db \<Rightarrow> sql_error + unit \<times> 'd mig_db" where
  "insert_version file d =
     (case mg_applied d of
        None \<Rightarrow> Inl undefined_table
      | Some vs \<Rightarrow>
          if length file > 255 then Inl (sql_err ''22001'' ''value too long for type character varying'')
          else if file \<in> set vs then Inl unique_violation
          else Inr ((), d\<lparr>mg_applied := Some (vs @ [file])\<rparr>))"

definition answer :: "js_error + 'a \<Rightarrow> ('d, 'a) mg" where
  "answer r = (case r of Inl e \<Rightarrow> throw e | Inr x \<Rightarrow> ret x)"

definition migration_failed :: "string \<Rightarrow> js_error \<Rightarrow> js_error" where
  "migration_failed file err = err\<lparr>err_message := ''Migration '' @ file @ '' failed: '' @ err_message err\<rparr>"

text \<open>One round of the loop over the pending files.\<close>

definition apply_migration :: "'d mig_env \<Rightarrow> string \<Rightarrow> ('d, unit) mg" where
  "apply_migration E file =
     await (answer (me_readFile E file)) (\<lambda>sql.
     try_catch
       (await (mg_call E ''BEGIN'' mg_begin) (\<lambda>_.
        await (mg_call E sql (mg_stmt (run_sql E sql))) (\<lambda>_.
        await (mg_call E ''INSERT INTO schema_migrations'' (mg_stmt (insert_version file))) (\<lambda>_.
        mg_call E ''COMMIT'' mg_commit))))
       (\<lambda>err. await (mg_call E ''ROLLBACK'' mg_rollback) (\<lambda>_. throw (migration_failed file err))))"

definition runMigrations :: "'d mig_env \<Rightarrow> ('d, string list) mg" where
  "runMigrations E =
     await (answer (case me_connect E of None \<Rightarrow> Inr () | Some e \<Rightarrow> Inl e)) (\<lambda>_.
     try_finally
       (await (mg_call E ''SELECT pg_advisory_lock'' (mg_set_lock True)) (\<lambda>_.
        await (mg_call E ''CREATE TABLE IF NOT EXISTS schema_migrations'' (mg_stmt create_table)) (\<lambda>_.
        await (mg_call E ''SELECT version FROM schema_migrations'' (mg_stmt select_versions)) (\<lambda>applied.
        await (answer (me_readdir E)) (\<lambda>entries.
        let pending = filter (\<lambda>file. file \<notin> set applied) (listMigrationFiles entries) in
        await (for_each pending (apply_migration E)) (\<lambda>_.
        ret pending))))))
       (try_catch (mg_call E ''SELECT pg_advisory_unlock'' (mg_set_lock False)) (\<lambda>_. ret ())))"

section \<open>What it does\<close>

definition applied_versions :: "'d mig_db \<Rightarrow> string list" where
  "applied_versions d = (case mg_applied d of None \<Rightarrow> [] | Some vs \<Rightarrow> vs)"

definition pending_files :: "string list \<Rightarrow> 'd mig_db \<Rightarrow> string list" where
  "pending_files entries d = filter (\<lambda>file. file \<notin> set (applied_versions d)) (listMigrationFiles entries)"

text \<open>The effect of a list of migrations, each run once, in order; \<open>None\<close> when one fails.\<close>

fun run_all :: "'d mig_env \<Rightarrow> string list \<Rightarrow> 'd \<Rightarrow> 'd option" where
  "run_all E [] x = Some x"
| "run_all E (file # files) x =
     (case me_readFile E file of
        Inl _ \<Rightarrow> None
      | Inr sql \<Rightarrow> (case me_run E sql x of Inl _ \<Rightarrow> None | Inr y \<Rightarrow> run_all E files y))"

lemma run_all_snoc:
  "run_all E (files @ [file]) x = (case run_all E files x of None \<Rightarrow> None | Some y \<Rightarrow> run_all E [file] y)"
  by (induction files arbitrary: x) (auto split: sum.splits option.splits)

text \<open>The database after the first migrations of a list.\<close>

definition migrated :: "'d mig_env \<Rightarrow> 'd mig_db \<Rightarrow> string list \<Rightarrow> 'd mig_db \<Rightarrow> bool" where
  "migrated E d files d' \<longleftrightarrow>
     applied_versions d' = applied_versions d @ files \<and> run_all E files (mg_schema d) = Some (mg_schema d')"

lemma migrated_refl: "applied_versions d' = applied_versions d \<Longrightarrow> mg_schema d' = mg_schema d \<Longrightarrow> migrated E d [] d'"
  by (simp add: migrated_def)

text \<open>
  Between two migrations, and within the attempt of one, in which nothing is durable yet: the
  transaction is open, or the connection has been lost. A lost connection holds no lock.
\<close>

definition idle_mig :: "'d mig_db \<Rightarrow> 'd mig \<Rightarrow> bool" where
  "idle_mig d s \<longleftrightarrow> mg_tx s = None \<and> mg_db s = d \<and> (\<not> mg_up s \<longrightarrow> \<not> mg_lock s)"

definition attempt :: "'d mig_db \<Rightarrow> 'd mig \<Rightarrow> bool" where
  "attempt d s \<longleftrightarrow> ((\<exists>b. mg_tx s = Some (d, b)) \<and> mg_up s) \<or> (idle_mig d s \<and> \<not> mg_up s)"

lemma idle_hang_up: "attempt d s \<or> idle_mig d s \<Longrightarrow> idle_mig d (hang_up s) \<and> \<not> mg_up (hang_up s)"
  by (auto simp: idle_mig_def attempt_def hang_up_def durable_def)

lemma lost_attempt: "attempt d s \<Longrightarrow> attempt d (hang_up s)"
  using idle_hang_up by (metis attempt_def)

lemma mig_trace [simp]: "idle_mig d (s\<lparr>mg_trace := tr\<rparr>) = idle_mig d s" "attempt d (s\<lparr>mg_trace := tr\<rparr>) = attempt d s"
  by (simp_all add: idle_mig_def attempt_def)

text \<open>A call either reaches the server and returns, or fails there, or loses the connection.\<close>

lemma mg_call_cases:
  assumes "mg_call E lbl act s = (r, s')"
  obtains (closed) "\<not> mg_up s" "r = Inl not_queryable" "s' = s\<lparr>mg_trace := mg_trace s @ [lbl]\<rparr>"
  | (served) "mg_up s" "r = sql_result (fst (act (s\<lparr>mg_trace := mg_trace s @ [lbl]\<rparr>)))"
      "s' = snd (act (s\<lparr>mg_trace := mg_trace s @ [lbl]\<rparr>))"
  | (lost) e where "mg_up s" "r = Inl e" "s' = hang_up (s\<lparr>mg_trace := mg_trace s @ [lbl]\<rparr>) \<or>
      s' = hang_up (snd (act (s\<lparr>mg_trace := mg_trace s @ [lbl]\<rparr>)))"
  using assms by (auto simp: mg_call_def Let_def split: if_splits fault.splits)

lemma mg_call_Inr:
  assumes "mg_call E lbl act s = (Inr x, s')"
  shows "mg_up s \<and> act (s\<lparr>mg_trace := mg_trace s @ [lbl]\<rparr>) = (Inr x, s')"
  using assms
  by (cases "act (s\<lparr>mg_trace := mg_trace s @ [lbl]\<rparr>)")
    (auto simp: mg_call_def sql_result_def Let_def split: if_splits fault.splits sum.splits)

lemma mg_stmt_Inr:
  "mg_stmt stmt s = (Inr x, s') \<Longrightarrow> mg_tx s = None \<or> (\<exists>d0. mg_tx s = Some (d0, False)) \<Longrightarrow>
   \<exists>d. stmt (mg_db s) = Inr (x, d) \<and> s' = s\<lparr>mg_db := d\<rparr>"
  by (auto simp: mg_stmt_def split: sum.splits)

lemma attempt_stmt: "attempt d s \<Longrightarrow> mg_up s \<Longrightarrow> attempt d (snd (mg_stmt stmt s)) \<and> mg_up (snd (mg_stmt stmt s))"
  by (auto simp: attempt_def mg_stmt_def split: sum.splits bool.splits)

lemma keeps_attempt_stmt: "keeps (attempt d) (mg_call E lbl (mg_stmt stmt))"
proof (rule keepsI)
  fix s assume a: "attempt d s"
  obtain r s' where c: "mg_call E lbl (mg_stmt stmt) s = (r, s')" by (cases "mg_call E lbl (mg_stmt stmt) s")
  from c show "attempt d (snd (mg_call E lbl (mg_stmt stmt) s))"
  proof (cases rule: mg_call_cases)
    case served
    with a c attempt_stmt [of d "s\<lparr>mg_trace := mg_trace s @ [lbl]\<rparr>" stmt] show ?thesis by simp
  next
    case (lost e)
    let ?s = "s\<lparr>mg_trace := mg_trace s @ [lbl]\<rparr>"
    have "attempt d ?s" "mg_up ?s" using a lost(1) by simp_all
    then have "attempt d (hang_up ?s)" "attempt d (hang_up (snd (mg_stmt stmt ?s)))"
      using attempt_stmt lost_attempt by blast+
    with lost c show ?thesis by auto
  qed (use a c in simp)
qed

lemma begin_attempt:
  assumes "idle_mig d s" "mg_call E lbl mg_begin s = (r, s')"
  shows "attempt d s'"
  using assms(2)
proof (cases rule: mg_call_cases)
  case (lost e)
  with assms(1) idle_hang_up show ?thesis by (auto simp: idle_mig_def attempt_def mg_begin_def hang_up_def durable_def)
qed (use assms(1) in \<open>auto simp: idle_mig_def attempt_def mg_begin_def\<close>)

lemma rollback_idle:
  assumes "attempt d s" "mg_call E lbl mg_rollback s = (r, s')"
  shows "idle_mig d s'"
  using assms(2)
proof (cases rule: mg_call_cases)
  case (lost e)
  with assms(1) show ?thesis by (auto simp: idle_mig_def attempt_def mg_rollback_def hang_up_def durable_def)
qed (use assms(1) in \<open>auto simp: idle_mig_def attempt_def mg_rollback_def durable_def\<close>)

lemma commit_outcome:
  assumes "mg_tx s = Some (d, False)" "mg_up s" "mg_call E lbl mg_commit s = (r, s')"
  shows "(r = Inr () \<longrightarrow> idle_mig (mg_db s) s') \<and>
    (\<forall>e. r = Inl e \<longrightarrow> (idle_mig d s' \<or> idle_mig (mg_db s) s') \<and> \<not> mg_up s')"
  using assms(3)
proof (cases rule: mg_call_cases)
  case (lost e)
  with assms(1,2) show ?thesis by (auto simp: idle_mig_def mg_commit_def hang_up_def durable_def)
qed (use assms(1,2) in \<open>auto simp: idle_mig_def mg_commit_def sql_result_def\<close>)

section \<open>One migration\<close>

text \<open>The file was run once, and recorded.\<close>

definition applied_one :: "'d mig_env \<Rightarrow> string \<Rightarrow> 'd mig_db \<Rightarrow> 'd mig_db \<Rightarrow> bool" where
  "applied_one E file d d' \<longleftrightarrow> migrated E d [file] d'"

abbreviation attempt_body :: "'d mig_env \<Rightarrow> string \<Rightarrow> string \<Rightarrow> ('d, unit) mg" where
  "attempt_body E file sql \<equiv> await (mg_call E ''BEGIN'' mg_begin) (\<lambda>_.
     await (mg_call E sql (mg_stmt (run_sql E sql))) (\<lambda>_.
     await (mg_call E ''INSERT INTO schema_migrations'' (mg_stmt (insert_version file))) (\<lambda>_.
     mg_call E ''COMMIT'' mg_commit)))"

lemma attempt_body_outcome:
  assumes d: "idle_mig d s" and sql: "me_readFile E file = Inr sql" and run: "attempt_body E file sql s = (r, s')"
  shows "(r = Inr () \<longrightarrow> (\<exists>d'. idle_mig d' s' \<and> migrated E d [file] d')) \<and>
    (\<forall>e. r = Inl e \<longrightarrow> attempt d s' \<or> (\<exists>d'. idle_mig d' s' \<and> \<not> mg_up s' \<and> migrated E d [file] d'))"
proof -
  obtain r1 s1 where b: "mg_call E ''BEGIN'' mg_begin s = (r1, s1)" by (cases "mg_call E ''BEGIN'' mg_begin s")
  note a1 = begin_attempt [OF d b]
  show ?thesis
  proof (cases r1)
    case (Inl e)
    with a1 b run show ?thesis by auto
  next
    case (Inr x)
    with mg_call_Inr b d have s1: "mg_tx s1 = Some (d, False)" "mg_db s1 = d" "mg_up s1"
      by (fastforce simp: mg_begin_def idle_mig_def)+
    obtain r2 s2 where q: "mg_call E sql (mg_stmt (run_sql E sql)) s1 = (r2, s2)"
      by (cases "mg_call E sql (mg_stmt (run_sql E sql)) s1")
    note a2 = keepsE [OF keeps_attempt_stmt a1 q]
    show ?thesis
    proof (cases r2)
      case (Inl e)
      with a2 q b Inr run show ?thesis by auto
    next
      case r2: (Inr y)
      from mg_call_Inr [OF q [unfolded r2]]
      have "mg_stmt (run_sql E sql) (s1\<lparr>mg_trace := mg_trace s1 @ [sql]\<rparr>) = (Inr y, s2)" ..
      from mg_stmt_Inr [OF this] s1 obtain x2 where x2: "me_run E sql (mg_schema d) = Inr x2"
        and s2: "mg_tx s2 = Some (d, False)" "mg_db s2 = d\<lparr>mg_schema := x2\<rparr>" "mg_up s2"
        by (auto simp: run_sql_def split: sum.splits)
      obtain r3 s3 where i: "mg_call E ''INSERT INTO schema_migrations'' (mg_stmt (insert_version file)) s2 = (r3, s3)"
        by (cases "mg_call E ''INSERT INTO schema_migrations'' (mg_stmt (insert_version file)) s2")
      note a3 = keepsE [OF keeps_attempt_stmt a2 i]
      show ?thesis
      proof (cases r3)
        case (Inl e)
        with a3 i q r2 b Inr run show ?thesis by auto
      next
        case r3: (Inr z)
        from mg_call_Inr [OF i [unfolded r3]] have "mg_stmt (insert_version file)
          (s2\<lparr>mg_trace := mg_trace s2 @ [''INSERT INTO schema_migrations'']\<rparr>) = (Inr z, s3)" ..
        from mg_stmt_Inr [OF this] s2 obtain d3 where d3: "insert_version file (d\<lparr>mg_schema := x2\<rparr>) = Inr (z, d3)"
          and s3: "mg_tx s3 = Some (d, False)" "mg_db s3 = d3" "mg_up s3" by auto
        have m: "migrated E d [file] d3"
          using d3 sql x2 by (auto simp: migrated_def applied_versions_def insert_version_def split: option.splits if_splits)
        have "mg_call E ''COMMIT'' mg_commit s3 = (r, s')" using run b q i Inr r2 r3 by simp
        from commit_outcome [OF s3(1,3) this] s3(2) m show ?thesis by (auto simp: attempt_def)
      qed
    qed
  qed
qed

lemma apply_migration_outcome:
  assumes d: "idle_mig d s" and run: "apply_migration E file s = (r, s')"
  shows "\<exists>d'. idle_mig d' s' \<and> (migrated E d [file] d' \<or> d' = d \<and> r \<noteq> Inr ())"
proof (cases "me_readFile E file")
  case (Inl e)
  with d run show ?thesis by (auto simp: apply_migration_def answer_def)
next
  case (Inr sql)
  obtain r1 s1 where b: "attempt_body E file sql s = (r1, s1)" by (cases "attempt_body E file sql s")
  note out = attempt_body_outcome [OF d Inr b]
  show ?thesis
  proof (cases r1)
    case r1: (Inr x)
    with out b run Inr show ?thesis by (auto simp: apply_migration_def answer_def try_catch_def)
  next
    case (Inl e)
    obtain r2 s2 where rb: "mg_call E ''ROLLBACK'' mg_rollback s1 = (r2, s2)"
      by (cases "mg_call E ''ROLLBACK'' mg_rollback s1")
    have res: "s' = s2" "r \<noteq> Inr ()"
      using run Inr Inl b rb by (auto simp: apply_migration_def answer_def try_catch_def await_def split: sum.splits)
    have "\<exists>d'. idle_mig d' s2 \<and> (migrated E d [file] d' \<or> d' = d)"
    proof (cases "attempt d s1")
      case True
      from rollback_idle [OF this rb] show ?thesis by blast
    next
      case False
      with out Inl obtain d' where "idle_mig d' s1" "\<not> mg_up s1" "migrated E d [file] d'" by blast
      with rb show ?thesis by (auto simp: mg_call_def Let_def)
    qed
    with res show ?thesis by blast
  qed
qed

section \<open>All of them\<close>

lemma migrated_trans: "migrated E d xs d1 \<Longrightarrow> migrated E d1 ys d2 \<Longrightarrow> migrated E d (xs @ ys) d2"
proof -
  have "run_all E (xs @ ys) x = (case run_all E xs x of None \<Rightarrow> None | Some y \<Rightarrow> run_all E ys y)" for x
    by (induction xs arbitrary: x) (auto split: sum.splits option.splits)
  then show "migrated E d xs d1 \<Longrightarrow> migrated E d1 ys d2 \<Longrightarrow> migrated E d (xs @ ys) d2"
    by (simp add: migrated_def)
qed

lemma loop_outcome:
  assumes "idle_mig d s" "for_each files (apply_migration E) s = (r, s')"
  shows "\<exists>k d'. k \<le> length files \<and> idle_mig d' s' \<and> migrated E d (take k files) d' \<and> (r = Inr () \<longrightarrow> k = length files)"
  using assms
proof (induction files arbitrary: d s)
  case Nil
  then show ?case using migrated_refl [of d d E] by auto
next
  case (Cons f files)
  obtain r1 s1 where a: "apply_migration E f s = (r1, s1)" by (cases "apply_migration E f s")
  from apply_migration_outcome [OF Cons.prems(1) a] obtain d1 where
    d1: "idle_mig d1 s1" "migrated E d [f] d1 \<or> d1 = d \<and> r1 \<noteq> Inr ()" by blast
  show ?case
  proof (cases r1)
    case (Inl e)
    then have "r \<noteq> Inr ()" "s' = s1" using Cons.prems(2) a by auto
    moreover from d1(2) have "\<exists>k \<le> 1. migrated E d (take k (f # files)) d1"
      by (elim disjE) (rule exI [of _ 1], simp, rule exI [of _ 0], simp add: migrated_refl)
    then obtain k where "k \<le> 1" "migrated E d (take k (f # files)) d1" by blast
    ultimately show ?thesis using d1(1) by (intro exI [of _ k] exI [of _ d1]) simp
  next
    case (Inr x)
    then have "for_each files (apply_migration E) s1 = (r, s')" using Cons.prems(2) a by simp
    from Cons.IH [OF d1(1) this] obtain k d' where k: "k \<le> length files" "idle_mig d' s'"
      "migrated E d1 (take k files) d'" "r = Inr () \<longrightarrow> k = length files" by blast
    have "migrated E d (take (Suc k) (f # files)) d'"
      using migrated_trans [of E d "[f]" d1 "take k files" d'] d1(2) Inr k(3) by simp
    with k show ?thesis by (intro exI [of _ "Suc k"]) auto
  qed
qed

text \<open>The calls around the loop, none of which runs a migration.\<close>

lemma idle_lock:
  assumes "idle_mig d s" "mg_call E lbl (mg_set_lock b) s = (r, s')"
  shows "idle_mig d s' \<and> (b \<or> \<not> mg_lock s')"
  using assms(2)
proof (cases rule: mg_call_cases)
  case (lost e)
  with assms(1) show ?thesis by (auto simp: idle_mig_def mg_set_lock_def hang_up_def durable_def)
qed (use assms(1) in \<open>auto simp: idle_mig_def mg_set_lock_def\<close>)

lemma idle_stmt:
  assumes "idle_mig d s" "mg_call E lbl (mg_stmt stmt) s = (r, s')"
    and "\<And>x d'. stmt d = Inr (x, d') \<Longrightarrow> migrated E d [] d'"
  shows "\<exists>d'. idle_mig d' s' \<and> migrated E d [] d'"
proof -
  let ?s = "s\<lparr>mg_trace := mg_trace s @ [lbl]\<rparr>"
  have "\<exists>d'. mg_db (snd (mg_stmt stmt ?s)) = d' \<and> migrated E d [] d' \<and> mg_tx (snd (mg_stmt stmt ?s)) = None \<and>
      mg_up (snd (mg_stmt stmt ?s)) = mg_up s"
    using assms(1,3) migrated_refl [of d d E] by (cases "stmt d") (auto simp: mg_stmt_def idle_mig_def)
  moreover have "\<exists>d'. idle_mig d' s \<and> migrated E d [] d'" using assms(1) migrated_refl [of d d E] by blast
  ultimately show ?thesis using assms(1,2)
    by (cases rule: mg_call_cases [OF assms(2)]) (auto simp: idle_mig_def hang_up_def durable_def)
qed

lemma create_select:
  "create_table d = Inr (u, d') \<Longrightarrow> migrated E d [] d'"
  "select_versions d = Inr (vs, d'') \<Longrightarrow> migrated E d [] d'' \<and> applied_versions d = vs"
  by (auto simp: create_table_def select_versions_def applied_versions_def intro!: migrated_refl split: option.splits)

text \<open>The work under the lock.\<close>

definition locked_work :: "'d mig_env \<Rightarrow> ('d, string list) mg" where
  "locked_work E =
     await (mg_call E ''SELECT pg_advisory_lock'' (mg_set_lock True)) (\<lambda>_.
     await (mg_call E ''CREATE TABLE IF NOT EXISTS schema_migrations'' (mg_stmt create_table)) (\<lambda>_.
     await (mg_call E ''SELECT version FROM schema_migrations'' (mg_stmt select_versions)) (\<lambda>applied.
     await (answer (me_readdir E)) (\<lambda>entries.
     let pending = filter (\<lambda>file. file \<notin> set applied) (listMigrationFiles entries) in
     await (for_each pending (apply_migration E)) (\<lambda>_.
     ret pending)))))"

text \<open>
  The database holds the first of the pending migrations, and all of them when the work returns.
\<close>

definition progress :: "'d mig_env \<Rightarrow> 'd mig_db \<Rightarrow> js_error + string list \<Rightarrow> 'd mig_db \<Rightarrow> bool" where
  "progress E d r d' \<longleftrightarrow>
     (case me_readdir E of
        Inl e \<Rightarrow> migrated E d [] d' \<and> (\<forall>p. r \<noteq> Inr p)
      | Inr entries \<Rightarrow> (\<exists>k. migrated E d (take k (pending_files entries d)) d' \<and>
          (\<forall>p. r = Inr p \<longrightarrow> p = pending_files entries d \<and> length p \<le> k)))"

lemma progress_early: "migrated E d [] d' \<Longrightarrow> progress E d (Inl e) d'"
  by (auto simp: progress_def intro: exI [of _ 0] split: sum.split)

lemma locked_work_progress:
  assumes "idle_mig d s" "locked_work E s = (r, s')"
  shows "\<exists>d'. idle_mig d' s' \<and> progress E d r d'"
proof -
  obtain r1 s1 where c1: "mg_call E ''SELECT pg_advisory_lock'' (mg_set_lock True) s = (r1, s1)"
    by (cases "mg_call E ''SELECT pg_advisory_lock'' (mg_set_lock True) s")
  have i1: "idle_mig d s1" using idle_lock [OF assms(1) c1] ..
  obtain r2 s2 where c2: "mg_call E ''CREATE TABLE IF NOT EXISTS schema_migrations'' (mg_stmt create_table) s1 = (r2, s2)"
    by (cases "mg_call E ''CREATE TABLE IF NOT EXISTS schema_migrations'' (mg_stmt create_table) s1")
  have "\<exists>d2. idle_mig d2 s2 \<and> migrated E d [] d2"
    by (rule idle_stmt [OF i1 c2]) (rule create_select(1))
  then obtain d2 where d2: "idle_mig d2 s2" "migrated E d [] d2" by blast
  obtain r3 s3 where c3: "mg_call E ''SELECT version FROM schema_migrations'' (mg_stmt select_versions) s2 = (r3, s3)"
    by (cases "mg_call E ''SELECT version FROM schema_migrations'' (mg_stmt select_versions) s2")
  have "\<exists>d3. idle_mig d3 s3 \<and> migrated E d2 [] d3"
    by (rule idle_stmt [OF d2(1) c3]) (rule create_select(2) [THEN conjunct1])
  then obtain d3 where d3: "idle_mig d3 s3" "migrated E d2 [] d3" by blast
  from migrated_trans [OF d2(2) d3(2)] have m3: "migrated E d [] d3" by simp
  show ?thesis
  proof (cases "\<exists>x y vs entries. r1 = Inr x \<and> r2 = Inr y \<and> r3 = Inr vs \<and> me_readdir E = Inr entries")
    case False
    then have "(\<exists>e. r = Inl e) \<and> (s' = s1 \<or> s' = s2 \<or> s' = s3)"
      using assms(2) c1 c2 c3
      by (cases r1; cases r2; cases r3; cases "me_readdir E") (auto simp: locked_work_def answer_def intro: sym)
    then show ?thesis
      using i1 d2 d3 m3 progress_early migrated_refl [of d d E] by blast
  next
    case True
    then obtain x y vs entries where eq: "r1 = Inr x" "r2 = Inr y" "r3 = Inr vs" "me_readdir E = Inr entries" by blast
    have "select_versions d2 = Inr (vs, d2)"
      using mg_call_Inr [OF c3 [unfolded eq]] d2(1)
      by (auto simp: mg_stmt_def idle_mig_def select_versions_def split: option.splits)
    then have vs: "vs = applied_versions d" using create_select(2) d2(2) by (fastforce simp: migrated_def)
    let ?p = "pending_files entries d"
    obtain r4 s4 where c4: "for_each ?p (apply_migration E) s3 = (r4, s4)" by (cases "for_each ?p (apply_migration E) s3")
    from loop_outcome [OF d3(1) c4] obtain k d4 where k: "k \<le> length ?p" "idle_mig d4 s4"
      "migrated E d3 (take k ?p) d4" "r4 = Inr () \<longrightarrow> k = length ?p" by blast
    have m4: "migrated E d (take k ?p) d4" using migrated_trans [OF m3 k(3)] by simp
    have "s' = s4 \<and> r = (case r4 of Inl e \<Rightarrow> Inl e | Inr _ \<Rightarrow> Inr ?p)"
      using assms(2) c1 c2 c3 c4 eq by (cases r4) (auto simp: locked_work_def answer_def vs pending_files_def Let_def)
    then have "migrated E d (take k ?p) d4 \<and> (\<forall>p. r = Inr p \<longrightarrow> p = ?p \<and> length p \<le> k)"
      using m4 k(4) by (cases r4) auto
    then have "progress E d r d4" using eq(4) by (auto simp: progress_def)
    with \<open>s' = s4 \<and> _\<close> k(2) show ?thesis by blast
  qed
qed

text \<open>C38: migrations are applied in order, each exactly once, and never in part. Whatever call
  fails and whenever the connection is lost, afterwards no transaction is open and the lock is
  free, and the database is the one that the first so many of the pending files make, run once
  each in the order of their names, with exactly those recorded; when the migrator returns, it is
  all of them, and nothing is pending any more.\<close>
theorem migrations_apply_in_order_and_whole:
  assumes "mg_tx s = None" and "mg_up s" and "me_connect E = None" and "me_readdir E = Inr entries"
  shows "case runMigrations E s of (r, s') \<Rightarrow>
    mg_tx s' = None \<and> \<not> mg_lock s' \<and>
    (\<exists>k. migrated E (mg_db s) (take k (pending_files entries (mg_db s))) (mg_db s')) \<and>
    (\<forall>p. r = Inr p \<longrightarrow> p = pending_files entries (mg_db s) \<and> migrated E (mg_db s) p (mg_db s') \<and>
       pending_files entries (mg_db s') = [])"
proof -
  have idle: "idle_mig (mg_db s) s" using assms(1,2) by (simp add: idle_mig_def)
  obtain r1 s1 where w: "locked_work E s = (r1, s1)" by (cases "locked_work E s")
  from locked_work_progress [OF idle w] obtain d where d: "idle_mig d s1" "progress E (mg_db s) r1 d" by blast
  obtain r2 s2 where u: "mg_call E ''SELECT pg_advisory_unlock'' (mg_set_lock False) s1 = (r2, s2)"
    by (cases "mg_call E ''SELECT pg_advisory_unlock'' (mg_set_lock False) s1")
  from idle_lock [OF d(1) u] have i2: "idle_mig d s2" "\<not> mg_lock s2" by simp_all
  have run: "runMigrations E s = (r1, s2)"
    using w u assms(3)
    by (cases r2) (simp_all add: runMigrations_def locked_work_def answer_def try_finally_def try_catch_def)
  from d(2) assms(4) obtain k where k: "migrated E (mg_db s) (take k (pending_files entries (mg_db s))) d"
    "\<And>p. r1 = Inr p \<Longrightarrow> p = pending_files entries (mg_db s) \<and> length p \<le> k" by (auto simp: progress_def)
  have "pending_files entries d = []" if "migrated E (mg_db s) (pending_files entries (mg_db s)) d"
    using that by (auto simp: migrated_def pending_files_def filter_empty_conv)
  with run i2 k show ?thesis by (fastforce simp: idle_mig_def)
qed

definition demo_mig :: "nat mig_env" where
  "demo_mig = \<lparr>me_connect = None, me_fault = (\<lambda>tr. if last tr = ''b'' then DownBefore not_queryable else Up),
     me_readdir = Inr [''2.sql'', ''notes'', ''1.sql''],
     me_readFile = (\<lambda>f. Inr (if f = ''1.sql'' then ''a'' else ''b'')),
     me_run = (\<lambda>sql n. Inr (if sql = ''a'' then n + 1 else n * 10))\<rparr>"

definition demo_mig_start :: "nat mig" where
  "demo_mig_start = \<lparr>mg_db = \<lparr>mg_schema = 4, mg_applied = None\<rparr>, mg_tx = None, mg_up = True, mg_lock = False, mg_trace = []\<rparr>"

lemma demo_pending: "pending_files [''2.sql'', ''notes'', ''1.sql''] (mg_db demo_mig_start) = [''1.sql'', ''2.sql'']"
  by (simp add: pending_files_def applied_versions_def demo_mig_start_def listMigrationFiles_def ends_with_def
      less_eq_char_simp)

lemmas mig_eval = runMigrations_def demo_mig_def demo_mig_start_def answer_def mg_call_def mg_stmt_def mg_begin_def
  mg_commit_def mg_rollback_def mg_set_lock_def create_table_def select_versions_def run_sql_def insert_version_def
  apply_migration_def listMigrationFiles_def ends_with_def less_eq_char_simp await_def try_catch_def try_finally_def
  sql_result_def hang_up_def durable_def Let_def

theorem migrations_apply_in_order_and_whole_witness:
  "\<exists>e s'. runMigrations demo_mig demo_mig_start = (Inl e, s') \<and> \<not> mg_lock s' \<and>
     mg_db s' = \<lparr>mg_schema = 5, mg_applied = Some [''1.sql'']\<rparr> \<and>
     (\<exists>k. migrated demo_mig (mg_db demo_mig_start) (take k [''1.sql'', ''2.sql'']) (mg_db s'))"
proof -
  obtain e s' where run: "runMigrations demo_mig demo_mig_start = (Inl e, s')"
    "mg_db s' = \<lparr>mg_schema = 5, mg_applied = Some [''1.sql'']\<rparr>"
    by (simp add: mig_eval)
  from migrations_apply_in_order_and_whole [of demo_mig_start demo_mig, OF _ _ _ _] run demo_pending show ?thesis
    by (auto simp: demo_mig_def demo_mig_start_def)
qed

end
