(* ===== verification/Receipt_Theorems.thy ===== *)
theory Receipt_Theorems
  imports Listing_Theorems
begin

text \<open>
  The receipt pipeline: what the worker does with a job, why a repeated job is harmless, what
  happens to a job that fails for good, and how the recovery finds the receipts whose job was
  lost.
\<close>

section \<open>Marking a receipt\<close>

definition receipt_marked :: "uuid \<Rightarrow> string \<Rightarrow> string \<Rightarrow> db \<Rightarrow> db \<Rightarrow> bool" where
  "receipt_marked tid key url d d' \<longleftrightarrow>
     users d' = users d \<and> wallets d' = wallets d \<and> transaction_ledger d' = transaction_ledger d \<and>
     (\<exists>now. transactions d' = map (\<lambda>t. if t_id t = tid
        then t\<lparr>t_receipt_status := GENERATED, t_receipt_object_key := Some key, t_receipt_url := Some url,
             t_updated_at := now\<rparr> else t) (transactions d))"

lemma receipt_marked_tables:
  "receipt_marked tid key url c d' \<Longrightarrow> tables c = tables d \<Longrightarrow> receipt_marked tid key url d d'"
  by (simp add: receipt_marked_def tables_def)

lemma autocommit_mark_generated:
  assumes "db_ok d"
  shows "\<exists>n d'. autocommit (mark_generated tid key url) d = (Inr n, d') \<and> receipt_marked tid key url d d'"
proof -
  have "transactions_check (set_updated_at_tx d (t\<lparr>t_receipt_status := GENERATED,
      t_receipt_object_key := Some key, t_receipt_url := Some url\<rparr>))" if "t \<in> set (transactions d)" for t
    using assms that by (simp add: db_ok_def wf_transactions_def transactions_check_def set_updated_at_tx_def)
  then show ?thesis
    by (auto simp: autocommit_def mark_generated_def update_transactions_def Let_def receipt_marked_def
        commit_db_def set_updated_at_tx_def guard_not_def intro!: exI [of _ "now_ts d"] map_cong)
qed

lemma find_map_key:
  "(\<And>x. key (f x) = key x) \<Longrightarrow> find (\<lambda>x. key x = k) (map f xs) = map_option f (find (\<lambda>x. key x = k) xs)"
  by (induction xs) auto

text \<open>Only the receipt of that transaction changes.\<close>

lemma stored_after_mark:
  assumes "receipt_marked tid key url d d'"
  shows "stored_transaction d' i = (if i = tid
     then map_option (\<lambda>T. T\<lparr>tx_receiptStatus := GENERATED, tx_receiptUrl := Some url, tx_receiptObjectKey := Some key\<rparr>)
            (stored_transaction d i)
     else stored_transaction d i)"
proof -
  from assms obtain now where tx: "transactions d' = map (\<lambda>t. if t_id t = tid
        then t\<lparr>t_receipt_status := GENERATED, t_receipt_object_key := Some key, t_receipt_url := Some url,
             t_updated_at := now\<rparr> else t) (transactions d)"
    and rest: "users d' = users d" "wallets d' = wallets d" by (auto simp: receipt_marked_def)
  have owner: "owner_of_wallet d' = owner_of_wallet d"
    using rest by (simp add: owner_of_wallet_def wallet_by_id_def fun_eq_iff)
  show ?thesis
  proof (cases "find (\<lambda>x. t_id x = i) (transactions d)")
    case None
    then show ?thesis by (auto simp: stored_transaction_def tx find_map_key)
  next
    case (Some t)
    then have "t_id t = i" by (auto dest: find_SomeD)
    with Some owner show ?thesis
      by (auto simp: stored_transaction_def tx find_map_key join_details_def toTransaction_def split: option.splits)
  qed
qed

section \<open>Processing a job\<close>

definition generate :: "env \<Rightarrow> storage_config \<Rightarrow> transaction \<Rightarrow> job_result js" where
  "generate E C t =
     await (get_state (\<lambda>w. clock E (trace w))) (\<lambda>now.
     await (upload E C (receiptObjectKey (tx_id t)) (buildReceipt t now) RECEIPT_CONTENT_TYPE) (\<lambda>_.
     await (getDownloadUrl E C (Some (receiptObjectKey (tx_id t)))) (\<lambda>url.
     await (transactions_markReceiptGenerated E (tx_id t) (receiptObjectKey (tx_id t)) url Pool) (\<lambda>_.
     await (log_msg ''info'' ''Receipt generated'') (\<lambda>_.
     ret \<lparr>jr_objectKey = Some (receiptObjectKey (tx_id t)), jr_url = Some url, jr_skipped = False\<rparr>)))))"

lemma processReceiptJob_split:
  "processReceiptJob E C job = await (transactions_findById E (job_transactionId job) Pool) (\<lambda>found.
     case found of
       None \<Rightarrow> throw (UnrecoverableError (''Transaction '' @ job_transactionId job @ '' not found''))
     | Some t \<Rightarrow>
         if tx_receiptStatus t = GENERATED
         then ret \<lparr>jr_objectKey = tx_receiptObjectKey t, jr_url = tx_receiptUrl t, jr_skipped = True\<rparr>
         else generate E C t)"
  unfolding processReceiptJob_def generate_def Let_def by (rule refl)

lemma processReceiptJob_stored:
  assumes "quiet E" "db_safe (database w)"
  shows "processReceiptJob E C job w = (let u = after_read E ''transactions.findById'' w in
     case stored_transaction (database w) (job_transactionId job) of
       None \<Rightarrow> (Inl (UnrecoverableError (''Transaction '' @ job_transactionId job @ '' not found'')), u)
     | Some t \<Rightarrow>
         if tx_receiptStatus t = GENERATED
         then (Inr \<lparr>jr_objectKey = tx_receiptObjectKey t, jr_url = tx_receiptUrl t, jr_skipped = True\<rparr>, u)
         else generate E C t u)"
  by (simp add: processReceiptJob_split findById_stored [OF assms] await_def Let_def split: option.split)

text \<open>The receipt text of \<open>t\<close> is put under its key; whether the rest succeeds decides the mark.\<close>

lemma generate_quiet:
  fixes t :: transaction and C :: storage_config
  assumes env: "quiet E" and ok: "db_ok (database u)"
  defines "ev1 \<equiv> EvPut (sc_bucket C) (receiptObjectKey (tx_id t)) (buildReceipt t (clock E (trace u))) RECEIPT_CONTENT_TYPE"
    and "ev2 \<equiv> EvPresign (sc_bucket C) (receiptObjectKey (tx_id t)) (sc_urlExpirySeconds C)"
  shows "case put_object E (trace u @ [ev1]) of
      Inl e \<Rightarrow> generate E C t u = (Inl e, u\<lparr>trace := trace u @ [ev1]\<rparr>)
    | Inr _ \<Rightarrow> (case presigned_get E (trace u @ [ev1, ev2]) of
        Inl e \<Rightarrow> generate E C t u = (Inl e, u\<lparr>trace := trace u @ [ev1, ev2]\<rparr>)
      | Inr url \<Rightarrow> \<exists>d'. receipt_marked (tx_id t) (receiptObjectKey (tx_id t)) url (database u) d' \<and>
          generate E C t u = (Inr \<lparr>jr_objectKey = Some (receiptObjectKey (tx_id t)), jr_url = Some url, jr_skipped = False\<rparr>,
            u\<lparr>database := d', trace := trace u @ [ev1, ev2, EvQuery ''transactions.markReceiptGenerated'',
               EvLog ''info'' ''Receipt generated'']\<rparr>))"
proof (cases "put_object E (trace u @ [ev1])")
  case (Inl e)
  then show ?thesis by (simp add: generate_def upload_def call_def await_def ev1_def Let_def)
next
  case (Inr x)
  show ?thesis
  proof (cases "presigned_get E (trace u @ [ev1, ev2])")
    case (Inl e)
    with Inr show ?thesis
      by (simp add: generate_def upload_def getDownloadUrl_def call_def await_def ev1_def ev2_def Let_def)
  next
    case (Inr url)
    let ?u = "u\<lparr>trace := trace u @ [ev1, ev2]\<rparr>"
    have "db_ok (at_query E ''transactions.markReceiptGenerated'' ?u)" using ok by simp
    from autocommit_mark_generated [OF this] obtain n d' where m:
      "autocommit (mark_generated (tx_id t) (receiptObjectKey (tx_id t)) url)
         (at_query E ''transactions.markReceiptGenerated'' ?u) = (Inr n, d')"
      "receipt_marked (tx_id t) (receiptObjectKey (tx_id t)) url (at_query E ''transactions.markReceiptGenerated'' ?u) d'"
      by blast
    have "receipt_marked (tx_id t) (receiptObjectKey (tx_id t)) url (database u) d'"
      using m(2) by (rule receipt_marked_tables) simp
    moreover have "generate E C t u =
        (Inr \<lparr>jr_objectKey = Some (receiptObjectKey (tx_id t)), jr_url = Some url, jr_skipped = False\<rparr>,
         u\<lparr>database := d', trace := trace u @ [ev1, ev2, EvQuery ''transactions.markReceiptGenerated'',
            EvLog ''info'' ''Receipt generated'']\<rparr>)"
      using \<open>put_object E _ = _\<close> Inr m(1)
      by (simp add: generate_def upload_def getDownloadUrl_def transactions_markReceiptGenerated_def call_def await_def
          query_quiet [OF env] log_msg_def ev1_def ev2_def Let_def)
    ultimately show ?thesis using \<open>put_object E _ = _\<close> Inr by auto
  qed
qed

lemma stored_transaction_id: "stored_transaction d tid = Some T \<Longrightarrow> tx_id T = tid"
  by (auto simp: stored_transaction_def bind_eq_Some_conv join_details_def toTransaction_def
      dest!: find_SomeD split: option.splits)

text \<open>The two ways a job ends well, and the ways it fails.\<close>

lemma processReceiptJob_Inr:
  assumes env: "quiet E" and ok: "db_ok (database w)" and safe: "db_safe (database w)"
    and run: "processReceiptJob E C job w = (Inr r, w')"
  obtains T where "stored_transaction (database w) (job_transactionId job) = Some T"
      "tx_receiptStatus T = GENERATED" "tables (database w') = tables (database w)"
      "trace w' = trace w @ [EvQuery ''transactions.findById'']"
      "r = \<lparr>jr_objectKey = tx_receiptObjectKey T, jr_url = tx_receiptUrl T, jr_skipped = True\<rparr>"
  | T url now where "stored_transaction (database w) (job_transactionId job) = Some T"
      "tx_receiptStatus T \<noteq> GENERATED"
      "receipt_marked (tx_id T) (receiptObjectKey (tx_id T)) url (database w) (database w')"
      "r = \<lparr>jr_objectKey = Some (receiptObjectKey (tx_id T)), jr_url = Some url, jr_skipped = False\<rparr>"
      "EvPut (sc_bucket C) (receiptObjectKey (tx_id T)) (buildReceipt T now) RECEIPT_CONTENT_TYPE \<in> set (trace w')"
proof -
  let ?u = "after_read E ''transactions.findById'' w"
  have ok': "db_ok (database ?u)" using ok by (rule db_ok_after_read)
  from run obtain T where T: "stored_transaction (database w) (job_transactionId job) = Some T"
    by (auto simp: processReceiptJob_stored [OF env safe] Let_def split: option.splits)
  show ?thesis
  proof (cases "tx_receiptStatus T = GENERATED")
    case True
    with run T that(1) show ?thesis by (auto simp: processReceiptJob_stored [OF env safe] Let_def)
  next
    case False
    with run T have g: "generate E C T ?u = (Inr r, w')"
      by (simp add: processReceiptJob_stored [OF env safe] Let_def)
    with generate_quiet [OF env ok', where t = T and C = C] obtain url where
      m: "receipt_marked (tx_id T) (receiptObjectKey (tx_id T)) url (database ?u) (database w')"
      "r = \<lparr>jr_objectKey = Some (receiptObjectKey (tx_id T)), jr_url = Some url, jr_skipped = False\<rparr>"
      "EvPut (sc_bucket C) (receiptObjectKey (tx_id T)) (buildReceipt T (clock E (trace ?u))) RECEIPT_CONTENT_TYPE \<in> set (trace w')"
      by (auto split: sum.splits)
    have "receipt_marked (tx_id T) (receiptObjectKey (tx_id T)) url (database w) (database w')"
      using m(1) by (rule receipt_marked_tables) simp
    from that(2) [OF T False this m(2,3)] show ?thesis .
  qed
qed

lemma processReceiptJob_Inl:
  assumes env: "quiet E" and ok: "db_ok (database w)" and safe: "db_safe (database w)"
    and run: "processReceiptJob E C job w = (Inl e, w')"
  shows "tables (database w') = tables (database w)"
proof -
  let ?u = "after_read E ''transactions.findById'' w"
  have ok': "db_ok (database ?u)" using ok by (rule db_ok_after_read)
  show ?thesis
  proof (cases "stored_transaction (database w) (job_transactionId job)")
    case None
    with run show ?thesis by (auto simp: processReceiptJob_stored [OF env safe] Let_def)
  next
    case (Some T)
    with run have "generate E C T ?u = (Inl e, w')"
      by (simp add: processReceiptJob_stored [OF env safe] Let_def split: if_splits)
    with generate_quiet [OF env ok', where t = T and C = C]
    have "database w' = database ?u" by (auto split: sum.splits)
    then show ?thesis by simp
  qed
qed

text \<open>C25: what a receipt job does, with no one else acting: a job whose receipt is generated already
  uploads nothing and changes no table; any other job that returns has put exactly the text of
  the stored transaction under the transaction's own key, and has turned that receipt, and no
  other, into a generated one with that key and the presigned link; and a job that raises (the
  transaction does not exist, the upload or the link fails) has changed no table, so that it can
  be tried again.\<close>
theorem receipt_job_outcome:
  assumes "quiet E" and "db_ok (database w)" and "db_safe (database w)"
  shows "case processReceiptJob E C job w of
      (Inl e, w') \<Rightarrow> tables (database w') = tables (database w)
    | (Inr r, w') \<Rightarrow> \<exists>T. stored_transaction (database w) (job_transactionId job) = Some T \<and>
        (if tx_receiptStatus T = GENERATED
         then r = \<lparr>jr_objectKey = tx_receiptObjectKey T, jr_url = tx_receiptUrl T, jr_skipped = True\<rparr> \<and>
           tables (database w') = tables (database w) \<and> trace w' = trace w @ [EvQuery ''transactions.findById'']
         else \<exists>url now. r = \<lparr>jr_objectKey = Some (receiptObjectKey (tx_id T)), jr_url = Some url, jr_skipped = False\<rparr> \<and>
           EvPut (sc_bucket C) (receiptObjectKey (tx_id T)) (buildReceipt T now) RECEIPT_CONTENT_TYPE \<in> set (trace w') \<and>
           (\<forall>i. stored_transaction (database w') i =
              (if i = tx_id T then Some (T\<lparr>tx_receiptStatus := GENERATED, tx_receiptUrl := Some url,
                                        tx_receiptObjectKey := Some (receiptObjectKey (tx_id T))\<rparr>)
               else stored_transaction (database w) i)))"
proof (cases "processReceiptJob E C job w")
  case (Pair r w')
  show ?thesis
  proof (cases r)
    case (Inl e)
    with Pair have "processReceiptJob E C job w = (Inl e, w')" by simp
    from processReceiptJob_Inl [OF assms this] Pair Inl show ?thesis by simp
  next
    case (Inr x)
    with Pair have run: "processReceiptJob E C job w = (Inr x, w')" by simp
    show ?thesis using assms run
    proof (cases rule: processReceiptJob_Inr)
      case (1 T)
      with run show ?thesis by simp
    next
      case (2 T url now)
      have "tx_id T = job_transactionId job" using 2(1) by (rule stored_transaction_id)
      with 2 stored_after_mark [OF 2(3)] run show ?thesis by auto
    qed
  qed
qed

definition demo_job :: job where
  "demo_job = \<lparr>job_transactionId = ''t0'', job_attemptsMade = 0, job_opts_attempts = Some 5\<rparr>"

lemmas job_eval = demo_eval processReceiptJob_def transactions_findById_def join_details_def owner_of_wallet_def
  wallet_by_id_def toTransaction_def details_int8s_def upload_def getDownloadUrl_def
  transactions_markReceiptGenerated_def mark_generated_def update_transactions_def transactions_check_def
  set_updated_at_tx_def demo_job_def

lemma demo_job_runs:
  "\<exists>w'. processReceiptJob demo_env demo_storage demo_job demo_world =
     (Inr \<lparr>jr_objectKey = Some ''receipts/t0.txt'', jr_url = Some ''https://files/t0'', jr_skipped = False\<rparr>, w')"
  by (simp add: job_eval receiptObjectKey_def)

theorem receipt_job_outcome_witness:
  "\<exists>w' T. processReceiptJob demo_env demo_storage demo_job demo_world =
     (Inr \<lparr>jr_objectKey = Some ''receipts/t0.txt'', jr_url = Some ''https://files/t0'', jr_skipped = False\<rparr>, w') \<and>
     stored_transaction (database w') ''t0'' = Some T \<and> tx_receiptStatus T = GENERATED"
proof -
  obtain w' where run: "processReceiptJob demo_env demo_storage demo_job demo_world =
     (Inr \<lparr>jr_objectKey = Some ''receipts/t0.txt'', jr_url = Some ''https://files/t0'', jr_skipped = False\<rparr>, w')"
    using demo_job_runs by blast
  obtain T where T: "stored_transaction demo_db ''t0'' = Some T" "tx_receiptStatus T \<noteq> GENERATED" "tx_id T = ''t0''"
    by (simp add: stored_transaction_def join_details_def owner_of_wallet_def wallet_by_id_def demo_defs toTransaction_def)
  have "job_transactionId demo_job = ''t0''" by (simp add: demo_job_def)
  with receipt_job_outcome [OF demo_safe_args, where C = demo_storage and job = demo_job] run T
  have "\<exists>T. stored_transaction (database w') ''t0'' = Some T \<and> tx_receiptStatus T = GENERATED" by auto
  with run show ?thesis by blast
qed

text \<open>Receipt jobs may be delivered more than once: after a job has returned, the same job again
  answers with the same link and key as skipped, uploads nothing and leaves every table alone.\<close>
lemma receipt_job_idempotent:
  assumes "quiet E" and "db_ok (database w)" and "db_safe (database w)"
    and "processReceiptJob E C job w = (Inr r, w')"
  shows "\<exists>w''. processReceiptJob E C job w' = (Inr (r\<lparr>jr_skipped := True\<rparr>), w'') \<and>
     tables (database w'') = tables (database w') \<and> trace w'' = trace w' @ [EvQuery ''transactions.findById'']"
proof -
  obtain T' where T': "stored_transaction (database w') (job_transactionId job) = Some T'"
    "tx_receiptStatus T' = GENERATED" "jr_objectKey r = tx_receiptObjectKey T'" "jr_url r = tx_receiptUrl T'"
    and safe: "db_safe (database w')"
    using assms
  proof (cases rule: processReceiptJob_Inr)
    case (1 T)
    have "stored_transaction (database w') (job_transactionId job) = stored_transaction (database w) (job_transactionId job)"
      unfolding stored_transaction_def find_details_tables [OF 1(3)] ..
    with 1 that [of T] assms(3) db_safe_tables [OF 1(3)] show ?thesis by simp
  next
    case (2 T url now)
    have "tx_id T = job_transactionId job" using 2(1) by (rule stored_transaction_id)
    moreover have "db_safe (database w')"
      using assms(3) 2(3) by (auto simp: db_safe_def receipt_marked_def)
    ultimately show ?thesis
      using stored_after_mark [OF 2(3), of "job_transactionId job"] 2
      by (intro that [of "T\<lparr>tx_receiptStatus := GENERATED, tx_receiptUrl := Some url,
          tx_receiptObjectKey := Some (receiptObjectKey (tx_id T))\<rparr>"]) simp_all
  qed
  have "r\<lparr>jr_skipped := True\<rparr> = \<lparr>jr_objectKey = tx_receiptObjectKey T', jr_url = tx_receiptUrl T', jr_skipped = True\<rparr>"
    using T'(3,4) by simp
  then show ?thesis
    using T' by (simp add: processReceiptJob_stored [OF assms(1) safe] Let_def)
qed

lemma receipt_job_idempotent_witness:
  "\<exists>r w' w''. processReceiptJob demo_env demo_storage demo_job demo_world = (Inr r, w') \<and> \<not> jr_skipped r \<and>
     processReceiptJob demo_env demo_storage demo_job w' = (Inr (r\<lparr>jr_skipped := True\<rparr>), w'')"
proof -
  obtain w' where run: "processReceiptJob demo_env demo_storage demo_job demo_world =
     (Inr \<lparr>jr_objectKey = Some ''receipts/t0.txt'', jr_url = Some ''https://files/t0'', jr_skipped = False\<rparr>, w')"
    using demo_job_runs by blast
  from receipt_job_idempotent [OF demo_safe_args run] run show ?thesis by fastforce
qed

section \<open>Jobs that fail for good\<close>

lemma autocommit_mark_failed:
  assumes "db_ok d"
  shows "\<exists>n d'. autocommit (mark_failed tid) d = (Inr n, d') \<and>
    users d' = users d \<and> wallets d' = wallets d \<and> transaction_ledger d' = transaction_ledger d \<and>
    map (\<lambda>t. (t_id t, t_amount t, t_receipt_status t)) (transactions d') =
      map (\<lambda>t. (t_id t, t_amount t, if t_id t = tid \<and> t_receipt_status t = PENDING then FAILED else t_receipt_status t))
        (transactions d)"
proof -
  have "transactions_check (set_updated_at_tx d (t\<lparr>t_receipt_status := FAILED\<rparr>))"
    if "t \<in> set (transactions d)" "t_receipt_status t = PENDING" for t
    using assms that by (auto simp: db_ok_def wf_transactions_def transactions_check_def set_updated_at_tx_def)
  then show ?thesis
    by (auto simp: autocommit_def mark_failed_def update_transactions_def Let_def commit_db_def
        set_updated_at_tx_def guard_not_def)
qed

text \<open>The failure handler never fails itself, in any environment; and when no one else acts, it
  turns a receipt into \<open>FAILED\<close> only when the failure is final (the error is unrecoverable or all
  attempts are used up) and the receipt is still pending, and changes nothing else: a receipt
  that was generated meanwhile stays generated.\<close>
lemma receipt_failure_handler:
  assumes "db_ok (database w)"
  shows "fst (onReceiptJobFailed E job err w) = Inr () \<and>
    (quiet E \<longrightarrow> (let d' = database (snd (onReceiptJobFailed E job err w)) in
       users d' = users (database w) \<and> wallets d' = wallets (database w) \<and>
       transaction_ledger d' = transaction_ledger (database w) \<and>
       map (\<lambda>t. (t_id t, t_amount t, t_receipt_status t)) (transactions d') =
         map (\<lambda>t. (t_id t, t_amount t,
           if \<exists>j. job = Some j \<and> isFinalFailure j err \<and> t_id t = job_transactionId j \<and> t_receipt_status t = PENDING
           then FAILED else t_receipt_status t)) (transactions (database w))))"
proof -
  have total: "fst (onReceiptJobFailed E job err w) = Inr ()"
    by (auto simp: onReceiptJobFailed_def log_msg_def call_def await_def try_catch_def Let_def
        split: option.split prod.split sum.split)
  show ?thesis
  proof (cases "\<exists>j. job = Some j \<and> isFinalFailure j err")
    case False
    then have "database (snd (onReceiptJobFailed E job err w)) = database w"
      by (auto simp: onReceiptJobFailed_def log_msg_def call_def Let_def split: option.split)
    with total False show ?thesis by (auto simp: Let_def)
  next
    case True
    then obtain j where j: "job = Some j" "isFinalFailure j err" by blast
    let ?w = "w\<lparr>trace := trace w @ [EvLog ''error'' ''Receipt job exhausted all attempts'']\<rparr>"
    let ?d = "at_query E ''transactions.markReceiptFailed'' ?w"
    have "db_ok ?d" using assms by simp
    from autocommit_mark_failed [OF this, of "job_transactionId j"] obtain n d' where
      m: "autocommit (mark_failed (job_transactionId j)) ?d = (Inr n, d')"
      "users d' = users ?d \<and> wallets d' = wallets ?d \<and> transaction_ledger d' = transaction_ledger ?d \<and>
       map (\<lambda>t. (t_id t, t_amount t, t_receipt_status t)) (transactions d') =
         map (\<lambda>t. (t_id t, t_amount t, if t_id t = job_transactionId j \<and> t_receipt_status t = PENDING
           then FAILED else t_receipt_status t)) (transactions ?d)" by blast
    have "database (snd (onReceiptJobFailed E job err w)) = d'" if "quiet E"
      using j m(1) by (simp add: onReceiptJobFailed_def log_msg_def call_def await_def try_catch_def
          transactions_markReceiptFailed_def query_quiet [OF that] Let_def)
    with total m(2) j show ?thesis by (simp add: at_query_def)
  qed
qed

lemma receipt_failure_handler_witness:
  "let w = snd (onReceiptJobFailed demo_env (Some (demo_job\<lparr>job_attemptsMade := 5\<rparr>)) None demo_world) in
   map t_receipt_status (transactions (database w)) = [FAILED]"
proof -
  have "db_ok (database demo_world)" by (simp add: db_ok_demo)
  from receipt_failure_handler [OF this, of demo_env "Some (demo_job\<lparr>job_attemptsMade := 5\<rparr>)" None] quiet_demo
  have "map (\<lambda>t. (t_id t, t_amount t, t_receipt_status t))
      (transactions (database (snd (onReceiptJobFailed demo_env (Some (demo_job\<lparr>job_attemptsMade := 5\<rparr>)) None demo_world)))) =
    [(''t0'', 6000000, FAILED)]"
    by (simp add: Let_def) (simp add: isFinalFailure_def demo_job_def demo_defs)
  then have "map (snd \<circ> snd) (map (\<lambda>t. (t_id t, t_amount t, t_receipt_status t))
      (transactions (database (snd (onReceiptJobFailed demo_env (Some (demo_job\<lparr>job_attemptsMade := 5\<rparr>)) None demo_world))))) =
    [FAILED]" by simp
  then show ?thesis by (simp add: comp_def Let_def)
qed

section \<open>Recovery\<close>

lemma pending_receipts_session:
  "pending_receipts older batch (at_query E lbl w) = map t_id (take (nat batch) (sort_key t_created_at
     (filter (\<lambda>t. t_receipt_status t = PENDING \<and>
        t_created_at t < clock E (trace w @ [EvQuery lbl]) - 1000 * older) (transactions (database w)))))"
  by (simp add: pending_receipts_def at_query_def)

lemma for_each_enqueue:
  "(\<And>tr. queue_add E tr = Inr ()) \<Longrightarrow>
   for_each ids (enqueue E) w = (Inr (), w\<lparr>trace := trace w @ map (\<lambda>i. EvEnqueue RECEIPT_JOB_NAME i i) ids\<rparr>)"
  by (induction ids arbitrary: w) (simp_all add: enqueue_def call_def await_def Let_def)

text \<open>No pending receipt is forgotten: as long as the queue accepts jobs, the recovery enqueues
  one job per pending receipt older than the age limit, oldest first, up to the size of a batch,
  each under its transaction's id, and nothing else; when they fit in one batch, each of them is
  enqueued. It changes no table and answers with the number of jobs.\<close>
lemma recovery_enqueues_pending:
  fixes older batch :: int and w :: world and E :: env
  defines "due \<equiv> filter (\<lambda>t. t_receipt_status t = PENDING \<and>
      t_created_at t < clock E (trace w @ [EvQuery ''transactions.findPendingReceiptIds'']) - 1000 * older)
      (transactions (database w))"
  assumes "quiet E" and "\<And>tr. queue_add E tr = Inr ()"
  shows "\<exists>w' ids. recoverPendingReceipts E older batch w = (Inr (int (length ids)), w') \<and>
     ids = map t_id (take (nat batch) (sort_key t_created_at due)) \<and>
     filter not_log (trace w') = filter not_log (trace w) @ EvQuery ''transactions.findPendingReceiptIds'' #
       map (\<lambda>i. EvEnqueue RECEIPT_JOB_NAME i i) ids \<and>
     tables (database w') = tables (database w) \<and>
     (int (length due) \<le> batch \<longrightarrow> set ids = t_id ` set due)"
proof -
  let ?lbl = "''transactions.findPendingReceiptIds''"
  define ids where "ids = map t_id (take (nat batch) (sort_key t_created_at due))"
  have "transactions_findPendingReceiptIds E older batch Pool w = (Inr ids, after_read E ?lbl w)"
    by (simp add: transactions_findPendingReceiptIds_def query_quiet_read [OF assms(2)] pending_receipts_session
        ids_def due_def)
  then obtain w' where w': "recoverPendingReceipts E older batch w = (Inr (int (length ids)), w')"
      "database w' = database (after_read E ?lbl w)"
      "filter not_log (trace w') = filter not_log (trace w) @ EvQuery ?lbl # map (\<lambda>i. EvEnqueue RECEIPT_JOB_NAME i i) ids"
    by (cases "ids = []") (auto simp: recoverPendingReceipts_def for_each_enqueue [OF assms(3)] await_def log_msg_def
        call_def not_log_def filter_id_conv Let_def)
  have "int (length due) \<le> batch \<longrightarrow> set ids = t_id ` set due"
    by (simp add: ids_def)
  with w' ids_def show ?thesis
    by (intro exI [of _ w'] exI [of _ ids]) simp
qed

lemma recovery_enqueues_pending_witness:
  "\<exists>w'. recoverPendingReceipts demo_env 60 100 demo_world = (Inr 1, w') \<and>
     EvEnqueue RECEIPT_JOB_NAME ''t0'' ''t0'' \<in> set (trace w')"
proof -
  have "\<And>tr. queue_add demo_env tr = Inr ()" by (simp add: demo_env_def)
  from recovery_enqueues_pending [OF quiet_demo this, where w = demo_world and older = 60 and batch = 100]
  obtain w' where w': "recoverPendingReceipts demo_env 60 100 demo_world = (Inr 1, w')"
    "filter not_log (trace w') = [EvQuery ''transactions.findPendingReceiptIds'', EvEnqueue RECEIPT_JOB_NAME ''t0'' ''t0'']"
    by (auto simp: demo_world_def demo_defs demo_env_def)
  then have "EvEnqueue RECEIPT_JOB_NAME ''t0'' ''t0'' \<in> set (filter not_log (trace w'))" by simp
  with filter_is_subset [of not_log "trace w'"] w'(1) show ?thesis by blast
qed

end
