(* ===== verification/Receipt_Lifecycle.thy ===== *)
theory Receipt_Lifecycle
  imports Receipt_Theorems
begin

text \<open>
  The life of a receipt job. \<open>src/worker.js\<close> gives the processor and the failure handler of
  \<open>src/workers/receipt.processor.js\<close> to a BullMQ worker. BullMQ is the record \<open>bullmq\<close>, a parameter:
  what an added job does to the jobs of the queue, and whether a job whose attempt raised is run again;
  what it documents of both is the hypothesis \<open>bullmq_documented\<close>. Which job is run next is a schedule,
  any list of ids: the attempts of different jobs come in any order, each as a whole. A worker that dies in
  the middle of an attempt (a stalled job) is left out. What is proved: a pending receipt is settled
  when its job ends.
\<close>

section \<open>The attempts of a job\<close>

definition attempt_job :: "uuid \<Rightarrow> nat \<Rightarrow> nat \<Rightarrow> job" where
  "attempt_job tid attempts made =
     \<lparr>job_transactionId = tid, job_attemptsMade = int made, job_opts_attempts = Some (int attempts)\<rparr>"

text \<open>The handlers \<open>src/worker.js\<close> puts on the worker.\<close>

datatype worker_event =
    JobCompleted job job_result | AttemptFailed "job option" "js_error option" | WorkerError js_error

definition on_worker_event :: "env \<Rightarrow> worker_event \<Rightarrow> unit js" where
  "on_worker_event E e = (case e of
     JobCompleted job res \<Rightarrow> log_msg ''info'' ''Receipt job completed''
   | AttemptFailed job err \<Rightarrow> onReceiptJobFailed E job err
   | WorkerError err \<Rightarrow> log_msg ''error'' ''Receipt worker error'')"

text \<open>
  The jobs the queue holds, by id: still to run, with the attempts made, or ended and kept
  (\<open>removeOnComplete\<close>, \<open>removeOnFail\<close>).
\<close>

datatype job_state = Live nat | Ended

type_synonym jobs = "uuid \<Rightarrow> job_state option"

text \<open>\<open>bq_retry attempts made err\<close>: whether a job is run again when the last of \<open>made\<close> attempts raised \<open>err\<close>.\<close>

record bullmq =
  bq_add :: "uuid \<Rightarrow> jobs \<Rightarrow> jobs"
  bq_retry :: "nat \<Rightarrow> nat \<Rightarrow> js_error \<Rightarrow> bool"

text \<open>
  A job is added unless the queue holds one with its id, also an ended one; it is retried until it has
  had its attempts, and not after an \<open>UnrecoverableError\<close>.
\<close>

definition bullmq_documented :: "bullmq \<Rightarrow> bool" where
  "bullmq_documented Q \<longleftrightarrow>
     (\<forall>i js. bq_add Q i js = (if js i = None then js(i \<mapsto> Live 0) else js)) \<and>
     (\<forall>attempts made err. bq_retry Q attempts made err \<longleftrightarrow> made < attempts \<and> err_name err \<noteq> ''UnrecoverableError'')"

text \<open>One attempt of a job and the event it raises.\<close>

definition run_attempt :: "env \<Rightarrow> storage_config \<Rightarrow> bullmq \<Rightarrow> nat \<Rightarrow> uuid \<Rightarrow> nat \<Rightarrow> world \<Rightarrow> job_state \<times> world" where
  "run_attempt E C Q attempts tid made w =
     (case processReceiptJob E C (attempt_job tid attempts made) w of
        (Inr res, w1) \<Rightarrow>
          (Ended, final (on_worker_event E (JobCompleted (attempt_job tid attempts (made + 1)) res)) w1)
      | (Inl err, w1) \<Rightarrow>
          (if bq_retry Q attempts (made + 1) err then Live (made + 1) else Ended,
           final (on_worker_event E (AttemptFailed (Some (attempt_job tid attempts (made + 1))) (Some err))) w1))"

text \<open>The turn of a job, if it is still to run; and the turns of a schedule.\<close>

definition turn :: "env \<Rightarrow> storage_config \<Rightarrow> bullmq \<Rightarrow> nat \<Rightarrow> uuid \<Rightarrow> jobs \<times> world \<Rightarrow> jobs \<times> world" where
  "turn E C Q attempts tid = (\<lambda>(js, w). case js tid of
     Some (Live made) \<Rightarrow> (case run_attempt E C Q attempts tid made w of (s, w') \<Rightarrow> (js(tid \<mapsto> s), w'))
   | _ \<Rightarrow> (js, w))"

type_synonym schedule = "(env \<times> uuid) list"

definition work :: "storage_config \<Rightarrow> bullmq \<Rightarrow> nat \<Rightarrow> schedule \<Rightarrow> jobs \<times> world \<Rightarrow> jobs \<times> world" where
  "work C Q attempts schedule = fold (\<lambda>(E, tid). turn E C Q attempts tid) schedule"

definition turns :: "schedule \<Rightarrow> uuid \<Rightarrow> nat" where
  "turns schedule tid = length (filter (\<lambda>x. snd x = tid) schedule)"

text \<open>The jobs still to run.\<close>

definition live :: "jobs \<Rightarrow> uuid set" where
  "live js = {i. \<exists>made. js i = Some (Live made)}"

lemma database_log_msg [simp]: "database (final (log_msg level message) w) = database w"
  by (simp add: log_msg_def call_def Let_def)

section \<open>The status of a receipt\<close>

definition receipt_of :: "db \<Rightarrow> uuid \<Rightarrow> receipt_status option" where
  "receipt_of d tid = map_option t_receipt_status (find (\<lambda>t. t_id t = tid) (transactions d))"

text \<open>What no job touches.\<close>

definition books :: "db \<Rightarrow> user_row list \<times> wallet_row list \<times> ledger_row list \<times> (uuid \<times> int) list" where
  "books d = (users d, wallets d, transaction_ledger d, map (\<lambda>t. (t_id t, t_amount t)) (transactions d))"

lemma db_safe_books: "books d' = books d \<Longrightarrow> db_safe d' = db_safe d"
proof -
  assume b: "books d' = books d"
  then have ids: "map (\<lambda>t. (t_id t, t_amount t)) (transactions d') = map (\<lambda>t. (t_id t, t_amount t)) (transactions d)"
    by (simp add: books_def)
  then have "map snd (map (\<lambda>t. (t_id t, t_amount t)) (transactions d')) =
      map snd (map (\<lambda>t. (t_id t, t_amount t)) (transactions d))" by (rule arg_cong)
  then have "map t_amount (transactions d') = map t_amount (transactions d)" by (simp add: o_def)
  from arg_cong [OF this, of set] arg_cong [OF this, of length]
  have sets: "t_amount ` set (transactions d') = t_amount ` set (transactions d)"
    and len: "length (transactions d') = length (transactions d)" by simp_all
  have image: "(\<forall>t \<in> set ts. isSafeInteger (t_amount t)) \<longleftrightarrow> (\<forall>a \<in> t_amount ` set ts. isSafeInteger a)" for ts
    by simp
  have "(\<forall>t \<in> set (transactions d'). isSafeInteger (t_amount t)) \<longleftrightarrow>
      (\<forall>t \<in> set (transactions d). isSafeInteger (t_amount t))"
    unfolding image sets ..
  then show ?thesis using b len by (simp add: db_safe_def books_def)
qed

lemma receipt_of_tables: "tables d' = tables d \<Longrightarrow> receipt_of d' tid = receipt_of d tid"
  by (simp add: receipt_of_def tables_def)

lemma books_tables: "tables d' = tables d \<Longrightarrow> books d' = books d"
  by (simp add: books_def tables_def)

lemma receipt_of_stored: "stored_transaction d tid = Some T \<Longrightarrow> receipt_of d tid = Some (tx_receiptStatus T)"
  by (auto simp: stored_transaction_def receipt_of_def bind_eq_Some_conv join_details_def toTransaction_def
      split: option.splits)

lemma receipt_of_rows:
  "receipt_of d tid = map_option (\<lambda>r. snd (snd r))
     (find (\<lambda>r. fst r = tid) (map (\<lambda>t. (t_id t, t_amount t, t_receipt_status t)) (transactions d)))"
proof -
  have "map_option t_receipt_status (find (\<lambda>t. t_id t = tid) xs) = map_option (\<lambda>r. snd (snd r))
      (find (\<lambda>r. fst r = tid) (map (\<lambda>t. (t_id t, t_amount t, t_receipt_status t)) xs))" for xs
    by (induction xs) auto
  then show ?thesis by (simp add: receipt_of_def)
qed

text \<open>
  What the attempts of the jobs of \<open>J\<close> do to the database: the books stay, and a receipt that changes is one of
  theirs and becomes generated or failed.
\<close>

definition moves :: "uuid set \<Rightarrow> db \<Rightarrow> db \<Rightarrow> bool" where
  "moves J d d' \<longleftrightarrow> books d' = books d \<and>
     (\<forall>i. receipt_of d' i \<noteq> receipt_of d i \<longrightarrow> i \<in> J \<and> receipt_of d' i \<in> {Some GENERATED, Some FAILED})"

lemma moves_tables: "tables d' = tables d \<Longrightarrow> moves J d d'"
  using receipt_of_tables books_tables unfolding moves_def by metis

lemma moves_refl [simp]: "moves J d d"
  by (simp add: moves_def)

lemma moves_trans: "moves J d d' \<Longrightarrow> moves J d' d'' \<Longrightarrow> moves J d d''"
  unfolding moves_def by metis

lemma moves_mono: "moves J d d' \<Longrightarrow> J \<subseteq> K \<Longrightarrow> moves K d d'"
  unfolding moves_def by blast

lemma moves_safe: "moves J d d' \<Longrightarrow> db_safe d' = db_safe d"
  unfolding moves_def by (elim conjE) (rule db_safe_books)

lemma moves_settled: "moves J d d' \<Longrightarrow> receipt_of d i \<noteq> Some PENDING \<Longrightarrow> receipt_of d' i \<noteq> Some PENDING"
  unfolding moves_def by (cases "receipt_of d' i = receipt_of d i") auto

lemma moves_pending:
  "moves J d d' \<Longrightarrow> receipt_of d i = Some PENDING \<Longrightarrow> receipt_of d' i \<noteq> Some PENDING \<Longrightarrow>
   receipt_of d' i \<in> {Some GENERATED, Some FAILED}"
  unfolding moves_def by (cases "receipt_of d' i = receipt_of d i") auto

lemma moves_elsewhere: "moves J d d' \<Longrightarrow> i \<notin> J \<Longrightarrow> receipt_of d' i = receipt_of d i"
  unfolding moves_def by metis

lemma movesI:
  assumes "books d' = books d" "\<And>i. i \<noteq> tid \<Longrightarrow> receipt_of d' i = receipt_of d i"
    "receipt_of d' tid \<noteq> receipt_of d tid \<Longrightarrow> receipt_of d' tid \<in> {Some GENERATED, Some FAILED}"
  shows "moves {tid} d d'"
proof -
  have "i \<in> {tid} \<and> receipt_of d' i \<in> {Some GENERATED, Some FAILED}" if "receipt_of d' i \<noteq> receipt_of d i" for i
    using that assms(2) [of i] assms(3) by (cases "i = tid") simp_all
  then show ?thesis using assms(1) by (simp add: moves_def)
qed

lemma find_status_elsewhere:
  "x \<noteq> tid \<Longrightarrow> (\<And>t. t_id (f t) = t_id t) \<Longrightarrow> map_option t_receipt_status (find (\<lambda>t. t_id t = x)
     (map (\<lambda>t. if t_id t = tid then f t else t) xs)) = map_option t_receipt_status (find (\<lambda>t. t_id t = x) xs)"
  by (induction xs) auto

lemma receipt_marked_effect:
  assumes mark: "receipt_marked tid key url d d'"
  shows "moves {tid} d d'" "receipt_of d' tid \<noteq> Some PENDING"
proof -
  from mark obtain now where rows: "transactions d' = map (\<lambda>t. if t_id t = tid
        then t\<lparr>t_receipt_status := GENERATED, t_receipt_object_key := Some key, t_receipt_url := Some url,
             t_updated_at := now\<rparr> else t) (transactions d)" by (auto simp: receipt_marked_def)
  have found: "map_option t_receipt_status (find (\<lambda>t. t_id t = tid) (transactions d')) =
      map_option (\<lambda>_. GENERATED) (find (\<lambda>t. t_id t = tid) (transactions d))"
    unfolding rows by (subst find_map_key) (auto simp: option.map_comp dest: find_SomeD intro!: option.map_cong)
  then have "receipt_of d' tid \<noteq> receipt_of d tid \<Longrightarrow> receipt_of d' tid \<in> {Some GENERATED, Some FAILED}"
    "receipt_of d' tid \<noteq> Some PENDING"
    by (cases "find (\<lambda>t. t_id t = tid) (transactions d)"; auto simp: receipt_of_def)+
  moreover have "books d' = books d" using mark by (auto simp: books_def rows receipt_marked_def)
  moreover have "receipt_of d' i = receipt_of d i" if "i \<noteq> tid" for i
    unfolding receipt_of_def rows using that by (intro find_status_elsewhere) simp_all
  ultimately show "moves {tid} d d'" "receipt_of d' tid \<noteq> Some PENDING" by (auto intro: movesI)
qed

section \<open>Beside other jobs\<close>

text \<open>
  Attempts of other jobs, by this worker or another, run at the same time: between the statements of an
  attempt of \<open>tid\<close> the other sessions do what attempts of the jobs in \<open>J\<close> do. No connection is lost.
\<close>

definition beside :: "uuid set \<Rightarrow> uuid \<Rightarrow> env \<Rightarrow> bool" where
  "beside J tid E \<longleftrightarrow> calm E \<and> others_keep db_ok E \<and> (\<forall>tr d. moves (J - {tid}) d (others E tr d))"

lemma quiet_beside: "quiet E \<Longrightarrow> beside J tid E"
  using quiet_others_keep [of E db_ok] by (simp add: beside_def quiet_calm db_ok_def) (simp add: quiet_def)

text \<open>A statement on the pool: the others act, and then it runs alone.\<close>

definition still :: "env \<Rightarrow> env" where
  "still E = E\<lparr>others := \<lambda>_ d. d\<rparr>"

lemma quiet_still: "calm E \<Longrightarrow> quiet (still E)"
  by (simp add: still_def quiet_def calm_def)

lemma query_still:
  "query E Pool lbl stmt w =
   query (still E) Pool lbl stmt (w\<lparr>database := others E (trace w @ [EvQuery lbl]) (database w)\<rparr>)"
  by (cases "db_fault E (trace w @ [EvQuery lbl])")
    (simp_all add: query_def pool_query_def session_start_def still_def Let_def)

lemma await_at: "m s = m' s' \<Longrightarrow> await m f s = await m' f s'"
  by (simp add: await_def)

lemma still_simps [simp]:
  "clock (still E) = clock E" "put_object (still E) = put_object E" "presigned_get (still E) = presigned_get E"
  by (simp_all add: still_def)

text \<open>The first statement of a job reads the transaction.\<close>

lemma processReceiptJob_still:
  assumes "calm E" "others_keep db_ok E" "db_ok (database w)"
    and "db_safe (others E (trace w @ [EvQuery ''transactions.findById'']) (database w))"
  defines "d \<equiv> others E (trace w @ [EvQuery ''transactions.findById'']) (database w)"
  shows "\<exists>u. tables (database u) = tables d \<and> db_ok (database u) \<and> open_tx u = open_tx w \<and>
    processReceiptJob E C job w = (case stored_transaction d (job_transactionId job) of
       None \<Rightarrow> (Inl (UnrecoverableError (''Transaction '' @ job_transactionId job @ '' not found'')), u)
     | Some t \<Rightarrow>
         if tx_receiptStatus t = GENERATED
         then (Inr \<lparr>jr_objectKey = tx_receiptObjectKey t, jr_url = tx_receiptUrl t, jr_skipped = True\<rparr>, u)
         else generate E C t u)"
proof -
  let ?w = "w\<lparr>database := d\<rparr>"
  let ?u = "after_read (still E) ''transactions.findById'' ?w"
  have "db_ok d" using assms(2,3) by (simp add: others_keep_def d_def)
  then have "db_ok (database ?u)" by (intro db_ok_after_read) simp
  moreover have "transactions_findById E tid Pool w = transactions_findById (still E) tid Pool ?w" for tid
    unfolding transactions_findById_def d_def by (rule await_at) (rule query_still)
  then have "transactions_findById E tid Pool w = (Inr (stored_transaction d tid), ?u)" for tid
    using findById_stored [OF quiet_still [OF assms(1)], of ?w tid] assms(4) by (simp add: d_def)
  ultimately show ?thesis
    by (intro exI [of _ ?u]) (simp add: processReceiptJob_split await_def split: option.split)
qed

text \<open>The rest of a job: an error leaves the tables, success marks the receipt in the tables others have left.\<close>

lemma generate_calm:
  assumes calm: "calm E" and others: "others_keep db_ok E" and ok: "db_ok (database u)"
    and run: "generate E C t u = (r, w')"
  shows "case r of
      Inl _ \<Rightarrow> database w' = database u
    | Inr _ \<Rightarrow> \<exists>tr key url. receipt_marked (tx_id t) key url (others E tr (database u)) (database w')"
proof -
  let ?key = "receiptObjectKey (tx_id t)"
  let ?ev1 = "EvPut (sc_bucket C) ?key (buildReceipt t (clock E (trace u))) RECEIPT_CONTENT_TYPE"
  let ?ev2 = "EvPresign (sc_bucket C) ?key (sc_urlExpirySeconds C)"
  let ?lbl = "''transactions.markReceiptGenerated''"
  let ?d = "others E (trace u @ [?ev1, ?ev2, EvQuery ?lbl]) (database u)"
  show ?thesis
  proof (cases "put_object E (trace u @ [?ev1])")
    case (Inl e)
    with run show ?thesis by (auto simp: generate_def upload_def call_def await_def Let_def)
  next
    case (Inr x)
    note put = this
    show ?thesis
    proof (cases "presigned_get E (trace u @ [?ev1, ?ev2])")
      case (Inl e)
      with run put show ?thesis
        by (auto simp: generate_def upload_def getDownloadUrl_def call_def await_def Let_def)
    next
      case (Inr url)
      let ?u = "u\<lparr>trace := trace u @ [?ev1, ?ev2]\<rparr>"
      have "db_ok ?d" using others ok by (simp add: others_keep_def)
      then have "db_ok (at_query (still E) ?lbl (?u\<lparr>database := ?d\<rparr>))" by simp
      from autocommit_mark_generated [OF this] obtain n d' where m:
        "autocommit (mark_generated (tx_id t) ?key url) (at_query (still E) ?lbl (?u\<lparr>database := ?d\<rparr>)) = (Inr n, d')"
        "receipt_marked (tx_id t) ?key url (at_query (still E) ?lbl (?u\<lparr>database := ?d\<rparr>)) d'" by blast
      have "query E Pool ?lbl (mark_generated (tx_id t) ?key url) ?u = (Inr n, ?u\<lparr>trace := trace ?u @ [EvQuery ?lbl], database := d'\<rparr>)"
        by (subst query_still) (simp add: query_quiet [OF quiet_still [OF calm]] m(1))
      with run put Inr have "database w' = d' \<and> r = Inr \<lparr>jr_objectKey = Some ?key, jr_url = Some url, jr_skipped = False\<rparr>"
        by (auto simp: generate_def upload_def getDownloadUrl_def transactions_markReceiptGenerated_def call_def await_def
            log_msg_def Let_def)
      moreover have "receipt_marked (tx_id t) ?key url ?d d'" using m(2) by (rule receipt_marked_tables) simp
      ultimately show ?thesis by auto
    qed
  qed
qed

text \<open>An attempt: when it returns the receipt is not pending, when it raises only others have moved.\<close>

lemma job_outcome:
  assumes beside: "beside J tid E" and tid: "tid \<in> J" "job_transactionId job = tid"
    and ok: "db_ok (database w)" "db_safe (database w)" and run: "processReceiptJob E C job w = (r, w')"
  shows "moves J (database w) (database w') \<and> (case r of Inr _ \<Rightarrow> receipt_of (database w') tid \<noteq> Some PENDING | Inl _ \<Rightarrow> True)"
proof -
  have calm: "calm E" and others: "others_keep db_ok E" and acts: "\<And>tr d. moves (J - {tid}) d (others E tr d)"
    using beside by (simp_all add: beside_def)
  have mv: "moves J d (others E tr d)" for tr d by (rule moves_mono [OF acts]) simp
  let ?d = "others E (trace w @ [EvQuery ''transactions.findById'']) (database w)"
  have safe: "db_safe ?d" using moves_safe [OF mv] ok(2) by simp
  obtain u where u: "tables (database u) = tables ?d" "db_ok (database u)" and split:
    "processReceiptJob E C job w = (case stored_transaction ?d tid of
       None \<Rightarrow> (Inl (UnrecoverableError (''Transaction '' @ tid @ '' not found'')), u)
     | Some t \<Rightarrow>
         if tx_receiptStatus t = GENERATED
         then (Inr \<lparr>jr_objectKey = tx_receiptObjectKey t, jr_url = tx_receiptUrl t, jr_skipped = True\<rparr>, u)
         else generate E C t u)"
    using processReceiptJob_still [OF calm others ok(1) safe, of C job] tid(2) by auto
  have first: "moves J (database w) (database u)" by (rule moves_trans [OF mv moves_tables [OF u(1)]])
  show ?thesis
  proof (cases "stored_transaction ?d tid")
    case None
    with run split first show ?thesis by auto
  next
    case (Some t)
    show ?thesis
    proof (cases "tx_receiptStatus t = GENERATED")
      case True
      have "receipt_of (database u) tid = Some GENERATED"
        using receipt_of_tables [OF u(1)] receipt_of_stored [OF Some] True by simp
      with run split first Some True show ?thesis by auto
    next
      case False
      with run split Some have "generate E C t u = (r, w')" by simp
      note out = generate_calm [OF calm others u(2) this]
      have "tx_id t = tid" using Some by (rule stored_transaction_id)
      show ?thesis
      proof (cases r)
        case (Inl e)
        with out first show ?thesis by simp
      next
        case (Inr x)
        with out \<open>tx_id t = tid\<close> obtain tr key url where
          "receipt_marked tid key url (others E tr (database u)) (database w')" by auto
        from receipt_marked_effect [OF this] have m: "moves {tid} (others E tr (database u)) (database w')"
          "receipt_of (database w') tid \<noteq> Some PENDING" by simp_all
        have "moves J (others E tr (database u)) (database w')" by (rule moves_mono [OF m(1)]) (simp add: tid(1))
        with first mv [of "database u" tr] m(2) Inr show ?thesis by (auto intro: moves_trans)
      qed
    qed
  qed
qed

text \<open>The handler after an attempt: a final failure leaves no pending receipt, another changes nothing.\<close>

lemma mark_failed_effect:
  assumes "users d' = users d \<and> wallets d' = wallets d \<and> transaction_ledger d' = transaction_ledger d \<and>
    map (\<lambda>t. (t_id t, t_amount t, t_receipt_status t)) (transactions d') =
      map (\<lambda>t. (t_id t, t_amount t, if t_id t = tid \<and> t_receipt_status t = PENDING then FAILED else t_receipt_status t))
        (transactions d)"
  shows "moves {tid} d d'" "receipt_of d' tid \<noteq> Some PENDING"
proof -
  let ?rows = "\<lambda>d. map (\<lambda>t. (t_id t, t_amount t, t_receipt_status t)) (transactions d)"
  let ?f = "\<lambda>t. (t_id t, t_amount t, if t_id t = tid \<and> t_receipt_status t = PENDING then FAILED else t_receipt_status t)"
  have rows: "?rows d' = map ?f (transactions d)" using assms by blast
  have "map (\<lambda>r. (fst r, fst (snd r))) (?rows d') = map (\<lambda>t. (t_id t, t_amount t)) (transactions d)"
    unfolding rows by simp
  then have "map (\<lambda>t. (t_id t, t_amount t)) (transactions d') = map (\<lambda>t. (t_id t, t_amount t)) (transactions d)"
    by (simp add: o_def)
  moreover have "users d' = users d" "wallets d' = wallets d" "transaction_ledger d' = transaction_ledger d"
    using assms by blast+
  ultimately have "books d' = books d" by (simp add: books_def)
  moreover have found: "map_option (\<lambda>r. snd (snd r)) (find (\<lambda>r. fst r = tid) (map ?f xs)) =
      map_option (\<lambda>t. if t_receipt_status t = PENDING then FAILED else t_receipt_status t)
        (find (\<lambda>t. t_id t = tid) xs)" for xs
    by (induction xs) auto
  have "receipt_of d' tid \<noteq> receipt_of d tid \<Longrightarrow> receipt_of d' tid \<in> {Some GENERATED, Some FAILED}"
    "receipt_of d' tid \<noteq> Some PENDING"
    unfolding receipt_of_rows [of d'] rows found
    by (cases "find (\<lambda>t. t_id t = tid) (transactions d)"; auto simp: receipt_of_def split: if_splits)+
  moreover have "map_option (\<lambda>r. snd (snd r)) (find (\<lambda>r. fst r = x) (map ?f xs)) =
      map_option t_receipt_status (find (\<lambda>t. t_id t = x) xs)" if "x \<noteq> tid" for x xs
    using that by (induction xs) auto
  then have "receipt_of d' x = receipt_of d x" if "x \<noteq> tid" for x
    unfolding receipt_of_rows [of d'] rows using that by (simp add: receipt_of_def)
  ultimately show "moves {tid} d d'" "receipt_of d' tid \<noteq> Some PENDING" by (auto intro: movesI)
qed

lemma failure_outcome:
  fixes err :: js_error
  assumes beside: "beside J tid E" and tid: "tid \<in> J" "job_transactionId job = tid" and ok: "db_ok (database w)"
  defines "d' \<equiv> database (final (onReceiptJobFailed E (Some job) (Some err)) w)"
  shows "moves J (database w) d' \<and> (isFinalFailure job (Some err) \<longrightarrow> receipt_of d' tid \<noteq> Some PENDING)"
proof (cases "isFinalFailure job (Some err)")
  case False
  then have "d' = database w" by (simp add: d'_def onReceiptJobFailed_def log_msg_def call_def Let_def)
  with False show ?thesis by simp
next
  case True
  have calm: "calm E" and others: "others_keep db_ok E" and acts: "\<And>tr d. moves (J - {tid}) d (others E tr d)"
    using beside by (simp_all add: beside_def)
  let ?lbl = "''transactions.markReceiptFailed''"
  let ?w = "w\<lparr>trace := trace w @ [EvLog ''error'' ''Receipt job exhausted all attempts'']\<rparr>"
  let ?d = "others E (trace w @ [EvLog ''error'' ''Receipt job exhausted all attempts'', EvQuery ?lbl]) (database w)"
  have "db_ok ?d" using others ok by (simp add: others_keep_def)
  then have "db_ok (at_query (still E) ?lbl (?w\<lparr>database := ?d\<rparr>))" by simp
  from autocommit_mark_failed [OF this, of tid] obtain n d1 where m:
    "autocommit (mark_failed tid) (at_query (still E) ?lbl (?w\<lparr>database := ?d\<rparr>)) = (Inr n, d1)"
    "users d1 = users ?d \<and> wallets d1 = wallets ?d \<and> transaction_ledger d1 = transaction_ledger ?d \<and>
     map (\<lambda>t. (t_id t, t_amount t, t_receipt_status t)) (transactions d1) =
       map (\<lambda>t. (t_id t, t_amount t, if t_id t = tid \<and> t_receipt_status t = PENDING then FAILED else t_receipt_status t))
         (transactions ?d)" by (auto simp: at_query_def)
  have "query E Pool ?lbl (mark_failed tid) ?w = (Inr n, ?w\<lparr>trace := trace ?w @ [EvQuery ?lbl], database := d1\<rparr>)"
    by (subst query_still) (simp add: query_quiet [OF quiet_still [OF calm]] m(1))
  then have "d' = d1"
    using True tid(2) by (simp add: d'_def onReceiptJobFailed_def log_msg_def call_def await_def try_catch_def
        transactions_markReceiptFailed_def Let_def)
  moreover have "moves J (database w) ?d" by (rule moves_mono [OF acts]) simp
  moreover have "moves J ?d d1" "receipt_of d1 tid \<noteq> Some PENDING"
    using mark_failed_effect [OF m(2)] moves_mono [of "{tid}" ?d d1 J] tid(1) by simp_all
  ultimately show ?thesis by (auto intro: moves_trans)
qed

section \<open>The end of a job\<close>

lemma bullmq_add: "bullmq_documented Q \<Longrightarrow> bq_add Q i js = (if js i = None then js(i \<mapsto> Live 0) else js)"
  by (simp add: bullmq_documented_def)

lemma bullmq_retry:
  "bullmq_documented Q \<Longrightarrow> bq_retry Q attempts made err \<longleftrightarrow> made < attempts \<and> err_name err \<noteq> ''UnrecoverableError''"
  by (simp add: bullmq_documented_def)

text \<open>After an attempt a job has another one, of which it has some left, or its receipt is settled.\<close>

lemma attempt_outcome:
  assumes Q: "bullmq_documented Q" and beside: "beside J tid E" and tid: "tid \<in> J"
    and ok: "idle_inv db_ok w" "db_safe (database w)" and run: "run_attempt E C Q attempts tid made w = (s, w')"
  shows "idle_inv db_ok w' \<and> moves J (database w) (database w') \<and>
    (case s of Live m \<Rightarrow> m = made + 1 \<and> m < attempts | Ended \<Rightarrow> receipt_of (database w') tid \<noteq> Some PENDING)"
proof -
  have others: "others_keep db_ok E" using beside by (simp add: beside_def)
  let ?j = "\<lambda>n. attempt_job tid attempts n"
  have id: "job_transactionId (?j n) = tid" for n by (simp add: attempt_job_def)
  have db: "db_ok (database w)" using ok(1) by (simp add: idle_inv_def)
  obtain r w1 where job: "processReceiptJob E C (?j made) w = (r, w1)" by (rule prod.exhaust)
  note out = job_outcome [OF beside tid id db ok(2) job]
  have idle: "idle_inv db_ok w1"
    by (rule keepsE [OF integrity.keeps_processReceiptJob [OF others] ok(1) job])
  show ?thesis
  proof (cases r)
    case (Inr res)
    with run job have "s = Ended" "w' = final (log_msg ''info'' ''Receipt job completed'') w1"
      by (simp_all add: run_attempt_def on_worker_event_def)
    with out idle Inr show ?thesis by (simp add: log_msg_def call_def Let_def)
  next
    case (Inl err)
    let ?w2 = "final (onReceiptJobFailed E (Some (?j (made + 1))) (Some err)) w1"
    from run job Inl have s: "s = (if bq_retry Q attempts (made + 1) err then Live (made + 1) else Ended)" "w' = ?w2"
      by (simp_all add: run_attempt_def on_worker_event_def)
    have "idle_inv db_ok ?w2" by (rule keepsD [OF integrity.keeps_onReceiptJobFailed [OF others] idle])
    moreover have "db_ok (database w1)" using idle by (simp add: idle_inv_def)
    note failure_outcome [OF beside tid id this, of "made + 1" err]
    moreover have "\<not> bq_retry Q attempts (made + 1) err \<longleftrightarrow> isFinalFailure (?j (made + 1)) (Some err)"
      by (auto simp: bullmq_retry [OF Q] isFinalFailure_def attempt_job_def)
    ultimately show ?thesis using out s bullmq_retry [OF Q, of attempts "made + 1" err] by (auto intro: moves_trans)
  qed
qed

text \<open>What a schedule leaves: every job that was still to run has ended, or has had all the turns of the schedule.\<close>

definition job_ok :: "nat \<Rightarrow> schedule \<Rightarrow> uuid \<Rightarrow> db \<Rightarrow> job_state option \<Rightarrow> job_state option \<Rightarrow> bool" where
  "job_ok attempts schedule i d s s' \<longleftrightarrow> (case s of
     Some (Live m) \<Rightarrow> (case s' of
         Some Ended \<Rightarrow> receipt_of d i \<noteq> Some PENDING
       | Some (Live m') \<Rightarrow> m' = m + turns schedule i \<and> (turns schedule i = 0 \<or> m' < attempts)
       | None \<Rightarrow> False)
   | _ \<Rightarrow> s' = s)"

lemma work_snoc: "work C Q attempts (schedule @ [(E, tid)]) p = turn E C Q attempts tid (work C Q attempts schedule p)"
  by (simp add: work_def)

lemma turns_simps [simp]:
  "turns [] i = 0" "turns (schedule @ [(E, tid)]) i = turns schedule i + (if tid = i then 1 else 0)"
  by (simp_all add: turns_def)

lemma job_ok_moves:
  "job_ok attempts schedule i d s s' \<Longrightarrow> moves J d d' \<Longrightarrow> tid \<noteq> i \<Longrightarrow> job_ok attempts (schedule @ [(E, tid)]) i d' s s'"
  by (auto simp: job_ok_def moves_settled split: option.splits job_state.splits)

lemma work_outcome:
  assumes Q: "bullmq_documented Q" and live: "live js \<subseteq> J" and w: "idle_inv db_ok w" "db_safe (database w)"
  shows "\<forall>(E, i) \<in> set schedule. beside J i E \<Longrightarrow> work C Q attempts schedule (js, w) = (js', w') \<Longrightarrow>
    idle_inv db_ok w' \<and> moves J (database w) (database w') \<and>
    (\<forall>i. job_ok attempts schedule i (database w') (js i) (js' i))"
proof (induction schedule arbitrary: js' w' rule: rev_induct)
  case Nil
  then show ?case using w by (simp add: work_def job_ok_def split: option.split job_state.split)
next
  case (snoc x schedule)
  obtain E tid where x: "x = (E, tid)" by (rule prod.exhaust)
  obtain js1 w1 where before: "work C Q attempts schedule (js, w) = (js1, w1)" by (rule prod.exhaust)
  have IH: "idle_inv db_ok w1" "moves J (database w) (database w1)"
    "\<And>i. job_ok attempts schedule i (database w1) (js i) (js1 i)"
    using snoc.IH [OF _ before] snoc.prems(1) by auto
  have run: "turn E C Q attempts tid (js1, w1) = (js', w')" using snoc.prems(2) before by (simp add: x work_snoc)
  have beside: "beside J tid E" using snoc.prems(1) by (simp add: x)
  show ?case
  proof (cases "\<exists>made. js1 tid = Some (Live made)")
    case False
    then have same: "js' = js1" "w' = w1" using run by (auto simp: turn_def split: option.splits job_state.splits)
    have "job_ok attempts (schedule @ [(E, tid)]) i (database w1) (js i) (js1 i)" for i
      using IH(3) [of i] False
      by (cases "tid = i") (auto simp: job_ok_def split: option.splits job_state.splits)
    with IH same show ?thesis by (simp add: x)
  next
    case True
    then obtain made s where made: "js1 tid = Some (Live made)"
      and a: "run_attempt E C Q attempts tid made w1 = (s, w')" and js': "js' = js1(tid \<mapsto> s)"
      using run by (auto simp: turn_def split: prod.splits)
    obtain m where m: "js tid = Some (Live m)" "made = m + turns schedule tid"
      using IH(3) [of tid] made by (auto simp: job_ok_def split: option.splits job_state.splits)
    have tid: "tid \<in> J" using live m(1) by (auto simp: live_def)
    have safe: "db_safe (database w1)" using moves_safe [OF IH(2)] w(2) by simp
    note out = attempt_outcome [OF Q beside tid IH(1) safe a]
    have "job_ok attempts (schedule @ [(E, tid)]) i (database w') (js i) (js' i)" for i
    proof (cases "i = tid")
      case True
      with out m js' show ?thesis by (cases s) (simp_all add: job_ok_def)
    next
      case False
      then show ?thesis using job_ok_moves [OF IH(3) [of i], of J "database w'" tid E] out js' by simp
    qed
    with out IH(2) show ?thesis by (auto simp: x intro: moves_trans)
  qed
qed

text \<open>When every job has had its turns all have ended, and their receipts are settled.\<close>

lemma work_settles:
  assumes Q: "bullmq_documented Q" and live: "live js \<subseteq> J" and w: "idle_inv db_ok w" "db_safe (database w)"
    and sched: "\<forall>(E, i) \<in> set schedule. beside J i E" and run: "work C Q attempts schedule (js, w) = (js', w')"
    and i: "i \<in> live js" "attempts \<le> turns schedule i" "0 < attempts"
  shows "js' i = Some Ended \<and> receipt_of (database w') i \<noteq> Some PENDING"
proof -
  obtain m where "js i = Some (Live m)" using i(1) by (auto simp: live_def)
  moreover have "job_ok attempts schedule i (database w') (js i) (js' i)"
    using work_outcome [OF Q live w sched run] by blast
  ultimately show ?thesis using i(2,3) by (auto simp: job_ok_def split: option.splits job_state.splits)
qed

text \<open>A job added for a pending receipt, unless the queue keeps an ended one of its id.\<close>

lemma added_job_settles:
  assumes "bullmq_documented Q" "idle_inv db_ok w" "db_safe (database w)" "receipt_of (database w) tid = Some PENDING"
    "0 < attempts" and job: "js1 = bq_add Q tid js \<and> js tid \<noteq> Some Ended \<and>
      attempts \<le> turns schedule tid \<and> (\<forall>(E, i) \<in> set schedule. beside (live js1) i E)"
  shows "case work C Q attempts schedule (js1, w) of (js2, w') \<Rightarrow> js2 tid = Some Ended \<and>
    receipt_of (database w') tid \<in> {Some GENERATED, Some FAILED} \<and> books (database w') = books (database w)"
proof -
  obtain js2 w' where run: "work C Q attempts schedule (js1, w) = (js2, w')" by (rule prod.exhaust)
  have sched: "\<forall>(E, i) \<in> set schedule. beside (live js1) i E" using job by blast
  have mv: "moves (live js1) (database w) (database w')"
    using work_outcome [OF assms(1) subset_refl assms(2,3) sched run] by blast
  have "tid \<in> live js1"
    using job by (cases "js tid"; cases "the (js tid)") (auto simp: live_def bullmq_add [OF assms(1)])
  from work_settles [OF assms(1) subset_refl assms(2,3) sched run this _ assms(5)] job
  have "js2 tid = Some Ended" "receipt_of (database w') tid \<noteq> Some PENDING" by blast+
  with moves_pending [OF mv assms(4)] mv show ?thesis by (simp add: run moves_def)
qed

section \<open>A recovery round and the jobs it adds\<close>

lemma adds: "bullmq_documented Q \<Longrightarrow>
  fold (bq_add Q) ids js i = (if i \<in> set ids \<and> js i = None then Some (Live 0) else js i)"
  by (induction ids arbitrary: js) (simp_all add: bullmq_add)

lemma receipt_of_row: "db_ok d \<Longrightarrow> t \<in> set (transactions d) \<Longrightarrow> receipt_of d (t_id t) = Some (t_receipt_status t)"
  by (auto simp: receipt_of_def db_ok_def wf_transactions_def find_Some_iff_mem)

section \<open>Property\<close>


section \<open>A concrete case\<close>

text \<open>An object store that refuses every upload.\<close>

definition broken_store :: env where
  "broken_store = demo_env\<lparr>put_object := \<lambda>_. Inl (other_error ''S3Error'' None ''down'')\<rparr>"

lemma quiet_broken_store: "quiet broken_store"
  using quiet_demo by (simp add: broken_store_def quiet_def)

lemma pending_demo: "receipt_of (database demo_world) ''t0'' = Some PENDING"
  by (simp add: receipt_of_def demo_world_def) (simp add: demo_defs)

text \<open>A queue that does as documented.\<close>

definition plain_queue :: bullmq where
  "plain_queue = \<lparr>bq_add = (\<lambda>i js. if js i = None then js(i \<mapsto> Live 0) else js),
     bq_retry = (\<lambda>attempts made err. made < attempts \<and> err_name err \<noteq> ''UnrecoverableError'')\<rparr>"

lemma plain_queue_documented: "bullmq_documented plain_queue"
  by (simp add: bullmq_documented_def plain_queue_def)


end
