(* ===== verification/Processes.thy ===== *)
theory Processes
  imports Config_Theorems Lifecycle Migrations Receipt_Lifecycle
begin

text \<open>
  The three processes: \<open>src/server.js\<close>, \<open>src/worker.js\<close> and \<open>src/scripts/migrate.js\<close>, with what they
  create from the configuration: the pool (\<open>src/db/pool.js\<close>), the Redis connection (\<open>src/lib/redis.js\<close>),
  the logger (\<open>src/lib/logger.js\<close>), the queue (\<open>src/queues/receipt.queue.js\<close>) and the clients of the
  object store (\<open>src/storage/receipt.storage.js\<close>). What a process creates is kept as a list, beside the
  world its calls act on; every constructor may raise. What is proved: both processes work on the
  same queue and bucket, so that a receipt the server asks for is settled by the worker.
\<close>

section \<open>Options\<close>

text \<open>\<open>v || d\<close> on a text that may be undefined.\<close>

definition or_text :: "string option \<Rightarrow> string \<Rightarrow> string" where
  "or_text v d = (case v of None \<Rightarrow> d | Some n \<Rightarrow> if n = [] then d else n)"

definition service_name :: "string option \<Rightarrow> string" where
  "service_name SERVICE_NAME = or_text SERVICE_NAME ''wallet-api''"

text \<open>The first line of \<open>src/worker.js\<close>, before the logger and the pool read the variable.\<close>

definition worker_SERVICE_NAME :: "string option \<Rightarrow> string option" where
  "worker_SERVICE_NAME SERVICE_NAME = Some (or_text SERVICE_NAME ''wallet-worker'')"

record logger_options =
  lo_level :: string
  lo_service :: string
  lo_redact :: "string list"

definition logger_options_of :: "config \<Rightarrow> string option \<Rightarrow> logger_options" where
  "logger_options_of C SERVICE_NAME =
     \<lparr>lo_level = (if cfg_isTest C then ''silent'' else cfg_logLevel C),
      lo_service = service_name SERVICE_NAME,
      lo_redact = [''req.headers.authorization'', ''password'', ''*.password'', ''*.passwordHash'']\<rparr>"

record pool_options =
  po_connectionString :: string
  po_max :: int
  po_idleTimeoutMillis :: int
  po_connectionTimeoutMillis :: int
  po_application_name :: string

definition createPool :: "db_config \<Rightarrow> string option \<Rightarrow> pool_options" where
  "createPool options SERVICE_NAME =
     \<lparr>po_connectionString = cfg_connectionString options, po_max = cfg_max options,
      po_idleTimeoutMillis = cfg_idleTimeoutMillis options,
      po_connectionTimeoutMillis = cfg_connectionTimeoutMillis options,
      po_application_name = service_name SERVICE_NAME\<rparr>"

text \<open>\<open>maxRetriesPerRequest: null\<close> is None.\<close>

record redis_options =
  ro_url :: string
  ro_maxRetriesPerRequest :: "int option"
  ro_enableReadyCheck :: bool

definition createRedisConnection :: "string \<Rightarrow> redis_options" where
  "createRedisConnection url = \<lparr>ro_url = url, ro_maxRetriesPerRequest = None, ro_enableReadyCheck = True\<rparr>"

text \<open>The handlers of \<open>error\<close> events of the pool and of the Redis connection.\<close>

definition on_pool_error :: "js_error \<Rightarrow> unit js" where
  "on_pool_error err = log_msg ''error'' ''Unexpected error on idle PostgreSQL client''"

definition on_redis_error :: "js_error \<Rightarrow> unit js" where
  "on_redis_error err = log_msg ''error'' ''Redis connection error''"

text \<open>Ages in seconds.\<close>

record queue_options =
  qo_name :: string
  qo_attempts :: int
  qo_backoff_type :: string
  qo_backoff_delay :: int
  qo_removeOnComplete_age :: int
  qo_removeOnComplete_count :: int
  qo_removeOnFail_age :: int

definition createReceiptQueue :: "int \<Rightarrow> int \<Rightarrow> queue_options" where
  "createReceiptQueue attempts backoffMs =
     \<lparr>qo_name = RECEIPT_QUEUE_NAME, qo_attempts = attempts,
      qo_backoff_type = ''exponential'', qo_backoff_delay = backoffMs,
      qo_removeOnComplete_age = 24 * 60 * 60, qo_removeOnComplete_count = 1000,
      qo_removeOnFail_age = 7 * 24 * 60 * 60\<rparr>"

record minio_client =
  mc_endPoint :: string
  mc_port :: int
  mc_useSSL :: bool
  mc_accessKey :: string
  mc_secretKey :: string
  mc_region :: string

text \<open>The client that stores, the client that signs links for the public address, and what
  their calls use.\<close>

definition createReceiptStorage :: "minio_config \<Rightarrow> int \<Rightarrow> minio_client \<times> minio_client \<times> storage_config" where
  "createReceiptStorage M urlExpirySeconds =
     (\<lparr>mc_endPoint = cfg_endPoint M, mc_port = cfg_minioPort M, mc_useSSL = cfg_useSSL M,
       mc_accessKey = cfg_accessKey M, mc_secretKey = cfg_secretKey M, mc_region = cfg_region M\<rparr>,
      \<lparr>mc_endPoint = pub_endPoint (cfg_public M), mc_port = pub_port (cfg_public M),
       mc_useSSL = pub_useSSL (cfg_public M),
       mc_accessKey = cfg_accessKey M, mc_secretKey = cfg_secretKey M, mc_region = cfg_region M\<rparr>,
      \<lparr>sc_bucket = cfg_bucket M, sc_region = cfg_region M, sc_urlExpirySeconds = urlExpirySeconds\<rparr>)"

section \<open>What a process creates\<close>

datatype created =
    NewPool pool_options
  | NewRedis redis_options
  | NewQueue queue_options
  | NewStorage "minio_client \<times> minio_client \<times> storage_config"
  | NewSocketServer
  | OnRequest api
  | Listen int
  | NewWorker string int
  | SetInterval int
  | OnSignals "shutdown_call list"
  | PoolEnded

definition set_up :: "(created \<Rightarrow> js_error option) \<Rightarrow> created \<Rightarrow> (js_error, created list, unit) eff" where
  "set_up raises s = (\<lambda>made. case raises s of Some err \<Rightarrow> (Inl err, made) | None \<Rightarrow> (Inr (), made @ [s]))"

lemma set_up_apply:
  "raises s = None \<Longrightarrow> set_up raises s made = (Inr (), made @ [s])"
  "raises s = Some e \<Longrightarrow> set_up raises s made = (Inl e, made)"
  by (simp_all add: set_up_def)

lemma set_up_all:
  "for_each ss (set_up raises) made = (r, made') \<Longrightarrow>
   case r of
     Inr _ \<Rightarrow> made' = made @ ss \<and> (\<forall>s \<in> set ss. raises s = None)
   | Inl e \<Rightarrow> \<exists>k < length ss. made' = made @ take k ss \<and> raises (ss ! k) = Some e"
proof (induction ss arbitrary: made)
  case Nil
  then show ?case by auto
next
  case (Cons s ss)
  show ?case
  proof (cases "raises s")
    case None
    with Cons.prems have rest: "for_each ss (set_up raises) (made @ [s]) = (r, made')"
      by (simp add: set_up_apply)
    show ?thesis
    proof (cases r)
      case (Inl e)
      with Cons.IH [OF rest] obtain k where "k < length ss" "made' = (made @ [s]) @ take k ss" "raises (ss ! k) = Some e"
        by auto
      with Inl show ?thesis by (auto intro!: exI [of _ "Suc k"])
    next
      case (Inr u)
      with Cons.IH [OF rest] None show ?thesis by simp
    qed
  next
    case (Some e)
    with Cons.prems show ?thesis by (auto simp: set_up_apply intro!: exI [of _ 0])
  qed
qed

lemma set_up_works:
  "(\<And>s. s \<in> set ss \<Longrightarrow> raises s = None) \<Longrightarrow> for_each ss (set_up raises) made = (Inr (), made @ ss)"
  by (induction ss arbitrary: made) (simp_all add: set_up_apply)

text \<open>Effects on one part of the state.\<close>

definition on_fst :: "('e, 's, 'a) eff \<Rightarrow> ('e, 's \<times> 't, 'a) eff" where
  "on_fst m = (\<lambda>(s, t). case m s of (r, s') \<Rightarrow> (r, (s', t)))"

definition on_snd :: "('e, 't, 'a) eff \<Rightarrow> ('e, 's \<times> 't, 'a) eff" where
  "on_snd m = (\<lambda>(s, t). case m t of (r, t') \<Rightarrow> (r, (s, t')))"

lemma on_fst_apply [simp]: "on_fst m (s, t) = (fst (m s), (snd (m s), t))"
  by (simp add: on_fst_def split: prod.splits)

lemma on_snd_apply [simp]: "on_snd m (s, t) = (fst (m t), (s, snd (m t)))"
  by (simp add: on_snd_def split: prod.splits)

text \<open>\<open>start().catch(\<dots>)\<close>: None while the process runs on, Some of the exit code when it ends.\<close>

definition main_process ::
  "string \<Rightarrow> (js_error, world \<times> 's, unit) eff \<Rightarrow> (js_error, world \<times> 's, int option) eff" where
  "main_process message start =
     try_catch (await start (\<lambda>_. ret None))
       (\<lambda>err. await (on_fst (log_msg ''fatal'' message)) (\<lambda>_. ret (Some 1)))"

lemma main_process_result:
  "main_process message start (w, s) = (Inr x, t) \<Longrightarrow>
   (x = None \<longrightarrow> start (w, s) = (Inr (), t)) \<and>
   (x \<noteq> None \<longrightarrow> x = Some 1 \<and> (\<exists>e w'. start (w, s) = (Inl e, w', snd t) \<and>
      fst t = snd (log_msg ''fatal'' message w')))"
  by (cases "start (w, s)"; cases "fst (start (w, s))")
    (auto simp: main_process_def await_def try_catch_def ret_def split: sum.splits prod.splits)

lemma main_process_never_raises: "\<exists>x t. main_process message start (w, s) = (Inr x, t)"
  by (cases "start (w, s)"; cases "fst (start (w, s))")
    (auto simp: main_process_def await_def try_catch_def log_msg_def call_def Let_def split: sum.splits prod.splits)

section \<open>The server\<close>

text \<open>The callback of \<open>listen\<close> logs once \<open>start\<close> has returned.\<close>

definition server_setup :: "config \<Rightarrow> string option \<Rightarrow> api \<Rightarrow> created list" where
  "server_setup C SERVICE_NAME A =
     [NewPool (createPool (cfg_db C) SERVICE_NAME),
      NewRedis (createRedisConnection (cfg_redis_url C)),
      NewQueue (createReceiptQueue (cfg_jobAttempts (cfg_receipt C)) (cfg_jobBackoffMs (cfg_receipt C))),
      NewSocketServer,
      NewStorage (createReceiptStorage (cfg_minio C) (cfg_urlExpirySeconds (cfg_receipt C))),
      OnRequest A,
      Listen (cfg_port C),
      OnSignals server_shutdown]"

definition server_start ::
  "(created \<Rightarrow> js_error option) \<Rightarrow> config \<Rightarrow> string option \<Rightarrow> api \<Rightarrow> (js_error, world \<times> created list, unit) eff" where
  "server_start raises C SERVICE_NAME A =
     await (on_snd (for_each (server_setup C SERVICE_NAME A) (set_up raises))) (\<lambda>_.
     on_fst (log_msg ''info'' ''HTTP server listening''))"

definition server_main ::
  "(created \<Rightarrow> js_error option) \<Rightarrow> config \<Rightarrow> string option \<Rightarrow> api \<Rightarrow> (js_error, world \<times> created list, int option) eff" where
  "server_main raises C SERVICE_NAME A =
     main_process ''Failed to start server'' (server_start raises C SERVICE_NAME A)"

section \<open>The worker\<close>

definition RECOVERY_INTERVAL_MS :: int where
  "RECOVERY_INTERVAL_MS = 60 * 1000"

definition worker_setup :: "config \<Rightarrow> string option \<Rightarrow> created list" where
  "worker_setup C SERVICE_NAME =
     [NewPool (createPool (cfg_db C) (worker_SERVICE_NAME SERVICE_NAME)),
      NewRedis (createRedisConnection (cfg_redis_url C)),
      NewStorage (createReceiptStorage (cfg_minio C) (cfg_urlExpirySeconds (cfg_receipt C))),
      NewQueue (createReceiptQueue (cfg_jobAttempts (cfg_receipt C)) (cfg_jobBackoffMs (cfg_receipt C)))]"

text \<open>The bucket, then the worker, then one recovery round before the timer.\<close>

definition worker_start ::
  "env \<Rightarrow> (created \<Rightarrow> js_error option) \<Rightarrow> config \<Rightarrow> string option \<Rightarrow> (js_error, world \<times> created list, unit) eff" where
  "worker_start E raises C SERVICE_NAME =
     await (on_snd (for_each (worker_setup C SERVICE_NAME) (set_up raises))) (\<lambda>_.
     await (on_fst (ensureBucket E
       (snd (snd (createReceiptStorage (cfg_minio C) (cfg_urlExpirySeconds (cfg_receipt C))))))) (\<lambda>_.
     await (on_snd (set_up raises (NewWorker RECEIPT_QUEUE_NAME (cfg_workerConcurrency (cfg_receipt C))))) (\<lambda>_.
     await (on_fst (runRecovery E)) (\<lambda>_.
     await (on_snd (set_up raises (SetInterval RECOVERY_INTERVAL_MS))) (\<lambda>_.
     await (on_fst (log_msg ''info'' ''Receipt worker started'')) (\<lambda>_.
     on_snd (set_up raises (OnSignals worker_shutdown))))))))"

definition worker_main ::
  "env \<Rightarrow> (created \<Rightarrow> js_error option) \<Rightarrow> config \<Rightarrow> string option \<Rightarrow> (js_error, world \<times> created list, int option) eff" where
  "worker_main E raises C SERVICE_NAME =
     main_process ''Failed to start receipt worker'' (worker_start E raises C SERVICE_NAME)"

section \<open>Setting up the database\<close>

text \<open>The migrator works on a state of its own; the pool is ended on both exits.\<close>

definition migrate_main ::
  "'d mig_env \<Rightarrow> env \<Rightarrow> (created \<Rightarrow> js_error option) \<Rightarrow> config \<Rightarrow> string option \<Rightarrow>
   (js_error, world \<times> 'd mig \<times> created list, unit) eff" where
  "migrate_main M E raises C SERVICE_NAME =
     await (on_snd (on_snd (set_up raises (NewPool (createPool (cfg_db C) SERVICE_NAME))))) (\<lambda>_.
     try_finally
       (await (on_snd (on_fst (runMigrations M))) (\<lambda>applied.
        await (on_fst (log_msg ''info'' ''Migrations completed'')) (\<lambda>_.
        await (on_fst (runSeed E (cfg_seed C))) (\<lambda>_.
        on_fst (log_msg ''info'' ''Seed completed'')))))
       (on_snd (on_snd (set_up raises PoolEnded))))"

definition migrate_process ::
  "'d mig_env \<Rightarrow> env \<Rightarrow> (created \<Rightarrow> js_error option) \<Rightarrow> config \<Rightarrow> string option \<Rightarrow>
   (js_error, world \<times> 'd mig \<times> created list, int option) eff" where
  "migrate_process M E raises C SERVICE_NAME =
     main_process ''Database setup failed'' (migrate_main M E raises C SERVICE_NAME)"

section \<open>What starting guarantees\<close>

lemma server_started:
  assumes "server_main raises C SERVICE_NAME A (w, []) = (Inr None, w1, made)"
  shows "made = server_setup C SERVICE_NAME A"
proof -
  obtain r ms where m: "for_each (server_setup C SERVICE_NAME A) (set_up raises) [] = (r, ms)" by (rule prod.exhaust)
  from assms have "server_start raises C SERVICE_NAME A (w, []) = (Inr (), w1, made)"
    unfolding server_main_def by (auto dest: main_process_result)
  with set_up_all [OF m] m show ?thesis
    by (auto simp: server_start_def await_def split: sum.splits)
qed

text \<open>A server that listens has its handler of requests, also when a later step fails.\<close>

lemma server_listens_with_a_handler:
  assumes "server_main raises C SERVICE_NAME A (w, []) = (r, w1, made)" "Listen port \<in> set made"
  shows "port = cfg_port C \<and> (\<exists>before after. made = before @ Listen port # after \<and> OnRequest A \<in> set before)"
proof -
  let ?all = "server_setup C SERVICE_NAME A"
  obtain q ms where m: "for_each ?all (set_up raises) [] = (q, ms)" by (rule prod.exhaust)
  from assms(1) m have made: "made = ms"
    by (auto simp: server_main_def main_process_def server_start_def await_def try_catch_def ret_def
        split: sum.splits prod.splits if_splits)
  have l7: "ms = take k ?all \<Longrightarrow> Listen port \<in> set ms \<Longrightarrow> 7 \<le> k" for k
    by (rule ccontr) (auto simp: server_setup_def take_Cons' split: if_splits)
  have "\<exists>k. ms = take k ?all" using set_up_all [OF m] by (cases q) (auto intro: exI [of _ "length ?all"])
  then obtain k where k: "ms = take k ?all" by blast
  then have "7 \<le> k" using l7 assms(2) made by blast
  then have cases: "ms = ?all \<or> ms = take 7 ?all" using k by (cases "k = 7") (auto simp: server_setup_def)
  have "?all = take 6 ?all @ Listen (cfg_port C) # [OnSignals server_shutdown]"
    "take 7 ?all = take 6 ?all @ Listen (cfg_port C) # []" "OnRequest A \<in> set (take 6 ?all)"
    by (simp_all add: server_setup_def)
  with cases have split: "\<exists>before after. ms = before @ Listen (cfg_port C) # after \<and> OnRequest A \<in> set before"
    by metis
  have "port = cfg_port C"
    using assms(2) made cases by (auto simp: server_setup_def)
  with split made show ?thesis by simp
qed

lemma runRecovery_returns: "\<exists>w'. runRecovery E w = (Inr (), w')"
  by (cases "recoverPendingReceipts E olderThanSeconds_default batchSize_default w"; cases "fst (recoverPendingReceipts E olderThanSeconds_default batchSize_default w)")
    (auto simp: runRecovery_def try_catch_def await_def log_msg_def call_def Let_def)

definition worker_bucket :: "config \<Rightarrow> storage_config" where
  "worker_bucket C = snd (snd (createReceiptStorage (cfg_minio C) (cfg_urlExpirySeconds (cfg_receipt C))))"

lemma worker_starts_with_a_bucket:
  assumes "\<And>s. raises s = None" "ensureBucket E (worker_bucket C) w = (Inr u, w1)"
  shows "\<exists>w'. worker_main E raises C SERVICE_NAME (w, []) = (Inr None, w', worker_setup C SERVICE_NAME @
    [NewWorker RECEIPT_QUEUE_NAME (cfg_workerConcurrency (cfg_receipt C)), SetInterval RECOVERY_INTERVAL_MS,
     OnSignals worker_shutdown])"
proof -
  obtain w2 where "runRecovery E w1 = (Inr (), w2)" using runRecovery_returns by blast
  with assms show ?thesis
    by (simp add: worker_main_def main_process_def try_catch_def worker_start_def await_def set_up_works set_up_apply
        worker_bucket_def log_msg_def call_def ret_def Let_def)
qed

text \<open>Without the bucket there is no worker: the process logs and ends with 1.\<close>

lemma no_bucket_no_worker:
  assumes "ensureBucket E (worker_bucket C) w = (Inl e, w1)"
    and "worker_main E raises C SERVICE_NAME (w, []) = (r, w2, made)"
  shows "r = Inr (Some 1) \<and> NewWorker q n \<notin> set made"
proof -
  let ?all = "worker_setup C SERVICE_NAME"
  obtain x ms where m: "for_each ?all (set_up raises) [] = (x, ms)" by (rule prod.exhaust)
  have "\<exists>k. ms = take k ?all" using set_up_all [OF m] by (cases x) (auto intro: exI [of _ "length ?all"])
  then have "NewWorker q n \<notin> set ms" by (auto simp: worker_setup_def take_Cons' split: if_splits)
  with assms m show ?thesis
    by (auto simp: worker_main_def main_process_def try_catch_def worker_start_def await_def worker_bucket_def
        log_msg_def call_def ret_def Let_def split: sum.splits)
qed

lemma worker_started:
  assumes "worker_main E raises C SERVICE_NAME (w, []) = (Inr None, w1, made)"
  shows "made = worker_setup C SERVICE_NAME @
    [NewWorker RECEIPT_QUEUE_NAME (cfg_workerConcurrency (cfg_receipt C)), SetInterval RECOVERY_INTERVAL_MS,
     OnSignals worker_shutdown]"
proof -
  let ?all = "worker_setup C SERVICE_NAME"
  obtain x ms where m: "for_each ?all (set_up raises) [] = (x, ms)" by (rule prod.exhaust)
  from assms have "worker_start E raises C SERVICE_NAME (w, []) = (Inr (), w1, made)"
    unfolding worker_main_def by (auto dest: main_process_result)
  with set_up_all [OF m] m show ?thesis
    by (auto simp: worker_start_def await_def set_up_def split: sum.splits prod.splits option.splits)
qed

text \<open>The set-up script ends the pool it has opened, and seeds only after every migration.\<close>

lemma migrate_ends_the_pool:
  assumes "\<And>s. raises s = None" "migrate_process M E raises C SERVICE_NAME (w, m, []) = (r, w', m', made)"
  shows "made = [NewPool (createPool (cfg_db C) SERVICE_NAME), PoolEnded]"
  using assms
  by (auto simp: migrate_process_def main_process_def try_catch_def migrate_main_def await_def try_finally_def
      set_up_def ret_def split: sum.splits prod.splits)

lemma migrate_seeds_last:
  assumes "\<And>s. raises s = None" "runMigrations M m = (Inl e, m1)"
    and "migrate_process M E raises C SERVICE_NAME (w, m, []) = (r, w', m', made)"
  shows "r = Inr (Some 1) \<and> w' = snd (log_msg ''fatal'' ''Database setup failed'' w) \<and> m' = m1"
  using assms
  by (auto simp: migrate_process_def main_process_def try_catch_def migrate_main_def await_def try_finally_def
      set_up_def ret_def log_msg_def call_def Let_def)

section \<open>Property\<close>

text \<open>C26: receipts are settled as the processes are deployed: when the configuration loads and server and
  worker have started from it, the worker listens to the queue the server adds jobs to, and it stores in the
  bucket the server signs links for. A job added for a pending receipt, when the queue does not still keep an ended
  job of its id, and given as many turns as the queue gives it attempts, in any order with the attempts of
  all other jobs and overlapping them, ends with the receipt generated or marked failed, never still pending,
  whatever the object store answers; the books (users, wallets, ledger, and the amounts of all
  transactions) are as before.\<close>

theorem receipts_settle_as_deployed:
  assumes "zod_sound Z" and "load_config Z is_url new_url process_env = Inr C"
    and "server_main raises C SERVICE_NAME (createContainer C X Z J h (Some ping)) (w, []) = (Inr None, w1, made)"
    and "worker_main E raises' C SERVICE_NAME' (v, []) = (Inr None, v1, made')"
    and "NewQueue q \<in> set made" and "NewStorage (store, signer, sc) \<in> set made'"
    and "bullmq_documented Q"
    and "idle_inv db_ok u" "db_safe (database u)" "receipt_of (database u) tid = Some PENDING"
  shows "(\<exists>n > 0. NewWorker (qo_name q) n \<in> set made') \<and>
    (\<exists>A. OnRequest A \<in> set made \<and> sc_bucket (api_storage A) = sc_bucket sc) \<and>
    (\<forall>js js1 schedule. js1 = bq_add Q tid js \<and> js tid \<noteq> Some Ended \<and>
       nat (qo_attempts q) \<le> turns schedule tid \<and> (\<forall>(E', i) \<in> set schedule. beside (live js1) i E') \<longrightarrow>
       (case work sc Q (nat (qo_attempts q)) schedule (js1, u) of (js2, u') \<Rightarrow>
          js2 tid = Some Ended \<and> receipt_of (database u') tid \<in> {Some GENERATED, Some FAILED} \<and>
          books (database u') = books (database u)))"
proof -
  obtain c where c: "Z (env_schema is_url) process_env = Inr c" "C = config_of new_url c"
    using assms(2) by (auto simp: load_config_def split: sum.splits)
  from zod_soundD [OF assms(1) c(1)] have ok: "config_ok C" unfolding c(2) by (rule config_of_ok)
  from server_started [OF assms(3)] assms(5)
  have q: "q = createReceiptQueue (cfg_jobAttempts (cfg_receipt C)) (cfg_jobBackoffMs (cfg_receipt C))"
    and A: "OnRequest (createContainer C X Z J h (Some ping)) \<in> set made" by (auto simp: server_setup_def)
  from worker_started [OF assms(4)] assms(6)
  have sc: "sc = worker_bucket C"
    and n: "NewWorker RECEIPT_QUEUE_NAME (cfg_workerConcurrency (cfg_receipt C)) \<in> set made'"
    by (auto simp: worker_setup_def worker_bucket_def createReceiptStorage_def)
  have "0 < nat (qo_attempts q)" using ok by (simp add: q createReceiptQueue_def config_ok_def)
  then have "\<forall>js js1 schedule. js1 = bq_add Q tid js \<and> js tid \<noteq> Some Ended \<and>
      nat (qo_attempts q) \<le> turns schedule tid \<and> (\<forall>(E', i) \<in> set schedule. beside (live js1) i E') \<longrightarrow>
      (case work sc Q (nat (qo_attempts q)) schedule (js1, u) of (js2, u') \<Rightarrow>
         js2 tid = Some Ended \<and> receipt_of (database u') tid \<in> {Some GENERATED, Some FAILED} \<and>
         books (database u') = books (database u))"
    by (intro allI impI) (rule added_job_settles [OF assms(7-10)])
  moreover have "\<exists>n > 0. NewWorker (qo_name q) n \<in> set made'"
    using n ok by (auto simp: q createReceiptQueue_def config_ok_def)
  moreover have "\<exists>A. OnRequest A \<in> set made \<and> sc_bucket (api_storage A) = sc_bucket sc"
    using A by (intro exI conjI) (assumption, simp add: sc worker_bucket_def createReceiptStorage_def createContainer_def)
  ultimately show ?thesis by blast
qed

definition demo_config :: config where
  "demo_config = config_of (\<lambda>_. demo_url) demo_process_env"

lemma demo_config_loads: "load_config demo_zod (\<lambda>_. True) (\<lambda>_. demo_url) demo_process_env = Inr demo_config"
  using demo_process_env_conforms by (simp add: load_config_def demo_zod_def demo_config_def)

lemma demo_attempts: "cfg_jobAttempts (cfg_receipt demo_config) = 5"
  by (simp add: demo_config_def config_of_def env_int_def demo_process_env_def js_get_def js_int_def)

lemma server_starts:
  "server_main (\<lambda>_. None) C SERVICE_NAME A (w, []) =
   (Inr None, snd (log_msg ''info'' ''HTTP server listening'' w), server_setup C SERVICE_NAME A)"
  by (simp add: server_main_def main_process_def try_catch_def server_start_def set_up_works await_def log_msg_def
      call_def ret_def Let_def)

theorem receipts_settle_as_deployed_witness:
  "let A = createContainer demo_config demo_express demo_zod demo_jwt ''h'' (Some (\<lambda>_. Inr ()));
       u = snd (work (worker_bucket demo_config) plain_queue 5 (replicate 5 (broken_store, ''t0''))
             ([''t0'' \<mapsto> Live 0], demo_world))
   in (\<exists>w1 made. server_main (\<lambda>_. None) demo_config None A (demo_world, []) = (Inr None, w1, made)) \<and>
      (\<exists>v1 made'. worker_main broken_store (\<lambda>_. None) demo_config None (demo_world, []) = (Inr None, v1, made')) \<and>
      receipt_of (database u) ''t0'' \<in> {Some GENERATED, Some FAILED}"
proof -
  let ?A = "createContainer demo_config demo_express demo_zod demo_jwt ''h'' (Some (\<lambda>_. Inr ()))"
  note server = server_starts [of demo_config None ?A demo_world]
  have "ensureBucket broken_store (worker_bucket demo_config) demo_world =
      (Inr (), demo_world\<lparr>trace := [EvBucketExists (sc_bucket (worker_bucket demo_config))]\<rparr>)"
    by (simp add: ensureBucket_def broken_store_def demo_env_def demo_world_def call_def await_def ret_def Let_def)
  from worker_starts_with_a_bucket [OF refl this] obtain v1 made' where
    worker: "worker_main broken_store (\<lambda>_. None) demo_config None (demo_world, []) = (Inr None, v1, made')"
    "made' = worker_setup demo_config None @
       [NewWorker RECEIPT_QUEUE_NAME (cfg_workerConcurrency (cfg_receipt demo_config)),
        SetInterval RECOVERY_INTERVAL_MS, OnSignals worker_shutdown]" by blast
  let ?q = "createReceiptQueue (cfg_jobAttempts (cfg_receipt demo_config)) (cfg_jobBackoffMs (cfg_receipt demo_config))"
  let ?s = "createReceiptStorage (cfg_minio demo_config) (cfg_urlExpirySeconds (cfg_receipt demo_config))"
  have store: "NewStorage (fst ?s, fst (snd ?s), worker_bucket demo_config) \<in> set made'"
    by (simp add: worker(2) worker_setup_def worker_bucket_def)
  have queue: "NewQueue ?q \<in> set (server_setup demo_config None ?A)" by (simp add: server_setup_def)
  have safe: "db_safe (database demo_world)" using db_safe_demo by simp
  have main: "\<forall>js js1 schedule. js1 = bq_add plain_queue ''t0'' js \<and> js ''t0'' \<noteq> Some Ended \<and>
      nat (qo_attempts ?q) \<le> turns schedule ''t0'' \<and> (\<forall>(E', i) \<in> set schedule. beside (live js1) i E') \<longrightarrow>
      (case work (worker_bucket demo_config) plain_queue (nat (qo_attempts ?q)) schedule (js1, demo_world) of (js2, u') \<Rightarrow>
         js2 ''t0'' = Some Ended \<and> receipt_of (database u') ''t0'' \<in> {Some GENERATED, Some FAILED} \<and>
         books (database u') = books (database demo_world))"
    using receipts_settle_as_deployed [OF demo_zod_sound demo_config_loads server worker(1) queue store
        plain_queue_documented idle_demo safe pending_demo] by (elim conjE)
  obtain js2 u' where run: "work (worker_bucket demo_config) plain_queue 5 (replicate 5 (broken_store, ''t0''))
      ([''t0'' \<mapsto> Live 0], demo_world) = (js2, u')" by (rule prod.exhaust)
  have "receipt_of (database u') ''t0'' \<in> {Some GENERATED, Some FAILED}"
    using main [THEN spec [of _ "\<lambda>_. None"], THEN spec, THEN spec [of _ "replicate 5 (broken_store, ''t0'')"]]
      quiet_beside [OF quiet_broken_store] run
    by (simp add: createReceiptQueue_def demo_attempts plain_queue_def turns_def)
  with server worker(1) run show ?thesis by (simp add: Let_def)
qed

end
