(* ===== verification/Locking.thy ===== *)
theory Locking
  imports Transfer_Theorems "HOL-Library.Multiset"
begin

text \<open>
  Transfers that run at the same time, each in a transaction of its own: the row locks of
  \<open>SELECT ... ORDER BY id FOR UPDATE\<close> in \<open>db/migrations/003_create_transfer_procedure.sql\<close>. The
  interleavings are a step relation over the calls: a call finds the wallets it will lock, takes their locks
  one by one in the order of the query, waiting while another call holds one and reading the row once it
  has the lock (\<open>READ COMMITTED\<close>), and then runs the rest of the procedure on the rows it read and commits,
  which releases the locks. What is proved: the calls have the effect of running one after the other, in
  the order in which they commit, and they never wait for each other in a circle.
\<close>

section \<open>The procedure on the rows it has read\<close>

record transfer_call =
  tc_from :: int
  tc_to :: int
  tc_amount :: "int option"
  tc_description :: "string option"
  tc_threshold :: int

definition call_sql :: "transfer_call \<Rightarrow> (uuid \<times> receipt_status) sql" where
  "call_sql c = transfer_funds (tc_from c) (tc_to c) (tc_amount c) (tc_description c) (tc_threshold c)"

text \<open>The two tests before the query: a call they refuse takes no lock.\<close>

definition refused_early :: "transfer_call \<Rightarrow> bool" where
  "refused_early c \<longleftrightarrow> (case tc_amount c of None \<Rightarrow> True | Some a \<Rightarrow> a \<le> 0) \<or> tc_from c = tc_to c"

definition lock_ids :: "transfer_call \<Rightarrow> db \<Rightarrow> int list" where
  "lock_ids c d = (if refused_early c then [] else map w_id (locked_wallets (tc_from c) (tc_to c) d))"

definition transfer_with_rows :: "transfer_call \<Rightarrow> wallet_row list \<Rightarrow> (uuid \<times> receipt_status) sql" where
  "transfer_with_rows c rows =
     (case tc_amount c of
        None \<Rightarrow> throw (wl ''WL001'')
      | Some amount \<Rightarrow>
          await (guard_not (amount \<le> 0) (wl ''WL001'')) (\<lambda>_.
          await (guard_not (tc_from c = tc_to c) (wl ''WL002'')) (\<lambda>_.
          case pick_wallets (tc_from c) rows (None, None) of
            (None, _) \<Rightarrow> throw (wl ''WL003'')
          | (Some v_from_wallet, None) \<Rightarrow> throw (wl ''WL004'')
          | (Some v_from_wallet, Some v_to_wallet) \<Rightarrow>
              await (guard_not (w_balance v_from_wallet < amount) (wl ''WL005'')) (\<lambda>_.
              let o_receipt_status = (if amount > tc_threshold c then PENDING else NOT_REQUIRED) in
              await (insert_transaction (w_id v_from_wallet) (w_id v_to_wallet) amount (tc_description c)
                       o_receipt_status) (\<lambda>o_transaction_id.
              await (modify (\<lambda>d. d\<lparr>current_tx := Some o_transaction_id\<rparr>)) (\<lambda>_.
              await (update_wallet_balance (w_id v_from_wallet) (- amount)) (\<lambda>_.
              await (update_wallet_balance (w_id v_to_wallet) amount) (\<lambda>_.
              await (modify (\<lambda>d. d\<lparr>current_tx := None\<rparr>)) (\<lambda>_.
              ret (o_transaction_id, o_receipt_status))))))))))"

lemma transfer_with_rows_eq:
  assumes "refused_early c \<or> rows = locked_wallets (tc_from c) (tc_to c) d"
  shows "transfer_with_rows c rows d = call_sql c d"
  using assms
  by (cases "tc_amount c") (auto simp: transfer_with_rows_def call_sql_def transfer_funds_def refused_early_def
      guard_not_def)

section \<open>The interleavings\<close>

datatype phase =
    Ready
  | Locking "int list" "wallet_row list"
  | Finished "sql_error + uuid \<times> receipt_status"

record commit =
  cm_proc :: nat
  cm_call :: transfer_call
  cm_now :: int
  cm_uuid :: uuid
  cm_result :: "sql_error + uuid \<times> receipt_status"

record lock_state =
  ls_db :: db
  ls_procs :: "(transfer_call \<times> phase) list"
  ls_log :: "commit list"

definition held :: "transfer_call \<times> phase \<Rightarrow> int set" where
  "held p = (case snd p of Locking _ rows \<Rightarrow> w_id ` set rows | _ \<Rightarrow> {})"

definition lock_free :: "lock_state \<Rightarrow> nat \<Rightarrow> int \<Rightarrow> bool" where
  "lock_free s i x \<longleftrightarrow> (\<forall>j < length (ls_procs s). j \<noteq> i \<longrightarrow> x \<notin> held (ls_procs s ! j))"

inductive lock_step :: "lock_state \<Rightarrow> lock_state \<Rightarrow> bool" where
  step_query: "i < length (ls_procs s) \<Longrightarrow> ls_procs s ! i = (c, Ready) \<Longrightarrow>
    lock_step s (s\<lparr>ls_procs := (ls_procs s)[i := (c, Locking (lock_ids c (ls_db s)) [])]\<rparr>)"
| step_lock: "i < length (ls_procs s) \<Longrightarrow> ls_procs s ! i = (c, Locking (x # ids) rows) \<Longrightarrow> lock_free s i x \<Longrightarrow>
    find (\<lambda>w. w_id w = x) (wallets (ls_db s)) = Some w \<Longrightarrow>
    lock_step s (s\<lparr>ls_procs := (ls_procs s)[i := (c, Locking ids (rows @ [w]))]\<rparr>)"
| step_commit: "i < length (ls_procs s) \<Longrightarrow> ls_procs s ! i = (c, Locking [] rows) \<Longrightarrow>
    autocommit (transfer_with_rows c rows) ((ls_db s)\<lparr>now_ts := n, next_uuid := u\<rparr>) = (r, d') \<Longrightarrow>
    lock_step s (s\<lparr>ls_db := d', ls_procs := (ls_procs s)[i := (c, Finished r)],
      ls_log := ls_log s @ [\<lparr>cm_proc = i, cm_call = c, cm_now = n, cm_uuid = u, cm_result = r\<rparr>]\<rparr>)"

definition lock_start :: "db \<Rightarrow> transfer_call list \<Rightarrow> lock_state" where
  "lock_start d calls = \<lparr>ls_db = d, ls_procs = map (\<lambda>c. (c, Ready)) calls, ls_log = []\<rparr>"

inductive lock_reachable :: "db \<Rightarrow> transfer_call list \<Rightarrow> lock_state \<Rightarrow> bool" for d calls where
  reach_start: "lock_reachable d calls (lock_start d calls)"
| reach_step: "lock_reachable d calls s \<Longrightarrow> lock_step s t \<Longrightarrow> lock_reachable d calls t"

text \<open>The calls one after the other.\<close>

definition run_commit :: "commit \<Rightarrow> db \<Rightarrow> (sql_error + uuid \<times> receipt_status) \<times> db" where
  "run_commit m d = autocommit (call_sql (cm_call m)) (d\<lparr>now_ts := cm_now m, next_uuid := cm_uuid m\<rparr>)"

fun serial :: "commit list \<Rightarrow> db \<Rightarrow> (sql_error + uuid \<times> receipt_status) list \<times> db" where
  "serial [] d = ([], d)"
| "serial (m # ms) d = (case run_commit m d of (r, d') \<Rightarrow> (case serial ms d' of (rs, d'') \<Rightarrow> (r # rs, d'')))"

lemma serial_snoc:
  "serial (ms @ [m]) d = (case serial ms d of (rs, d') \<Rightarrow> case run_commit m d' of (r, d'') \<Rightarrow> (rs @ [r], d''))"
  by (induction ms arbitrary: d) (auto split: prod.splits)

section \<open>What one call does to the wallets\<close>

lemma sort_map: "map f (sort_key f xs) = sort (map f xs)"
  by (rule sym, rule properties_for_sort) (simp_all add: image_mset.compositionality)

lemma lock_ids_cong:
  assumes "map w_id (wallets d') = map w_id (wallets d)" "map w_user_id (wallets d') = map w_user_id (wallets d)"
  shows "lock_ids c d' = lock_ids c d"
proof -
  have filt: "map w_id (filter (\<lambda>w. P (w_user_id w)) ws) =
      map fst (filter (\<lambda>p. P (snd p)) (zip (map w_id ws) (map w_user_id ws)))" for P and ws :: "wallet_row list"
    by (induction ws) auto
  show ?thesis
    using filt [of "\<lambda>u. u = tc_from c \<or> u = tc_to c" "wallets d'"]
      filt [of "\<lambda>u. u = tc_from c \<or> u = tc_to c" "wallets d"] assms
    by (simp add: lock_ids_def locked_wallets_def sort_map)
qed

lemma lock_ids_sorted:
  assumes "db_ok d"
  shows "sorted (lock_ids c d) \<and> distinct (lock_ids c d)"
proof -
  have "distinct (map w_id (filter P (wallets d)))" for P
    using assms by (simp add: db_ok_def wf_wallets_def distinct_map_filter)
  then show ?thesis by (simp add: lock_ids_def locked_wallets_def sort_map)
qed

text \<open>
  A call that has read the rows it locks leaves the ids and the users of the wallets as they were, and
  every wallet it has not locked.
\<close>

lemma call_effect:
  assumes ok: "db_ok d" and run: "autocommit (call_sql c) d = (r, d')"
  shows "db_ok d' \<and> map w_id (wallets d') = map w_id (wallets d) \<and>
    map w_user_id (wallets d') = map w_user_id (wallets d) \<and> total_balance d' = total_balance d \<and>
    (\<forall>w \<in> set (wallets d). w_id w \<notin> set (lock_ids c d) \<longrightarrow> w \<in> set (wallets d'))"
proof -
  let ?out = "transfer_outcome (tc_from c) (tc_to c) (tc_amount c) (tc_description c) (tc_threshold c) d"
  have out: "?out = (r, d')" using transfer_funds_cases [OF ok] run by (simp add: call_sql_def)
  have "total_balance d' = total_balance d" using total_balance_transfer_outcome [OF ok] out by (metis snd_conv)
  moreover have "db_ok d'"
    using keepsE [OF transfer.autocommit_keeps ok] run by (simp add: call_sql_def)
  moreover have "map w_id (wallets d') = map w_id (wallets d) \<and> map w_user_id (wallets d') = map w_user_id (wallets d) \<and>
    (\<forall>w \<in> set (wallets d). w_id w \<notin> set (lock_ids c d) \<longrightarrow> w \<in> set (wallets d'))"
  proof (cases r)
    case (Inl e)
    then have "tables d' = tables d" using out by (auto intro: tables_transfer_outcome_Inl)
    then show ?thesis by (simp add: tables_def)
  next
    case (Inr p)
    from ok have wf: "wf_wallets d" by (simp add: db_ok_def)
    from out Inr have "?out = (Inr p, d')" by simp
    with ok show ?thesis
    proof (rule transfer_successE)
      fix a fw tw descr st
      assume h: "tc_amount c = Some a" "0 < a" "tc_from c \<noteq> tc_to c" "fw \<in> set (wallets d)" "tw \<in> set (wallets d)"
        "w_user_id fw = tc_from c" "w_user_id tw = tc_to c" "w_id fw \<noteq> w_id tw"
        "d' = transfer_post d fw tw a descr st"
      have "w_id fw \<in> set (lock_ids c d)" "w_id tw \<in> set (lock_ids c d)"
        using h by (simp_all add: lock_ids_def refused_early_def set_locked_wallets)
      with h show ?thesis
        by (auto simp: map_w_id_transfer_post map_w_user_id_transfer_post [OF wf]
            set_wallets_transfer_post [OF wf])
    qed
  qed
  ultimately show ?thesis by simp
qed

section \<open>The invariant of the interleavings\<close>

text \<open>What a call has locked and read: a prefix of its ids, and the rows as they are in the table.\<close>

definition phase_ok :: "db \<Rightarrow> transfer_call \<times> phase \<Rightarrow> bool" where
  "phase_ok d p = (case snd p of
     Locking ids rows \<Rightarrow> map w_id rows @ ids = lock_ids (fst p) d \<and> set rows \<subseteq> set (wallets d)
   | _ \<Rightarrow> True)"

definition exclusive :: "(transfer_call \<times> phase) list \<Rightarrow> bool" where
  "exclusive ps \<longleftrightarrow> (\<forall>i < length ps. \<forall>j < length ps. i \<noteq> j \<longrightarrow> held (ps ! i) \<inter> held (ps ! j) = {})"

definition log_ok :: "lock_state \<Rightarrow> bool" where
  "log_ok s \<longleftrightarrow> distinct (map cm_proc (ls_log s)) \<and>
     (\<forall>m \<in> set (ls_log s). cm_proc m < length (ls_procs s) \<and>
        ls_procs s ! cm_proc m = (cm_call m, Finished (cm_result m))) \<and>
     (\<forall>i < length (ls_procs s). (\<exists>r. snd (ls_procs s ! i) = Finished r) \<longrightarrow> i \<in> cm_proc ` set (ls_log s))"

definition lock_inv :: "db \<Rightarrow> transfer_call list \<Rightarrow> lock_state \<Rightarrow> bool" where
  "lock_inv d calls s \<longleftrightarrow> map fst (ls_procs s) = calls \<and> db_ok (ls_db s) \<and>
     total_balance (ls_db s) = total_balance d \<and>
     (\<forall>p \<in> set (ls_procs s). phase_ok (ls_db s) p) \<and> exclusive (ls_procs s) \<and>
     serial (ls_log s) d = (map cm_result (ls_log s), ls_db s) \<and> log_ok s"

lemma lock_inv_start: "db_ok d \<Longrightarrow> lock_inv d calls (lock_start d calls)"
  by (auto simp: lock_inv_def lock_start_def phase_ok_def exclusive_def held_def log_ok_def o_def)

text \<open>The rows a call holds when it has all its locks are those the query returns now.\<close>

lemma rows_are_locked_wallets:
  assumes ok: "db_ok d" and p: "phase_ok d (c, Locking [] rows)" and early: "\<not> refused_early c"
  shows "rows = locked_wallets (tc_from c) (tc_to c) d"
proof (rule nth_equalityI)
  let ?ws = "locked_wallets (tc_from c) (tc_to c) d"
  from p early have ids: "map w_id rows = map w_id ?ws" and sub: "set rows \<subseteq> set (wallets d)"
    by (simp_all add: phase_ok_def lock_ids_def)
  from ids show len: "length rows = length ?ws" by (rule map_eq_imp_length_eq)
  fix i assume i: "i < length rows"
  with ids len have "w_id (rows ! i) = w_id (?ws ! i)" by (metis nth_map)
  moreover have "rows ! i \<in> set (wallets d)" "?ws ! i \<in> set (wallets d)"
    using i len sub set_locked_wallets [of "tc_from c" "tc_to c" d] nth_mem [of i ?ws] by auto
  ultimately show "rows ! i = ?ws ! i"
    using ok by (auto simp: db_ok_def wf_wallets_def intro: distinct_map_inj)
qed

lemma phase_ok_now [simp]: "phase_ok (d\<lparr>now_ts := n, next_uuid := u\<rparr>) p = phase_ok d p"
proof -
  have "lock_ids c (d\<lparr>now_ts := n, next_uuid := u\<rparr>) = lock_ids c d" for c by (rule lock_ids_cong) simp_all
  then show ?thesis by (simp add: phase_ok_def split: phase.splits)
qed

lemma lock_ids_now [simp]: "lock_ids c (d\<lparr>now_ts := n, next_uuid := u\<rparr>) = lock_ids c d"
  by (rule lock_ids_cong) simp_all

lemma total_balance_now [simp]: "total_balance (d\<lparr>now_ts := n, next_uuid := u\<rparr>) = total_balance d"
  by (simp add: total_balance_def)

lemma exclusive_update:
  assumes "exclusive ps" "i < length ps" "\<And>j. j < length ps \<Longrightarrow> j \<noteq> i \<Longrightarrow> held p \<inter> held (ps ! j) = {}"
  shows "exclusive (ps[i := p])"
  using assms by (auto simp: exclusive_def nth_list_update)

text \<open>The step that commits: what the procedure does to the rows it read is what the call does now.\<close>

lemma commit_step:
  assumes inv: "lock_inv d calls s" and i: "i < length (ls_procs s)" "ls_procs s ! i = (c, Locking [] rows)"
    and run: "autocommit (transfer_with_rows c rows) ((ls_db s)\<lparr>now_ts := n, next_uuid := u\<rparr>) = (r, d')"
    and m: "m = \<lparr>cm_proc = i, cm_call = c, cm_now = n, cm_uuid = u, cm_result = r\<rparr>"
  shows "run_commit m (ls_db s) = (r, d')" "set (lock_ids c (ls_db s)) = held (ls_procs s ! i)"
proof -
  let ?d = "(ls_db s)\<lparr>now_ts := n, next_uuid := u\<rparr>"
  from inv i have ok: "db_ok (ls_db s)" "phase_ok (ls_db s) (c, Locking [] rows)"
    unfolding lock_inv_def by (blast, metis nth_mem)
  have "refused_early c \<or> rows = locked_wallets (tc_from c) (tc_to c) ?d"
    using rows_are_locked_wallets [of ?d c rows] ok by auto
  then have "transfer_with_rows c rows ?d = call_sql c ?d" by (rule transfer_with_rows_eq)
  with run show "run_commit m (ls_db s) = (r, d')" by (simp add: run_commit_def m autocommit_def)
  from ok(2) have "lock_ids c (ls_db s) = map w_id rows" by (simp add: phase_ok_def)
  then show "set (lock_ids c (ls_db s)) = held (ls_procs s ! i)" by (simp add: held_def i)
qed

lemma log_ok_moved:
  assumes "log_ok s" "i < length (ls_procs s)" "ls_procs s ! i = (c, ph)" "\<And>r. ph \<noteq> Finished r" "\<And>r. ph' \<noteq> Finished r"
  shows "log_ok (s\<lparr>ls_procs := (ls_procs s)[i := (c, ph')]\<rparr>)"
  using assms by (fastforce simp: log_ok_def nth_list_update)

lemma lock_inv_move:
  assumes inv: "lock_inv d calls s" and i: "i < length (ls_procs s)" "ls_procs s ! i = (c, ph)"
    and "\<And>r. ph \<noteq> Finished r" "\<And>r. ph' \<noteq> Finished r" and ok: "phase_ok (ls_db s) (c, ph')"
    and alone: "\<And>j. j < length (ls_procs s) \<Longrightarrow> j \<noteq> i \<Longrightarrow> held (c, ph') \<inter> held (ls_procs s ! j) = {}"
  shows "lock_inv d calls (s\<lparr>ls_procs := (ls_procs s)[i := (c, ph')]\<rparr>)"
proof -
  have "map fst ((ls_procs s)[i := (c, ph')]) = map fst (ls_procs s)"
    using i by (metis fst_conv list_update_id map_update)
  moreover have "exclusive ((ls_procs s)[i := (c, ph')])"
    using inv i(1) alone by (intro exclusive_update) (simp_all add: lock_inv_def)
  moreover have "log_ok (s\<lparr>ls_procs := (ls_procs s)[i := (c, ph')]\<rparr>)"
    using inv assms(2-5) by (intro log_ok_moved) (simp_all add: lock_inv_def)
  moreover have "\<forall>p \<in> set ((ls_procs s)[i := (c, ph')]). phase_ok (ls_db s) p"
    using inv ok set_update_subset_insert [of "ls_procs s" i "(c, ph')"] by (auto simp: lock_inv_def)
  ultimately show ?thesis using inv by (simp add: lock_inv_def)
qed

lemma lock_inv_commit:
  assumes inv: "lock_inv d calls s" and i: "i < length (ls_procs s)" "ls_procs s ! i = (c, Locking [] rows)"
    and run: "autocommit (transfer_with_rows c rows) ((ls_db s)\<lparr>now_ts := n, next_uuid := u\<rparr>) = (r, d')"
    and m: "m = \<lparr>cm_proc = i, cm_call = c, cm_now = n, cm_uuid = u, cm_result = r\<rparr>"
  shows "lock_inv d calls (s\<lparr>ls_db := d', ls_procs := (ls_procs s)[i := (c, Finished r)], ls_log := ls_log s @ [m]\<rparr>)"
proof -
  let ?ps = "(ls_procs s)[i := (c, Finished r)]"
  from inv have I: "db_ok (ls_db s)" "total_balance (ls_db s) = total_balance d" "exclusive (ls_procs s)"
    "serial (ls_log s) d = (map cm_result (ls_log s), ls_db s)" "log_ok s"
    "\<And>p. p \<in> set (ls_procs s) \<Longrightarrow> phase_ok (ls_db s) p" by (simp_all add: lock_inv_def)
  note commit = commit_step [OF inv i run m]
  have eff: "db_ok d'" "map w_id (wallets d') = map w_id (wallets (ls_db s))"
    "map w_user_id (wallets d') = map w_user_id (wallets (ls_db s))" "total_balance d' = total_balance (ls_db s)"
    "\<And>w. w \<in> set (wallets (ls_db s)) \<Longrightarrow> w_id w \<notin> held (ls_procs s ! i) \<Longrightarrow> w \<in> set (wallets d')"
    using call_effect [of "(ls_db s)\<lparr>now_ts := n, next_uuid := u\<rparr>" c r d'] commit I(1)
    by (simp_all add: run_commit_def m)
  have others: "phase_ok d' (ls_procs s ! j)" if j: "j < length (ls_procs s)" "j \<noteq> i" for j
  proof (cases "snd (ls_procs s ! j)")
    case (Locking ids rows')
    have "held (ls_procs s ! j) = w_id ` set rows'" by (simp add: held_def Locking)
    moreover have "held (ls_procs s ! j) \<inter> held (ls_procs s ! i) = {}" 
      using I(3) i(1) j unfolding exclusive_def by metis
    ultimately have "w_id w \<notin> held (ls_procs s ! i)" if "w \<in> set rows'" for w using that by blast
    then have "set rows' \<subseteq> set (wallets d')"
      using I(6) [OF nth_mem [OF j(1)]] eff(5) by (auto simp: phase_ok_def Locking)
    with I(6) [OF nth_mem [OF j(1)]] lock_ids_cong [OF eff(2,3)] show ?thesis
      by (simp add: phase_ok_def Locking)
  qed (simp_all add: phase_ok_def)
  have "phase_ok d' (?ps ! j)" if "j < length ?ps" for j
    using others [of j] i that by (cases "j = i") (simp_all add: phase_ok_def)
  then have "\<forall>p \<in> set ?ps. phase_ok d' p" by (metis in_set_conv_nth)
  moreover have "map fst ?ps = map fst (ls_procs s)"
    using i by (metis fst_conv list_update_id map_update)
  moreover have "exclusive ?ps"
    using I(3) i(1) by (intro exclusive_update) (simp_all add: held_def)
  moreover have "serial (ls_log s @ [m]) d = (map cm_result (ls_log s @ [m]), d')"
    by (simp add: serial_snoc I(4) commit(1)) (simp add: m)
  moreover have "i \<notin> cm_proc ` set (ls_log s)" using I(5) i by (force simp: log_ok_def)
  then have "log_ok (s\<lparr>ls_db := d', ls_procs := ?ps, ls_log := ls_log s @ [m]\<rparr>)"
    using I(5) i by (auto simp: log_ok_def nth_list_update m)
  ultimately show ?thesis using inv eff I(2) by (simp add: lock_inv_def)
qed

lemma lock_inv_step: "lock_step s t \<Longrightarrow> lock_inv d calls s \<Longrightarrow> lock_inv d calls t"
proof (induction rule: lock_step.induct)
  case (step_query i s c)
  from step_query.prems step_query.hyps show ?case
    by (rule lock_inv_move) (simp_all add: phase_ok_def held_def)
next
  case (step_lock i s c x ids rows w)
  then have p: "phase_ok (ls_db s) (c, Locking (x # ids) rows)" unfolding lock_inv_def by (metis nth_mem)
  have excl: "held (c, Locking (x # ids) rows) \<inter> held (ls_procs s ! j) = {}" if "j < length (ls_procs s)" "j \<noteq> i" for j
    using step_lock.prems step_lock.hyps(1,2) that unfolding lock_inv_def exclusive_def by metis
  from step_lock.hyps have w: "w \<in> set (wallets (ls_db s))" "w_id w = x" by (auto dest: find_SomeD)
  from step_lock.prems step_lock.hyps(1,2) show ?case
  proof (rule lock_inv_move)
    show "phase_ok (ls_db s) (c, Locking ids (rows @ [w]))" using p w by (simp add: phase_ok_def)
  next
    fix j assume j: "j < length (ls_procs s)" "j \<noteq> i"
    show "held (c, Locking ids (rows @ [w])) \<inter> held (ls_procs s ! j) = {}"
      using excl [OF j] step_lock.hyps(3) j w by (auto simp: held_def lock_free_def)
  qed simp_all
next
  case (step_commit i s c rows u n r d')
  from lock_inv_commit [OF step_commit.prems step_commit.hyps refl] show ?case .
qed

lemma lock_inv_reachable: "lock_reachable d calls s \<Longrightarrow> db_ok d \<Longrightarrow> lock_inv d calls s"
  by (induction rule: lock_reachable.induct) (auto intro: lock_inv_start lock_inv_step)

section \<open>Progress\<close>

definition finished :: "transfer_call \<times> phase \<Rightarrow> bool" where
  "finished p = (case snd p of Finished _ \<Rightarrow> True | _ \<Rightarrow> False)"

definition next_lock :: "transfer_call \<times> phase \<Rightarrow> int" where
  "next_lock p = (case snd p of Locking (x # _) _ \<Rightarrow> x | _ \<Rightarrow> 0)"

text \<open>A call that cannot take a step waits for a lock that another call holds.\<close>

lemma stuck_waits:
  assumes inv: "lock_inv d calls s" and i: "i < length (ls_procs s)" "\<not> finished (ls_procs s ! i)"
    and stuck: "\<not> (\<exists>t. lock_step s t)"
  obtains c x ids rows j where "ls_procs s ! i = (c, Locking (x # ids) rows)" "j < length (ls_procs s)"
    "x \<in> held (ls_procs s ! j)"
proof -
  obtain c ph where p: "ls_procs s ! i = (c, ph)" by (cases "ls_procs s ! i")
  have ok: "phase_ok (ls_db s) (c, ph)" using inv i(1) p unfolding lock_inv_def by (metis nth_mem)
  show thesis
  proof (cases ph)
    case Ready
    then show thesis using lock_step.step_query i(1) p stuck by blast
  next
    case (Finished r)
    then show thesis using i(2) p by (simp add: finished_def)
  next
    case (Locking ids rows)
    show thesis
    proof (cases ids)
      case Nil
      obtain r d' where "autocommit (transfer_with_rows c rows) ((ls_db s)\<lparr>now_ts := 0, next_uuid := []\<rparr>) = (r, d')"
        by (rule prod.exhaust)
      then show thesis using lock_step.step_commit i(1) p Locking Nil stuck by blast
    next
      case (Cons x ids')
      have "x \<in> set (lock_ids c (ls_db s))" using ok Locking Cons
        by (simp add: phase_ok_def) (metis in_set_conv_decomp)
      then have "x \<in> w_id ` set (wallets (ls_db s))"
        by (auto simp: lock_ids_def set_locked_wallets split: if_splits)
      then obtain w where "find (\<lambda>w. w_id w = x) (wallets (ls_db s)) = Some w"
        by (metis find_None_map not_Some_eq)
      then have "\<not> lock_free s i x" using lock_step.step_lock i(1) p Locking Cons stuck by blast
      then show thesis using that p Locking Cons by (auto simp: lock_free_def)
    qed
  qed
qed

lemma lock_progress:
  assumes inv: "lock_inv d calls s" and unfinished: "\<exists>p \<in> set (ls_procs s). \<not> finished p"
  shows "\<exists>t. lock_step s t"
proof (rule ccontr)
  assume stuck: "\<not> (\<exists>t. lock_step s t)"
  let ?W = "next_lock ` {p \<in> set (ls_procs s). \<not> finished p}"
  have W: "finite ?W" "?W \<noteq> {}" using unfinished by auto
  from Max_in [OF W] obtain p where "p \<in> {p \<in> set (ls_procs s). \<not> finished p}" "Max ?W = next_lock p"
    by (rule imageE)
  then have p: "p \<in> set (ls_procs s)" "\<not> finished p" "next_lock p = Max ?W" by simp_all
  from p(1) obtain i where i: "i < length (ls_procs s)" "ls_procs s ! i = p" by (auto simp: in_set_conv_nth)
  obtain c x ids rows j where wait: "ls_procs s ! i = (c, Locking (x # ids) rows)" "j < length (ls_procs s)"
      "x \<in> held (ls_procs s ! j)"
    using stuck_waits [OF inv i(1)] p(2) i(2) stuck by metis
  have "\<not> finished (ls_procs s ! j)" using wait(3) by (auto simp: held_def finished_def split: phase.splits)
  then obtain c' y ids' rows' where holder: "ls_procs s ! j = (c', Locking (y # ids') rows')"
    using stuck_waits [OF inv wait(2)] stuck by metis
  have "phase_ok (ls_db s) (c', Locking (y # ids') rows')"
    using inv wait(2) holder unfolding lock_inv_def by (metis nth_mem)
  then have locks: "lock_ids c' (ls_db s) = map w_id rows' @ y # ids'" by (simp add: phase_ok_def)
  have "x \<in> set (map w_id rows')" using wait(3) by (simp add: holder held_def)
  moreover have "sorted (map w_id rows' @ y # ids')" "distinct (map w_id rows' @ y # ids')"
    using lock_ids_sorted [of "ls_db s" c'] inv by (simp_all add: locks lock_inv_def)
  ultimately have "x < y" by (auto simp: sorted_append order_less_le)
  moreover have "y \<in> ?W" using nth_mem [OF wait(2)] holder \<open>\<not> finished (ls_procs s ! j)\<close>
    by (auto simp: next_lock_def intro!: image_eqI [of _ _ "ls_procs s ! j"])
  then have "y \<le> Max ?W" by (rule Max_ge [OF W(1)])
  moreover have "next_lock p = x" using i(2) wait(1) by (auto simp: next_lock_def)
  then have "x = Max ?W" using p(3) by simp
  ultimately show False by simp
qed

text \<open>The steps that are left, at most.\<close>

definition phase_weight :: "nat \<Rightarrow> transfer_call \<times> phase \<Rightarrow> nat" where
  "phase_weight k p = (case snd p of Ready \<Rightarrow> 2 + k | Locking ids _ \<Rightarrow> 1 + length ids | Finished _ \<Rightarrow> 0)"

definition lock_weight :: "lock_state \<Rightarrow> nat" where
  "lock_weight s = (\<Sum>p\<leftarrow>ls_procs s. phase_weight (length (wallets (ls_db s))) p)"

lemma sum_list_less_update:
  fixes f :: "'a \<Rightarrow> nat"
  shows "i < length xs \<Longrightarrow> f y < f (xs ! i) \<Longrightarrow> (\<Sum>x\<leftarrow>xs[i := y]. f x) < (\<Sum>x\<leftarrow>xs. f x)"
  by (induction xs arbitrary: i) (auto split: nat.splits)

lemma length_lock_ids: "length (lock_ids c d) \<le> length (wallets d)"
  by (simp add: lock_ids_def locked_wallets_def length_filter_le)

lemma lock_weight_step: "lock_step s t \<Longrightarrow> lock_inv d calls s \<Longrightarrow> lock_weight t < lock_weight s"
proof (induction rule: lock_step.induct)
  case (step_query i s c)
  then show ?case using length_lock_ids [of c "ls_db s"]
    by (simp add: lock_weight_def sum_list_less_update phase_weight_def)
next
  case (step_lock i s c x ids rows w)
  then show ?case by (simp add: lock_weight_def sum_list_less_update phase_weight_def)
next
  case (step_commit i s c rows u n r d')
  have "run_commit \<lparr>cm_proc = i, cm_call = c, cm_now = n, cm_uuid = u, cm_result = r\<rparr> (ls_db s) = (r, d')"
    by (rule commit_step(1) [OF step_commit.prems step_commit.hyps refl])
  moreover have "db_ok (ls_db s)" using step_commit.prems by (simp add: lock_inv_def)
  ultimately have "map w_id (wallets d') = map w_id (wallets (ls_db s))"
    using call_effect [of "(ls_db s)\<lparr>now_ts := n, next_uuid := u\<rparr>" c r d'] by (simp add: run_commit_def)
  then have "length (wallets d') = length (wallets (ls_db s))" by (rule map_eq_imp_length_eq)
  with step_commit.hyps show ?case by (simp add: lock_weight_def sum_list_less_update phase_weight_def)
qed

lemma reaches_end:
  assumes ok: "db_ok d"
  shows "lock_reachable d calls s \<Longrightarrow> \<exists>t. lock_reachable d calls t \<and> (\<forall>p \<in> set (ls_procs t). finished p)"
proof (induction "lock_weight s" arbitrary: s rule: less_induct)
  case less
  have inv: "lock_inv d calls s" by (rule lock_inv_reachable [OF less.prems ok])
  show ?case
  proof (cases "\<forall>p \<in> set (ls_procs s). finished p")
    case False
    then obtain t where "lock_step s t" using lock_progress [OF inv] by blast
    then show ?thesis using less.hyps lock_weight_step [OF _ inv] lock_reachable.reach_step [OF less.prems] by blast
  qed (use less.prems in blast)
qed

lemma end_log:
  assumes inv: "lock_inv d calls s" and "\<forall>p \<in> set (ls_procs s). finished p"
  shows "cm_proc ` set (ls_log s) = {..<length calls}"
proof -
  have "length calls = length (ls_procs s)" using inv by (auto simp: lock_inv_def)
  moreover have "\<exists>r. snd (ls_procs s ! i) = Finished r" if i: "i < length (ls_procs s)" for i
  proof -
    have "finished (ls_procs s ! i)" using assms(2) nth_mem [OF i] by blast
    then show ?thesis by (cases "snd (ls_procs s ! i)") (simp_all add: finished_def)
  qed
  ultimately show ?thesis using inv by (auto simp: lock_inv_def log_ok_def)
qed

section \<open>Properties\<close>

text \<open>C11: transfers that run at the same time have the effect of running one after the other, in the
  order in which they commit: the database is the one that order leaves, each call has the result it has
  there, no call counts twice, the database keeps its integrity and the sum of all balances. So no
  balance is spent twice, whatever the interleaving.\<close>

theorem transfers_serialize:
  assumes "db_ok d" "lock_reachable d calls s"
  shows "serial (ls_log s) d = (map cm_result (ls_log s), ls_db s) \<and> distinct (map cm_proc (ls_log s)) \<and>
    (\<forall>m \<in> set (ls_log s). ls_procs s ! cm_proc m = (cm_call m, Finished (cm_result m)) \<and>
       cm_proc m < length calls \<and> calls ! cm_proc m = cm_call m) \<and>
    db_ok (ls_db s) \<and> total_balance (ls_db s) = total_balance d"
proof -
  from lock_inv_reachable [OF assms(2,1)] have inv: "lock_inv d calls s" .
  then have "\<forall>i < length (ls_procs s). calls ! i = fst (ls_procs s ! i)" "length calls = length (ls_procs s)"
    by (auto simp: lock_inv_def)
  with inv show ?thesis by (auto simp: lock_inv_def log_ok_def)
qed

text \<open>Two transfers in opposite directions, of which the first has found the wallets to lock.\<close>

definition demo_calls :: "transfer_call list" where
  "demo_calls =
     [\<lparr>tc_from = 1, tc_to = 2, tc_amount = Some 3000000, tc_description = None, tc_threshold = 5000000\<rparr>,
      \<lparr>tc_from = 2, tc_to = 1, tc_amount = Some 1000000, tc_description = None, tc_threshold = 5000000\<rparr>]"

definition demo_locking :: lock_state where
  "demo_locking = (let s = lock_start demo_db demo_calls in
     s\<lparr>ls_procs := (ls_procs s)[0 := (hd demo_calls, Locking (lock_ids (hd demo_calls) demo_db) [])]\<rparr>)"

lemma demo_locking_reachable: "lock_reachable demo_db demo_calls demo_locking"
proof -
  have "lock_step (lock_start demo_db demo_calls) demo_locking"
    using lock_step.step_query [of 0 "lock_start demo_db demo_calls" "hd demo_calls"]
    by (simp add: demo_locking_def lock_start_def demo_calls_def Let_def)
  then show ?thesis by (rule reach_step [OF reach_start])
qed

theorem transfers_serialize_witness:
  "\<exists>s. lock_reachable demo_db demo_calls s \<and> cm_proc ` set (ls_log s) = {0, 1} \<and>
     serial (ls_log s) demo_db = (map cm_result (ls_log s), ls_db s) \<and> total_balance (ls_db s) = 25000000"
proof -
  obtain s where s: "lock_reachable demo_db demo_calls s" "\<forall>p \<in> set (ls_procs s). finished p"
    using reaches_end [OF db_ok_demo demo_locking_reachable] by blast
  have "cm_proc ` set (ls_log s) = {0, 1}"
    using end_log [OF lock_inv_reachable [OF s(1) db_ok_demo] s(2)] by (auto simp: demo_calls_def)
  with s(1) transfers_serialize [OF db_ok_demo s(1)] show ?thesis
    by (auto simp: demo_defs total_balance_def)
qed

text \<open>C12: transfers never deadlock: as long as a call has not finished, some call can take its next
  step, and no run goes on for ever, since every step makes a measure smaller; so in the end every call has
  finished and its result is in the log.\<close>

theorem transfers_never_deadlock:
  assumes "db_ok d" "lock_reachable d calls s"
  shows "(if \<exists>p \<in> set (ls_procs s). \<not> finished p then \<exists>t. lock_step s t
      else cm_proc ` set (ls_log s) = {..<length calls}) \<and>
    (\<forall>t. lock_step s t \<longrightarrow> lock_weight t < lock_weight s)"
proof -
  from lock_inv_reachable [OF assms(2,1)] have inv: "lock_inv d calls s" .
  then show ?thesis by (auto simp: end_log intro: lock_progress lock_weight_step)
qed

theorem transfers_never_deadlock_witness: "\<exists>t. lock_step demo_locking t"
proof -
  have "\<exists>p \<in> set (ls_procs demo_locking). \<not> finished p"
    by (simp add: demo_locking_def lock_start_def demo_calls_def finished_def Let_def)
  with transfers_never_deadlock [OF db_ok_demo demo_locking_reachable] show ?thesis by simp
qed

end
