(* ===== verification/Web_Text.thy ===== *)
theory Web_Text
  imports Js_Text
begin

text \<open>
  \<open>src/frontend/src/utils/format.js\<close> and the display functions of the components: amounts, ids,
  initials, and the parser of the amount field. Dates are in \<open>Web_Dates\<close>. A
  character outside the code units below 256 is written as \<open>...\<close> (ellipsis) or \<open>-\<close> (dashes, minus).
\<close>

section \<open>Amounts\<close>

text \<open>A number as the amount field can make it: an integral double, or \<open>Infinity\<close>.\<close>

datatype js_num = Fin int | Infinity

text \<open>The double nearest to a natural number, ties to even, with 53 bits of precision.\<close>

fun bit_size :: "nat \<Rightarrow> nat" where
  "bit_size n = (if n = 0 then 0 else Suc (bit_size (n div 2)))"

declare bit_size.simps [simp del]

definition to_double :: "nat \<Rightarrow> js_num" where
  "to_double n =
     (if n \<le> 2 ^ 53 then Fin (int n)
      else let k = bit_size n - 53; q = n div 2 ^ k; r = n mod 2 ^ k; half = 2 ^ (k - 1);
               q' = (if r > half \<or> (r = half \<and> odd q) then q + 1 else q); m = q' * 2 ^ k
           in if m < 2 ^ 1024 then Fin (int m) else Infinity)"

definition RECEIPT_THRESHOLD_default :: int where
  "RECEIPT_THRESHOLD_default = 5000000"

definition formatNumber :: "js_num \<Rightarrow> string" where
  "formatNumber v = (case v of Fin n \<Rightarrow> format_en_US n | Infinity \<Rightarrow> ''Infinity'')"

definition formatToman :: "int \<Rightarrow> string" where
  "formatToman n = format_en_US n @ '' T''"

text \<open>\<open>String(input).replace(/[^\d]/g, '')\<close>, then \<open>Number\<close>; \<open>None\<close> is \<open>null\<close>.\<close>

definition parseAmount :: "string \<Rightarrow> js_num option" where
  "parseAmount input = (let ds = filter is_digit input in
     if ds = [] then None else Some (to_double (digits_value ds)))"

section \<open>Names and ids\<close>

definition shortId :: "string option \<Rightarrow> string" where
  "shortId i = (case i of None \<Rightarrow> ''-'' | Some [] \<Rightarrow> ''-'' | Some s \<Rightarrow> take 8 s @ ''...'')"

definition js_upper :: "char \<Rightarrow> string" where
  "js_upper c = (let n = (of_char c :: nat) in
     if (97 \<le> n \<and> n \<le> 122) \<or> (224 \<le> n \<and> n \<le> 254 \<and> n \<noteq> 247) then [char_of (n - 32)]
     else if n = 223 then ''SS'' else [c])"

definition initials :: "string \<Rightarrow> string" where
  "initials name = (let s = concat (map (\<lambda>part. js_upper (hd part))
       (take 2 (filter (\<lambda>part. part \<noteq> []) (js_split_ws name)))) in
     if s = [] then ''?'' else s)"

section \<open>Badges and rows\<close>

definition VARIANTS :: "string \<Rightarrow> (string \<times> string) option" where
  "VARIANTS = map_of
     [(''NOT_REQUIRED'', (''No receipt'', ''neutral'')), (''PENDING'', (''Generating'', ''warning'')),
      (''GENERATED'', (''Receipt ready'', ''success'')), (''FAILED'', (''Receipt failed'', ''danger'')),
      (''OPENING'', (''Opening'', ''primary'')), (''DEBIT'', (''Debit'', ''neutral'')),
      (''CREDIT'', (''Credit'', ''success''))]"

definition variant :: "string \<Rightarrow> string \<times> string" where
  "variant status = (case VARIANTS status of Some v \<Rightarrow> v | None \<Rightarrow> (status, ''neutral''))"

section \<open>What they compute\<close>

lemma to_double_exact: "n \<le> 2 ^ 53 \<Longrightarrow> to_double n = Fin (int n)"
  by (simp add: to_double_def)

lemma parseAmount_format:
  assumes "0 \<le> n" "n \<le> 2 ^ 53"
  shows "parseAmount (format_en_US n) = Some (Fin n)"
proof -
  have "nat n \<le> 2 ^ 53" using assms by (simp add: nat_le_iff)
  with assms show ?thesis
    by (simp add: parseAmount_def filter_digit_format digits_nonempty digits_value_digits to_double_exact)
qed

lemma parseAmount_nonneg: "parseAmount s = Some (Fin n) \<Longrightarrow> 0 \<le> n"
  by (auto simp: parseAmount_def to_double_def Let_def split: if_splits)

text \<open>A separator the field does not know is dropped: a decimal fraction becomes another amount.\<close>

lemma parseAmount_decimal: "parseAmount ''1.5'' = Some (Fin 15)"
  by (simp add: parseAmount_def is_digit_def digits_value_def digit_value_def to_double_def)

lemma initials_nonempty: "initials name \<noteq> []"
  by (simp add: initials_def Let_def)

end
