(* ===== verification/Web_Client.thy ===== *)
theory Web_Client
  imports Web_Text Sockets
begin

text \<open>
  The state of the browser application and what acts on it: \<open>src/frontend/src/api/\<close>, the stores
  \<open>auth\<close>, \<open>wallet\<close>, \<open>toasts\<close> and \<open>realtime\<close>, and \<open>App.vue\<close>.

  The server, the clock and the decoding of base64 and JSON are the record \<open>web_env\<close>; while a
  request is awaited, other handlers may change the state in any way (\<open>meanwhile\<close>). A component
  extends the record \<open>web\<close> with its own fields. A computed property of Vue keeps its value until
  what it was computed from changes, and the clock is not among that: \<open>isAuthenticated\<close> is the
  field \<open>wb_authenticated\<close>, set when the token changes. A watcher runs after the handler that
  changed what it watches, before anything that awaits the handler goes on: \<open>flush_watch\<close>.
\<close>

section \<open>State\<close>

record toast =
  to_id :: int
  to_title :: string
  to_message :: string
  to_type :: string

text \<open>What the application does outside itself; \<open>WSpawn\<close> is a promise nobody awaits.\<close>

datatype web_ev =
    WFetch string string "(string \<times> js_value) list" js_value js_value
  | WConnect js_value
  | WDisconnect
  | WPush string
  | WReplace string
  | WSpawn string
  | WTimer string int

record web =
  wb_session :: js_value
  wb_authenticated :: bool
  wb_watched :: js_value
  wb_storage :: "js_value option"
  wb_toasts :: "toast list"
  wb_nextToast :: int
  wb_wallet :: js_value
  wb_loading :: bool
  wb_activity :: nat
  wb_status :: string
  wb_socket :: "js_value option"
  wb_trace :: "web_ev list"

text \<open>\<open>Response status statusText json\<close>, with \<open>None\<close> when \<open>json()\<close> rejects.\<close>

datatype fetch_result = NetworkFailure | Response int string "js_value option"

record 's web_env =
  fetch_answer :: "web_ev list \<Rightarrow> fetch_result"
  meanwhile :: "web_ev list \<Rightarrow> 's \<Rightarrow> 's"
  web_clock :: "web_ev list \<Rightarrow> int"
  decode_json :: "string \<Rightarrow> js_value option"

record web_error =
  we_name :: string
  we_status :: int
  we_code :: js_value
  we_message :: js_value
  we_details :: js_value

definition ApiError :: "int \<Rightarrow> js_value \<Rightarrow> js_value \<Rightarrow> js_value \<Rightarrow> web_error" where
  "ApiError status code message details =
     \<lparr>we_name = ''ApiError'', we_status = status, we_code = code, we_message = message, we_details = details\<rparr>"

definition type_error :: web_error where
  "type_error = \<lparr>we_name = ''TypeError'', we_status = 0, we_code = JUndefined,
     we_message = JStr ''Cannot read properties of null'', we_details = JUndefined\<rparr>"

type_synonym ('s, 'a) web_eff = "(web_error, 's, 'a) eff"

definition nullish :: "js_value \<Rightarrow> bool" where
  "nullish v \<longleftrightarrow> v = JNull \<or> v = JUndefined"

text \<open>\<open>a ?? b\<close>, \<open>v?.k\<close> and \<open>v.k\<close>\<close>

definition or_else :: "js_value \<Rightarrow> js_value \<Rightarrow> js_value" where
  "or_else a b = (if nullish a then b else a)"

text \<open>\<open>${v}\<close>\<close>

fun template_text :: "js_value \<Rightarrow> string" where
  "template_text JUndefined = ''undefined''"
| "template_text JNull = ''null''"
| "template_text (JBool b) = (if b then ''true'' else ''false'')"
| "template_text (JInt n) = js_String n"
| "template_text (JFloat t) = t"
| "template_text (JStr s) = s"
| "template_text (JArray vs) = tl (concat (map (\<lambda>v. CHR '','' # (if nullish v then [] else template_text v)) vs))"
| "template_text (JObject _) = ''[object Object]''"

definition field :: "js_value \<Rightarrow> string \<Rightarrow> ('s, js_value) web_eff" where
  "field v k = (if nullish v then throw type_error else ret (js_get v k))"

definition emit :: "web_ev \<Rightarrow> ('z web_scheme, unit) web_eff" where
  "emit e = modify (\<lambda>s. s\<lparr>wb_trace := wb_trace s @ [e]\<rparr>)"

section \<open>stores/auth.js\<close>

fun split_dots :: "string \<Rightarrow> string \<Rightarrow> string list" where
  "split_dots acc [] = [rev acc]"
| "split_dots acc (c # cs) = (if c = CHR ''.'' then rev acc # split_dots [] cs else split_dots (c # acc) cs)"

definition from_base64url :: "char \<Rightarrow> char" where
  "from_base64url c = (if c = CHR ''-'' then CHR ''+'' else if c = CHR ''_'' then CHR ''/'' else c)"

text \<open>
  The expiry of a token in milliseconds; \<open>None\<close> is \<open>NaN\<close>, which is later than no time. An expiry
  is read as a number when it is an integer, a boolean, \<open>null\<close> or a text.
\<close>

definition expiry_ms :: "js_value \<Rightarrow> int option" where
  "expiry_ms e = (case e of
     JInt n \<Rightarrow> Some (n * 1000)
   | JBool b \<Rightarrow> Some (if b then 1000 else 0)
   | JNull \<Rightarrow> Some 0
   | JStr s \<Rightarrow> map_option (\<lambda>n. n * 1000) (js_Number s)
   | _ \<Rightarrow> None)"

definition decodeExpiry :: "'s web_env \<Rightarrow> js_value \<Rightarrow> int option" where
  "decodeExpiry E token =
     (case token of
        JStr t \<Rightarrow>
          (case split_dots [] t of
             _ # payload # _ \<Rightarrow>
               (case decode_json E (map from_base64url payload) of
                  None \<Rightarrow> Some 0
                | Some p \<Rightarrow> if nullish p then Some 0
                    else expiry_ms (js_get p ''exp''))
           | _ \<Rightarrow> Some 0)
      | _ \<Rightarrow> Some 0)"

definition later_than :: "int option \<Rightarrow> int \<Rightarrow> bool" where
  "later_than e now = (case e of Some n \<Rightarrow> now < n | None \<Rightarrow> False)"

definition loadSession :: "'s web_env \<Rightarrow> js_value option \<Rightarrow> int \<Rightarrow> js_value" where
  "loadSession E storage now =
     (case storage of
        None \<Rightarrow> JNull
      | Some session \<Rightarrow>
          if js_truthy session \<and> later_than (decodeExpiry E (js_get session ''token'')) now then session else JNull)"

definition session_token :: "js_value \<Rightarrow> js_value" where
  "session_token session = or_else (js_get session ''token'') JNull"

definition session_user :: "js_value \<Rightarrow> js_value" where
  "session_user session = or_else (js_get session ''user'') JNull"

definition auth_token :: "'z web_scheme \<Rightarrow> js_value" where
  "auth_token s = session_token (wb_session s)"

definition isAdmin :: "'z web_scheme \<Rightarrow> bool" where
  "isAdmin s \<longleftrightarrow> js_get (session_user (wb_session s)) ''role'' = JStr ''ADMIN''"

definition live_token :: "'s web_env \<Rightarrow> js_value \<Rightarrow> int \<Rightarrow> bool" where
  "live_token E token now \<longleftrightarrow> js_truthy token \<and> later_than (decodeExpiry E token) now"

section \<open>stores/toasts.js and stores/wallet.js\<close>

definition push_toast :: "string \<Rightarrow> string \<Rightarrow> string \<Rightarrow> int \<Rightarrow> ('z web_scheme, unit) web_eff" where
  "push_toast type title message timeout =
     modify (\<lambda>s. s\<lparr>wb_nextToast := wb_nextToast s + 1,
       wb_toasts := wb_toasts s @ [\<lparr>to_id = wb_nextToast s, to_title = title, to_message = message, to_type = type\<rparr>],
       wb_trace := wb_trace s @ (if timeout \<noteq> 0 then [WTimer ''dismiss'' timeout] else [])\<rparr>)"

definition dismiss_toast :: "int \<Rightarrow> ('z web_scheme, unit) web_eff" where
  "dismiss_toast i = modify (\<lambda>s. s\<lparr>wb_toasts := filter (\<lambda>t. to_id t \<noteq> i) (wb_toasts s)\<rparr>)"

definition reset_wallet :: "('z web_scheme, unit) web_eff" where
  "reset_wallet = modify (\<lambda>s. s\<lparr>wb_wallet := JNull\<rparr>)"

definition markActivity :: "('z web_scheme, unit) web_eff" where
  "markActivity = await (modify (\<lambda>s. s\<lparr>wb_activity := wb_activity s + 1\<rparr>)) (\<lambda>_. emit (WSpawn ''wallet.refresh''))"

section \<open>stores/realtime.js\<close>

definition rt_disconnect :: "('z web_scheme, unit) web_eff" where
  "rt_disconnect = modify (\<lambda>s. s\<lparr>wb_socket := None, wb_status := ''offline'',
     wb_trace := wb_trace s @ (if wb_socket s \<noteq> None then [WDisconnect] else [])\<rparr>)"

definition rt_connect :: "js_value \<Rightarrow> ('z web_scheme, unit) web_eff" where
  "rt_connect token =
     await rt_disconnect (\<lambda>_.
     await (modify (\<lambda>s. s\<lparr>wb_status := ''connecting'', wb_socket := Some token\<rparr>)) (\<lambda>_.
     emit (WConnect token)))"

section \<open>App.vue\<close>

text \<open>The watcher of the token.\<close>

definition on_token_change :: "js_value \<Rightarrow> ('z web_scheme, unit) web_eff" where
  "on_token_change token =
     (if js_truthy token
      then await (rt_connect token) (\<lambda>_. emit (WSpawn ''wallet.refresh''))
      else await rt_disconnect (\<lambda>_. reset_wallet))"

definition flush_watch :: "('z web_scheme, unit) web_eff" where
  "flush_watch = (\<lambda>s.
     if auth_token s = wb_watched s then (Inr (), s)
     else on_token_change (auth_token s) (s\<lparr>wb_watched := auth_token s\<rparr>))"

text \<open>\<open>persist\<close> of the auth store, and the computed \<open>isAuthenticated\<close> it makes stale.\<close>

definition persist :: "'z web_scheme web_env \<Rightarrow> js_value \<Rightarrow> ('z web_scheme, unit) web_eff" where
  "persist E v = modify (\<lambda>s.
     let token = session_token v in
     s\<lparr>wb_session := v, wb_storage := (if js_truthy v then Some v else None),
       wb_authenticated := (if token = auth_token s then wb_authenticated s
                            else live_token E token (web_clock E (wb_trace s)))\<rparr>)"

definition logout :: "'z web_scheme web_env \<Rightarrow> ('z web_scheme, unit) web_eff" where
  "logout E = persist E JNull"

definition endSession :: "'z web_scheme web_env \<Rightarrow> string \<Rightarrow> ('z web_scheme, unit) web_eff" where
  "endSession E message = (\<lambda>s.
     if \<not> wb_authenticated s \<and> \<not> js_truthy (auth_token s) then (Inr (), s)
     else (await (logout E) (\<lambda>_.
           await (push_toast ''warning'' ''Signed out'' message 5000) (\<lambda>_.
           await (emit (WPush ''login'')) (\<lambda>_. flush_watch)))) s)"

section \<open>api/http.js\<close>

text \<open>From the moment the request is out: \<open>token\<close> is the token it carries.\<close>

definition receive :: "'z web_scheme web_env \<Rightarrow> js_value \<Rightarrow> ('z web_scheme, js_value) web_eff" where
  "receive E token =
     await (get_state wb_trace) (\<lambda>tr.
     await (modify (meanwhile E tr)) (\<lambda>_.
     case fetch_answer E tr of
       NetworkFailure \<Rightarrow>
         throw (ApiError 0 (JStr ''NETWORK_ERROR'') (JStr ''Cannot reach the server. Is the API running?'') JUndefined)
     | Response status statusText json \<Rightarrow>
         let payload = (if status = 204 then JNull else case json of Some v \<Rightarrow> v | None \<Rightarrow> JNull) in
         if \<not> (200 \<le> status \<and> status \<le> 299)
         then let error = (if nullish payload then JObject [] else or_else (js_get payload ''error'') (JObject [])) in
           await (if status = 401 \<and> js_truthy token
                  then endSession E ''Your session is no longer valid. Please sign in again.'' else ret ()) (\<lambda>_.
           throw (ApiError status (or_else (js_get error ''code'') (JStr ''HTTP_ERROR''))
                    (or_else (js_get error ''message'') (JStr statusText)) (js_get error ''details'')))
         else ret payload))"

definition request ::
  "'z web_scheme web_env \<Rightarrow> string \<Rightarrow> string \<Rightarrow> js_value \<Rightarrow> (string \<times> js_value) list \<Rightarrow> ('z web_scheme, js_value) web_eff" where
  "request E meth path body qs =
     await (get_state auth_token) (\<lambda>token.
     await (emit (WFetch meth path (filter (\<lambda>q. \<not> nullish (snd q)) qs)
                    (if js_truthy token then token else JUndefined) body)) (\<lambda>_.
     receive E token))"

definition http_get :: "'z web_scheme web_env \<Rightarrow> string \<Rightarrow> (string \<times> js_value) list \<Rightarrow> ('z web_scheme, js_value) web_eff" where
  "http_get E path qs = request E ''GET'' path JUndefined qs"

definition http_post :: "'z web_scheme web_env \<Rightarrow> string \<Rightarrow> js_value \<Rightarrow> ('z web_scheme, js_value) web_eff" where
  "http_post E path body = request E ''POST'' path body []"

section \<open>api/index.js\<close>

definition hex_char :: "nat \<Rightarrow> char" where
  "hex_char n = (if n < 10 then char_of (48 + n) else char_of (55 + n))"

definition percent :: "nat \<Rightarrow> string" where
  "percent n = [CHR ''%'', hex_char (n div 16), hex_char (n mod 16)]"

definition encodeURIComponent :: "string \<Rightarrow> string" where
  "encodeURIComponent s = concat (map (\<lambda>c. let n = (of_char c :: nat) in
     if is_digit c \<or> (65 \<le> n \<and> n \<le> 90) \<or> (97 \<le> n \<and> n \<le> 122) \<or> c \<in> set ''-_.!~*()'' \<or> n = 39 then [c]
     else if n < 128 then percent n
     else percent (192 + n div 64) @ percent (128 + n mod 64)) s)"

definition page_query :: "js_value \<Rightarrow> int \<Rightarrow> (string \<times> js_value) list" where
  "page_query page limit = [(''page'', page), (''limit'', JInt limit)]"

definition authApi_login :: "'z web_scheme web_env \<Rightarrow> js_value \<Rightarrow> ('z web_scheme, js_value) web_eff" where
  "authApi_login E credentials = http_post E ''/api/auth/login'' credentials"
definition authApi_register :: "'z web_scheme web_env \<Rightarrow> js_value \<Rightarrow> ('z web_scheme, js_value) web_eff" where
  "authApi_register E payload = http_post E ''/api/auth/register'' payload"
definition userApi_findByUsername :: "'z web_scheme web_env \<Rightarrow> string \<Rightarrow> ('z web_scheme, js_value) web_eff" where
  "userApi_findByUsername E name = http_get E (''/api/users/'' @ encodeURIComponent name) []"
definition walletApi_me :: "'z web_scheme web_env \<Rightarrow> ('z web_scheme, js_value) web_eff" where
  "walletApi_me E = http_get E ''/api/wallets/me'' []"
definition walletApi_ledger ::
  "'z web_scheme web_env \<Rightarrow> js_value \<Rightarrow> int \<Rightarrow> ('z web_scheme, js_value) web_eff" where
  "walletApi_ledger E page limit = http_get E ''/api/wallets/me/ledger'' (page_query page limit)"
definition transferApi_create :: "'z web_scheme web_env \<Rightarrow> js_value \<Rightarrow> ('z web_scheme, js_value) web_eff" where
  "transferApi_create E payload = http_post E ''/api/transfers'' payload"
definition transactionApi_list ::
  "'z web_scheme web_env \<Rightarrow> js_value \<Rightarrow> int \<Rightarrow> ('z web_scheme, js_value) web_eff" where
  "transactionApi_list E page limit = http_get E ''/api/transactions'' (page_query page limit)"
definition transactionApi_get :: "'z web_scheme web_env \<Rightarrow> js_value \<Rightarrow> ('z web_scheme, js_value) web_eff" where
  "transactionApi_get E i = http_get E (''/api/transactions/'' @ template_text i) []"
definition adminApi_transactions ::
  "'z web_scheme web_env \<Rightarrow> js_value \<Rightarrow> int \<Rightarrow> ('z web_scheme, js_value) web_eff" where
  "adminApi_transactions E page limit = http_get E ''/api/admin/transactions'' (page_query page limit)"

section \<open>Signing in, the wallet, and events of the socket\<close>

definition auth_store_login :: "'z web_scheme web_env \<Rightarrow> js_value \<Rightarrow> ('z web_scheme, unit) web_eff" where
  "auth_store_login E credentials =
     await (authApi_login E credentials) (\<lambda>r.
     await (field r ''accessToken'') (\<lambda>accessToken.
     await (field r ''user'') (\<lambda>profile.
     await (persist E (JObject [(''token'', accessToken), (''user'', profile)])) (\<lambda>_.
     flush_watch))))"

definition auth_store_register :: "'z web_scheme web_env \<Rightarrow> js_value \<Rightarrow> ('z web_scheme, unit) web_eff" where
  "auth_store_register E payload =
     await (authApi_register E payload) (\<lambda>_.
     auth_store_login E (JObject [(''username'', js_get payload ''username''), (''password'', js_get payload ''password'')]))"

definition wallet_refresh :: "'z web_scheme web_env \<Rightarrow> ('z web_scheme, unit) web_eff" where
  "wallet_refresh E =
     await (modify (\<lambda>s. s\<lparr>wb_loading := True\<rparr>)) (\<lambda>_.
     try_finally
       (await (walletApi_me E) (\<lambda>w. modify (\<lambda>s. s\<lparr>wb_wallet := w\<rparr>)))
       (modify (\<lambda>s. s\<lparr>wb_loading := False\<rparr>)))"

datatype client_event =
    OnSessionReady
  | OnDisconnect
  | OnConnectError "string option"
  | OnSessionExpired
  | OnTransferReceived notification

text \<open>The listeners of the socket, which \<open>removeAllListeners\<close> removes with it.\<close>

definition on_socket_event :: "'z web_scheme web_env \<Rightarrow> client_event \<Rightarrow> ('z web_scheme, unit) web_eff" where
  "on_socket_event E e = (\<lambda>s.
     if wb_socket s = None then (Inr (), s)
     else (case e of
       OnSessionReady \<Rightarrow> modify (\<lambda>s. s\<lparr>wb_status := ''live''\<rparr>)
     | OnDisconnect \<Rightarrow> modify (\<lambda>s. s\<lparr>wb_status := ''connecting''\<rparr>)
     | OnConnectError code \<Rightarrow>
         await (modify (\<lambda>s. s\<lparr>wb_status := ''offline''\<rparr>)) (\<lambda>_.
         if code = Some ''TOKEN_EXPIRED'' \<or> code = Some ''INVALID_TOKEN''
         then endSession E ''Your session has expired.'' else ret ())
     | OnSessionExpired \<Rightarrow>
         await (modify (\<lambda>s. s\<lparr>wb_status := ''offline''\<rparr>)) (\<lambda>_. endSession E ''Your session has expired.'')
     | OnTransferReceived n \<Rightarrow>
         await (push_toast ''success'' (''+ '' @ formatToman (n_amount n))
                  (''Received from '' @ p_fullName (n_sender n) @
                   (case n_description n of None \<Rightarrow> [] | Some [] \<Rightarrow> [] | Some d \<Rightarrow> '' '' @ [CHR 0xB7] @ '' '' @ d)) 7000) (\<lambda>_.
         markActivity)) s)"

text \<open>The application as it starts: the session of the storage, and the watcher run at once.\<close>

definition start_app :: "'z web_scheme web_env \<Rightarrow> ('z web_scheme, unit) web_eff" where
  "start_app E = (\<lambda>s.
     let now = web_clock E (wb_trace s); session = loadSession E (wb_storage s) now in
     on_token_change (session_token session)
       (s\<lparr>wb_session := session, wb_watched := session_token session,
         wb_authenticated := live_token E (session_token session) now\<rparr>))"

end
