(* ===== verification/Web_Transfer.thy ===== *)
theory Web_Transfer
  imports Web_Client
begin

text \<open>
  \<open>src/frontend/src/components/TransferForm.vue\<close>: the form that looks up a recipient, checks the
  amount, sends the transfer and polls for its receipt. The timers of the form are part of its state,
  so that clearing one and firing one are operations on it. Amounts the server sends are integers.
\<close>

section \<open>State\<close>

datatype form_timer = LookupTimer string | PollTimer js_value nat

record tform = web +
  tf_username :: string
  tf_watched :: string
  tf_recipient :: js_value
  tf_lookupError :: js_value
  tf_lookingUp :: bool
  tf_amountInput :: string
  tf_description :: string
  tf_submitting :: bool
  tf_error :: js_value
  tf_result :: js_value
  tf_timers :: "(nat \<times> form_timer) list"
  tf_nextTimer :: nat
  tf_lookupTimer :: "nat option"
  tf_pollTimer :: "nat option"

definition QUICK_AMOUNTS :: "int list" where
  "QUICK_AMOUNTS = [100000, 1000000, 5000000, 6000000]"

definition RECEIPT_POLL_MS :: int where
  "RECEIPT_POLL_MS = 1000"

definition RECEIPT_POLL_LIMIT :: nat where
  "RECEIPT_POLL_LIMIT = 30"

definition clearTimeout :: "nat option \<Rightarrow> tform \<Rightarrow> tform" where
  "clearTimeout i s = s\<lparr>tf_timers := filter (\<lambda>t. i \<noteq> Some (fst t)) (tf_timers s)\<rparr>"

definition setTimeout :: "form_timer \<Rightarrow> tform \<Rightarrow> tform" where
  "setTimeout t s = s\<lparr>tf_timers := tf_timers s @ [(tf_nextTimer s, t)], tf_nextTimer := tf_nextTimer s + 1\<rparr>"

section \<open>Computed properties\<close>

definition amount :: "tform \<Rightarrow> js_num option" where
  "amount s = parseAmount (tf_amountInput s)"

definition balance_value :: "tform \<Rightarrow> js_value" where
  "balance_value s = or_else (js_get (wb_wallet s) ''balance'') (JInt 0)"

definition greater :: "js_num \<Rightarrow> js_value \<Rightarrow> bool" where
  "greater a v = (case v of JInt b \<Rightarrow> (case a of Fin n \<Rightarrow> b < n | Infinity \<Rightarrow> True) | _ \<Rightarrow> False)"

definition exceedsBalance :: "tform \<Rightarrow> bool" where
  "exceedsBalance s = (case amount s of None \<Rightarrow> False | Some a \<Rightarrow> greater a (balance_value s))"

definition needsReceipt :: "int \<Rightarrow> tform \<Rightarrow> bool" where
  "needsReceipt threshold s = (case amount s of None \<Rightarrow> False | Some a \<Rightarrow> greater a (JInt threshold))"

definition canSubmit :: "tform \<Rightarrow> bool" where
  "canSubmit s \<longleftrightarrow> js_truthy (tf_recipient s) \<and>
     (case amount s of None \<Rightarrow> False | Some a \<Rightarrow> greater a (JInt 0)) \<and>
     \<not> exceedsBalance s \<and> \<not> tf_submitting s"

section \<open>Looking up the recipient\<close>

definition normalize :: "string \<Rightarrow> string" where
  "normalize v = toLowerCase (js_trim v)"

definition lookup_form :: "tform web_env \<Rightarrow> string \<Rightarrow> (tform, unit) web_eff" where
  "lookup_form E v =
     await (modify (\<lambda>s. s\<lparr>tf_recipient := JNull, tf_lookupError := JStr []\<rparr>)) (\<lambda>_.
     await (get_state (\<lambda>s. js_get (session_user (wb_session s)) ''username'')) (\<lambda>me.
     let normalized = normalize v in
     if normalized = [] then ret ()
     else if JStr normalized = me
     then modify (\<lambda>s. s\<lparr>tf_lookupError := JStr ''You cannot send money to yourself.''\<rparr>)
     else
       await (modify (\<lambda>s. s\<lparr>tf_lookingUp := True\<rparr>)) (\<lambda>_.
       try_finally
         (try_catch
           (await (userApi_findByUsername E normalized) (\<lambda>found.
            modify (\<lambda>s. if normalize (tf_username s) = normalized then s\<lparr>tf_recipient := found\<rparr> else s)))
           (\<lambda>err. modify (\<lambda>s. s\<lparr>tf_lookupError :=
              (if we_status err = 404 then JStr (''No user named \"'' @ normalized @ ''\".'') else we_message err)\<rparr>)))
         (modify (\<lambda>s. s\<lparr>tf_lookingUp := False\<rparr>)))))"

text \<open>The watcher of the username, which runs after the handler that changed it.\<close>

definition watch_username :: "tform \<Rightarrow> tform" where
  "watch_username s =
     (if tf_username s = tf_watched s then s
      else let s1 = clearTimeout (tf_lookupTimer s) s;
               s2 = s1\<lparr>tf_watched := tf_username s, tf_recipient := JNull, tf_lookupError := JStr []\<rparr>
           in setTimeout (LookupTimer (tf_username s)) s2\<lparr>tf_lookupTimer := Some (tf_nextTimer s2)\<rparr>)"

definition type_username :: "string \<Rightarrow> (tform, unit) web_eff" where
  "type_username v = modify (\<lambda>s. watch_username (s\<lparr>tf_username := v\<rparr>))"

definition onAmountInput :: "string \<Rightarrow> (tform, unit) web_eff" where
  "onAmountInput v = modify (\<lambda>s. s\<lparr>tf_amountInput :=
     (case parseAmount v of None \<Rightarrow> [] | Some parsed \<Rightarrow> formatNumber parsed)\<rparr>)"

definition setAmount :: "int \<Rightarrow> (tform, unit) web_eff" where
  "setAmount v = modify (\<lambda>s. s\<lparr>tf_amountInput := formatNumber (Fin v)\<rparr>)"

text \<open>The field of the description has \<open>maxlength=255\<close>: typing keeps at most that many characters.\<close>

definition type_description :: "string \<Rightarrow> (tform, unit) web_eff" where
  "type_description v = modify (\<lambda>s. s\<lparr>tf_description := take 255 v\<rparr>)"

section \<open>Sending and polling\<close>

definition pollReceipt :: "js_value \<Rightarrow> nat \<Rightarrow> (tform, unit) web_eff" where
  "pollReceipt transactionId attempt =
     modify (\<lambda>s. setTimeout (PollTimer transactionId attempt) s\<lparr>tf_pollTimer := Some (tf_nextTimer s)\<rparr>)"

text \<open>The callback of its timer.\<close>

definition poll_fired :: "tform web_env \<Rightarrow> js_value \<Rightarrow> nat \<Rightarrow> (tform, unit) web_eff" where
  "poll_fired E transactionId attempt =
     try_catch
       (await (transactionApi_get E transactionId) (\<lambda>tx.
        await (get_state (\<lambda>s. js_get (tf_result s) ''id'')) (\<lambda>shown.
        if shown \<noteq> transactionId then ret ()
        else
          await (modify (\<lambda>s. s\<lparr>tf_result := tx\<rparr>)) (\<lambda>_.
          await (field tx ''receiptStatus'') (\<lambda>status.
          if status = JStr ''PENDING'' \<and> attempt < RECEIPT_POLL_LIMIT
          then pollReceipt transactionId (attempt + 1)
          else if status = JStr ''GENERATED'' then markActivity else ret ())))))
       (\<lambda>_. if attempt < RECEIPT_POLL_LIMIT then pollReceipt transactionId (attempt + 1) else ret ())"

definition transfer_payload :: "tform \<Rightarrow> js_value" where
  "transfer_payload s = JObject
     [(''toUserId'', js_get (tf_recipient s) ''id''),
      (''amount'', case amount s of Some (Fin a) \<Rightarrow> JInt a | Some Infinity \<Rightarrow> JNull | None \<Rightarrow> JNull),
      (''description'', if js_trim (tf_description s) = [] then JUndefined else JStr (js_trim (tf_description s)))]"

text \<open>\<open>formatToman\<close> of what the server sent, \<open>0\<close> for nothing.\<close>

definition formatToman_value :: "js_value \<Rightarrow> string" where
  "formatToman_value v = (case v of JInt n \<Rightarrow> formatToman n | JNull \<Rightarrow> formatToman 0 | JUndefined \<Rightarrow> formatToman 0
     | _ \<Rightarrow> template_text v @ '' T'')"

definition submit_body :: "tform web_env \<Rightarrow> (tform, unit) web_eff" where
  "submit_body E =
     await (get_state transfer_payload) (\<lambda>payload.
     await (transferApi_create E payload) (\<lambda>tx.
     await (modify (\<lambda>s. s\<lparr>tf_result := tx\<rparr>)) (\<lambda>_.
     await (field tx ''amount'') (\<lambda>sent.
     await (field tx ''to'') (\<lambda>to.
     await (field to ''fullName'') (\<lambda>name.
     await (push_toast ''success'' ''Transfer completed''
              (formatToman_value sent @ '' sent to '' @ template_text name) 5000) (\<lambda>_.
     await markActivity (\<lambda>_.
     await (if js_get tx ''receiptStatus'' = JStr ''PENDING'' then pollReceipt (js_get tx ''id'') 0 else ret ()) (\<lambda>_.
     modify (\<lambda>s. s\<lparr>tf_username := [], tf_amountInput := [], tf_description := []\<rparr>))))))))))"

definition submit :: "tform web_env \<Rightarrow> (tform, unit) web_eff" where
  "submit E = (\<lambda>s.
     if \<not> canSubmit s then (Inr (), s)
     else
       (await (modify (\<lambda>s. clearTimeout (tf_pollTimer s) (s\<lparr>tf_error := JStr [], tf_submitting := True\<rparr>))) (\<lambda>_.
        await (try_finally
          (try_catch (submit_body E) (\<lambda>err. modify (\<lambda>s. s\<lparr>tf_error := we_message err\<rparr>)))
          (modify (\<lambda>s. s\<lparr>tf_submitting := False\<rparr>))) (\<lambda>_.
        modify watch_username))) s)"

text \<open>A timer goes off, and \<open>onBeforeUnmount\<close>.\<close>

definition fire :: "tform web_env \<Rightarrow> nat \<Rightarrow> (tform, unit) web_eff" where
  "fire E i = (\<lambda>s.
     case map_of (tf_timers s) i of
       None \<Rightarrow> (Inr (), s)
     | Some t \<Rightarrow>
         (let s' = s\<lparr>tf_timers := filter (\<lambda>x. fst x \<noteq> i) (tf_timers s)\<rparr> in
          case t of LookupTimer v \<Rightarrow> lookup_form E v s' | PollTimer tx attempt \<Rightarrow> poll_fired E tx attempt s'))"

definition unmount_form :: "(tform, unit) web_eff" where
  "unmount_form = modify (\<lambda>s. clearTimeout (tf_pollTimer s) (clearTimeout (tf_lookupTimer s) s))"

end
