(* ===== verification/Web_Router.thy ===== *)
theory Web_Router
  imports Web_Client
begin

text \<open>
  \<open>src/frontend/src/router/index.js\<close>: the routes, the guard that runs before every navigation, and
  the navigation that follows its redirects. Matching a path against the routes and writing a query
  into a URL are the router library's, in \<open>router_env\<close>; what the routes rely on is
  \<open>matches_routes\<close>. A redirect starts another navigation, so a navigation may not end:
  \<open>navigate\<close> is a partial function, and that it returns is a theorem.
\<close>

section \<open>Routes\<close>

record route =
  rt_path :: string
  rt_name :: "string option"
  rt_requiresAuth :: bool
  rt_guestOnly :: bool
  rt_requiresAdmin :: bool
  rt_redirect :: "string option"

definition guest_route :: "string \<Rightarrow> string \<Rightarrow> route" where
  "guest_route path name = \<lparr>rt_path = path, rt_name = Some name, rt_requiresAuth = False, rt_guestOnly = True,
     rt_requiresAdmin = False, rt_redirect = None\<rparr>"

definition user_route :: "string \<Rightarrow> string \<Rightarrow> bool \<Rightarrow> route" where
  "user_route path name admin = \<lparr>rt_path = path, rt_name = Some name, rt_requiresAuth = True, rt_guestOnly = False,
     rt_requiresAdmin = admin, rt_redirect = None\<rparr>"

definition routes :: "route list" where
  "routes =
     [guest_route ''/login'' ''login'',
      guest_route ''/register'' ''register'',
      user_route ''/'' ''dashboard'' False,
      user_route ''/transactions'' ''transactions'' False,
      user_route ''/ledger'' ''ledger'' False,
      user_route ''/admin/transactions'' ''admin-transactions'' True,
      \<lparr>rt_path = ''/:pathMatch(.*)*'', rt_name = None, rt_requiresAuth = False, rt_guestOnly = False,
       rt_requiresAdmin = False, rt_redirect = Some ''/''\<rparr>]"

text \<open>Where a navigation is asked to go: a path, or a named route with the \<open>redirect\<close> of its query.\<close>

datatype target = ByPath string | ByName string "string option"

record location =
  to_route :: route
  to_fullPath :: string
  to_query_redirect :: "string option"

record router_env =
  match_path :: "string \<Rightarrow> route"
  query_redirect :: "string \<Rightarrow> string option"
  with_query :: "string \<Rightarrow> string \<Rightarrow> string"

text \<open>What the routes rely on: a path matches one of them, and a path written in a route matches it.\<close>

definition matches_routes :: "router_env \<Rightarrow> bool" where
  "matches_routes R \<longleftrightarrow> (\<forall>p. match_path R p \<in> set routes) \<and>
     (\<forall>r \<in> set routes. rt_redirect r = None \<longrightarrow> match_path R (rt_path r) = r)"

definition named :: "string \<Rightarrow> route option" where
  "named name = find (\<lambda>r. rt_name r = Some name) routes"

definition resolve :: "router_env \<Rightarrow> target \<Rightarrow> location option" where
  "resolve R t = (case t of
     ByPath p \<Rightarrow> Some \<lparr>to_route = match_path R p, to_fullPath = p, to_query_redirect = query_redirect R p\<rparr>
   | ByName name q \<Rightarrow> map_option (\<lambda>r. \<lparr>to_route = r,
       to_fullPath = (case q of None \<Rightarrow> rt_path r | Some v \<Rightarrow> with_query R (rt_path r) v),
       to_query_redirect = q\<rparr>) (named name))"

section \<open>The guard\<close>

datatype guard_answer = Proceed | RedirectTo target

definition beforeEach :: "bool \<Rightarrow> bool \<Rightarrow> location \<Rightarrow> guard_answer" where
  "beforeEach authenticated admin to =
     (if rt_requiresAuth (to_route to) \<and> \<not> authenticated
      then RedirectTo (ByName ''login'' (if to_fullPath to \<noteq> ''/'' then Some (to_fullPath to) else None))
      else if rt_guestOnly (to_route to) \<and> authenticated
      then RedirectTo (ByName ''dashboard'' None)
      else if rt_requiresAdmin (to_route to) \<and> \<not> admin
      then RedirectTo (ByName ''dashboard'' None)
      else Proceed)"

partial_function (option) navigate :: "router_env \<Rightarrow> bool \<Rightarrow> bool \<Rightarrow> target \<Rightarrow> location option" where
  "navigate R authenticated admin t =
     (case resolve R t of
        None \<Rightarrow> None
      | Some to \<Rightarrow>
          (case rt_redirect (to_route to) of
             Some p \<Rightarrow> navigate R authenticated admin (ByPath p)
           | None \<Rightarrow>
               (case beforeEach authenticated admin to of
                  Proceed \<Rightarrow> Some to
                | RedirectTo t' \<Rightarrow> navigate R authenticated admin t')))"

text \<open>What the metadata of a route asks of the session.\<close>

definition permitted :: "bool \<Rightarrow> bool \<Rightarrow> route \<Rightarrow> bool" where
  "permitted authenticated admin r \<longleftrightarrow>
     (rt_requiresAuth r \<longrightarrow> authenticated) \<and> (rt_guestOnly r \<longrightarrow> \<not> authenticated) \<and>
     (rt_requiresAdmin r \<longrightarrow> admin)"

section \<open>What it does\<close>

lemmas route_defs = routes_def guest_route_def user_route_def

lemma named_routes:
  "named ''login'' = Some (guest_route ''/login'' ''login'')"
  "named ''dashboard'' = Some (user_route ''/'' ''dashboard'' False)"
  by (simp_all add: named_def route_defs)

lemma route_cases:
  assumes "r \<in> set routes"
  obtains "rt_redirect r = Some ''/''"
  | "rt_redirect r = None" "rt_guestOnly r" "\<not> rt_requiresAuth r" "\<not> rt_requiresAdmin r"
  | "rt_redirect r = None" "\<not> rt_guestOnly r" "rt_requiresAuth r"
  using assms by (auto simp: route_defs)

lemma matches_routes_path:
  "matches_routes R \<Longrightarrow> r \<in> set routes \<Longrightarrow> rt_redirect r = None \<Longrightarrow> match_path R (rt_path r) = r"
  by (simp add: matches_routes_def)

lemma matches_routes_mem: "matches_routes R \<Longrightarrow> match_path R p \<in> set routes"
  by (simp add: matches_routes_def)

lemma root_matches:
  assumes "matches_routes R"
  shows "match_path R ''/'' = user_route ''/'' ''dashboard'' False"
  using matches_routes_path [OF assms, of "user_route ''/'' ''dashboard'' False"]
  by (simp add: routes_def) (simp add: user_route_def)

lemma protected_route: "r \<in> set routes \<Longrightarrow> rt_requiresAuth r \<Longrightarrow> rt_redirect r = None \<and> \<not> rt_guestOnly r"
  by (auto simp: route_defs)

lemma navigate_login:
  "navigate R False admin (ByName ''login'' q) =
     Some \<lparr>to_route = guest_route ''/login'' ''login'',
       to_fullPath = (case q of None \<Rightarrow> ''/login'' | Some v \<Rightarrow> with_query R ''/login'' v), to_query_redirect = q\<rparr>"
  by (subst navigate.simps) (auto simp: resolve_def named_routes beforeEach_def guest_route_def split: option.splits)

lemma navigate_dashboard:
  "navigate R True admin (ByName ''dashboard'' None) =
     Some \<lparr>to_route = user_route ''/'' ''dashboard'' False, to_fullPath = ''/'', to_query_redirect = None\<rparr>"
  by (subst navigate.simps) (simp add: resolve_def named_routes beforeEach_def user_route_def)

text \<open>A navigation to a location with a route of its own: it is there, or one redirect away.\<close>

lemma navigate_to:
  assumes "resolve R t = Some to" "to_route to \<in> set routes" "rt_redirect (to_route to) = None"
  shows "navigate R authenticated admin t =
    (if permitted authenticated admin (to_route to) then Some to
     else if authenticated then navigate R True admin (ByName ''dashboard'' None)
     else navigate R False admin (ByName ''login''
       (if to_fullPath to \<noteq> ''/'' then Some (to_fullPath to) else None)))"
  using assms(2)
proof (cases rule: route_cases)
  case 1
  with assms(3) show ?thesis by simp
next
  case 2
  with assms show ?thesis
    by (subst navigate.simps) (simp add: beforeEach_def permitted_def)
next
  case 3
  with assms show ?thesis
    by (subst navigate.simps) (cases authenticated; cases admin; simp add: beforeEach_def permitted_def)
qed

lemma navigate_ends:
  assumes "resolve R t = Some to" "to_route to \<in> set routes" "rt_redirect (to_route to) = None"
  shows "\<exists>l. navigate R authenticated admin t = Some l \<and> permitted authenticated admin (to_route l) \<and>
    to_route l \<in> set routes"
  using assms by (auto simp: navigate_to navigate_login navigate_dashboard permitted_def route_defs)

lemma navigate_path_ends:
  assumes "matches_routes R"
  shows "\<exists>l. navigate R authenticated admin (ByPath p) = Some l \<and> permitted authenticated admin (to_route l) \<and>
    to_route l \<in> set routes"
proof -
  have ends: "\<exists>l. navigate R authenticated admin (ByPath q) = Some l \<and> permitted authenticated admin (to_route l) \<and>
      to_route l \<in> set routes" if "rt_redirect (match_path R q) = None" for q
    by (rule navigate_ends [where to = "\<lparr>to_route = match_path R q, to_fullPath = q,
        to_query_redirect = query_redirect R q\<rparr>"]) (simp_all add: resolve_def that matches_routes_mem [OF assms])
  have "match_path R p \<in> set routes" by (rule matches_routes_mem [OF assms])
  then show ?thesis
  proof (cases rule: route_cases)
    case 1
    then have "navigate R authenticated admin (ByPath p) = navigate R authenticated admin (ByPath ''/'')"
      by (subst navigate.simps) (simp add: resolve_def)
    moreover have "rt_redirect (match_path R ''/'') = None"
      using root_matches [OF assms] by (simp add: user_route_def)
    ultimately show ?thesis using ends by simp
  qed (use ends in blast)+
qed

section \<open>Properties\<close>

text \<open>A matcher for the routes of the file, by their paths.\<close>

definition plain_router :: router_env where
  "plain_router = \<lparr>match_path = (\<lambda>p. case find (\<lambda>r. rt_path r = p \<and> rt_redirect r = None) routes of
       Some r \<Rightarrow> r | None \<Rightarrow> last routes),
     query_redirect = (\<lambda>_. None), with_query = (\<lambda>p v. p @ ''?redirect='' @ encodeURIComponent v)\<rparr>"

lemma plain_router_matches: "matches_routes plain_router"
  by (auto simp: matches_routes_def plain_router_def route_defs split: option.splits dest!: find_SomeD)

text \<open>C35: every navigation the application starts by a path ends, on a page that the session permits:
  a page for signed-in users only with a session, one for guests only without, the admin page only for
  an admin. In particular the redirects of the guard never chase each other.\<close>

theorem navigation_ends_where_permitted:
  assumes "matches_routes R"
  shows "\<exists>l. navigate R authenticated admin (ByPath p) = Some l \<and> to_route l \<in> set routes \<and>
    (rt_requiresAuth (to_route l) \<longrightarrow> authenticated) \<and> (rt_guestOnly (to_route l) \<longrightarrow> \<not> authenticated) \<and>
    (rt_requiresAdmin (to_route l) \<longrightarrow> admin)"
  using navigate_path_ends [OF assms, of authenticated admin p] by (auto simp: permitted_def)

theorem navigation_ends_where_permitted_witness:
  "\<exists>l. navigate plain_router True False (ByPath ''/admin/transactions'') = Some l \<and> to_route l \<in> set routes \<and>
    \<not> rt_requiresAdmin (to_route l)"
  using navigation_ends_where_permitted [OF plain_router_matches, of True False "''/admin/transactions''"] by auto

text \<open>Signing in leads back to the page that was asked for: a visitor without a session who opens a
  protected page is sent to the sign-in page, and going on from there with a session reaches the page,
  when the session permits it.\<close>

lemma sign_in_returns_to_the_page:
  assumes "matches_routes R" "match_path R p = r" "rt_requiresAuth r" "permitted True admin r"
  shows "\<exists>l. navigate R False False (ByPath p) = Some l \<and> rt_name (to_route l) = Some ''login'' \<and>
    (\<exists>l'. navigate R True admin (ByPath (case to_query_redirect l of None \<Rightarrow> ''/'' | Some q \<Rightarrow> q)) = Some l' \<and>
       to_route l' = r \<and> to_fullPath l' = p)"
proof -
  have "r \<in> set routes" using matches_routes_mem [OF assms(1), of p] assms(2) by simp
  then have r: "r \<in> set routes" "rt_redirect r = None" using protected_route assms(3) by auto
  let ?to = "\<lparr>to_route = match_path R p, to_fullPath = p, to_query_redirect = query_redirect R p\<rparr>"
  have to: "resolve R (ByPath p) = Some ?to" by (simp add: resolve_def)
  have "navigate R False False (ByPath p) =
      navigate R False False (ByName ''login'' (if p \<noteq> ''/'' then Some p else None))"
    using navigate_to [OF to] r assms by (simp add: permitted_def)
  moreover have "navigate R True admin (ByPath p) = Some ?to"
    using navigate_to [OF to] r assms by simp
  ultimately show ?thesis
    using assms(2) by (cases "p = ''/''") (simp_all add: navigate_login guest_route_def)
qed

lemma sign_in_returns_to_the_page_witness:
  "\<exists>l. navigate plain_router False False (ByPath ''/ledger'') = Some l \<and> rt_name (to_route l) = Some ''login'' \<and>
    (\<exists>l'. navigate plain_router True False
        (ByPath (case to_query_redirect l of None \<Rightarrow> ''/'' | Some q \<Rightarrow> q)) = Some l' \<and>
      to_route l' = user_route ''/ledger'' ''ledger'' False \<and> to_fullPath l' = ''/ledger'')"
  by (rule sign_in_returns_to_the_page [OF plain_router_matches])
    (simp_all add: plain_router_def route_defs permitted_def)

end
