(* ===== verification/Web_Views.thy ===== *)
theory Web_Views
  imports Web_Transfer Web_Router
begin

text \<open>
  The other views: the paged lists of \<open>composables/usePagedResource.js\<close>, the sign-in and registration
  forms, the sign-out of the header, and what the tables, the ledger and the administration page show.
  Each view extends the record \<open>web\<close> with its own state. Text is what the templates print; the
  function that shows a date is an argument here, and given in \<open>Web_Dates\<close>.
\<close>

section \<open>usePagedResource.js\<close>

record paged = web +
  pg_items :: js_value
  pg_pagination :: js_value
  pg_loading :: bool
  pg_error :: js_value
  pg_timers :: "nat list"
  pg_nextTimer :: nat
  pg_refreshTimer :: "nat option"

definition PENDING_REFRESH_MS :: int where
  "PENDING_REFRESH_MS = 2000"

definition initial_pagination :: "int \<Rightarrow> js_value" where
  "initial_pagination limit = JObject [(''page'', JInt 1), (''limit'', JInt limit), (''total'', JInt 0),
     (''totalPages'', JInt 0)]"

text \<open>\<open>result.items.some(...)\<close>; anything but an array has no \<open>some\<close>.\<close>

definition some_pending :: "js_value \<Rightarrow> (paged, bool) web_eff" where
  "some_pending v = (case v of
     JArray xs \<Rightarrow>
       (if list_ex nullish (takeWhile (\<lambda>x. js_get x ''receiptStatus'' \<noteq> JStr ''PENDING'') xs)
        then throw type_error else ret (list_ex (\<lambda>x. js_get x ''receiptStatus'' = JStr ''PENDING'') xs))
   | _ \<Rightarrow> throw type_error)"

definition clear_refresh :: "paged \<Rightarrow> paged" where
  "clear_refresh s = s\<lparr>pg_timers := filter (\<lambda>i. pg_refreshTimer s \<noteq> Some i) (pg_timers s)\<rparr>"

text \<open>\<open>load(page = pagination.value.page)\<close>; the refresh timer calls it without a page.\<close>

definition load_page ::
  "(js_value \<Rightarrow> int \<Rightarrow> (paged, js_value) web_eff) \<Rightarrow> int \<Rightarrow> js_value option \<Rightarrow> (paged, unit) web_eff" where
  "load_page fetchPage limit page =
     await (get_state (\<lambda>s. case page of Some p \<Rightarrow> p | None \<Rightarrow> js_get (pg_pagination s) ''page'')) (\<lambda>p.
     await (modify (\<lambda>s. clear_refresh s\<lparr>pg_loading := True, pg_error := JStr []\<rparr>)) (\<lambda>_.
     try_finally
       (try_catch
         (await (fetchPage p limit) (\<lambda>r.
          await (field r ''items'') (\<lambda>is.
          await (modify (\<lambda>s. s\<lparr>pg_items := is, pg_pagination := js_get r ''pagination''\<rparr>)) (\<lambda>_.
          await (some_pending is) (\<lambda>pending.
          if pending
          then modify (\<lambda>s. s\<lparr>pg_timers := pg_timers s @ [pg_nextTimer s], pg_nextTimer := pg_nextTimer s + 1,
                 pg_refreshTimer := Some (pg_nextTimer s),
                 wb_trace := wb_trace s @ [WTimer ''load'' PENDING_REFRESH_MS]\<rparr>)
          else ret ())))))
         (\<lambda>err. modify (\<lambda>s. s\<lparr>pg_error := we_message err\<rparr>)))
       (modify (\<lambda>s. s\<lparr>pg_loading := False\<rparr>))))"

definition refresh_fired ::
  "(js_value \<Rightarrow> int \<Rightarrow> (paged, js_value) web_eff) \<Rightarrow> int \<Rightarrow> nat \<Rightarrow> (paged, unit) web_eff" where
  "refresh_fired fetchPage limit i = (\<lambda>s.
     if i \<in> set (pg_timers s)
     then load_page fetchPage limit None (s\<lparr>pg_timers := filter (\<lambda>j. j \<noteq> i) (pg_timers s)\<rparr>) else (Inr (), s))"

text \<open>The pages of the views, with the page sizes they ask for.\<close>

definition load_recent :: "paged web_env \<Rightarrow> js_value option \<Rightarrow> (paged, unit) web_eff" where
  "load_recent E = load_page (transactionApi_list E) 5"

definition load_transactions :: "paged web_env \<Rightarrow> js_value option \<Rightarrow> (paged, unit) web_eff" where
  "load_transactions E = load_page (transactionApi_list E) 10"

definition load_ledger :: "paged web_env \<Rightarrow> js_value option \<Rightarrow> (paged, unit) web_eff" where
  "load_ledger E = load_page (walletApi_ledger E) 15"

definition load_all_transactions :: "paged web_env \<Rightarrow> js_value option \<Rightarrow> (paged, unit) web_eff" where
  "load_all_transactions E = load_page (adminApi_transactions E) 15"

text \<open>The buttons of \<open>PaginationBar.vue\<close>: hidden with one page, else the pages they ask for.\<close>

definition pager_pages :: "int \<Rightarrow> int \<Rightarrow> int list" where
  "pager_pages page totalPages =
     (if totalPages > 1
      then (if page \<le> 1 then [] else [page - 1]) @ (if page \<ge> totalPages then [] else [page + 1])
      else [])"

section \<open>Signing in, registering, signing out\<close>

record login_view = web +
  lv_username :: string
  lv_password :: string
  lv_error :: js_value
  lv_submitting :: bool

definition DEMO_ACCOUNTS :: "(string \<times> string) list" where
  "DEMO_ACCOUNTS = [(''ali'', ''Password@123''), (''sara'', ''Password@123''), (''admin'', ''Admin@12345'')]"

definition login_submit :: "login_view web_env \<Rightarrow> string option \<Rightarrow> (login_view, unit) web_eff" where
  "login_submit E redirect =
     await (modify (\<lambda>s. s\<lparr>lv_error := JStr [], lv_submitting := True\<rparr>)) (\<lambda>_.
     try_finally
       (try_catch
         (await (get_state (\<lambda>s. JObject [(''username'', JStr (js_trim (lv_username s))),
                                         (''password'', JStr (lv_password s))])) (\<lambda>credentials.
          await (auth_store_login E credentials) (\<lambda>_.
          emit (WReplace (case redirect of None \<Rightarrow> ''/'' | Some [] \<Rightarrow> ''/'' | Some p \<Rightarrow> p)))))
         (\<lambda>err. modify (\<lambda>s. s\<lparr>lv_error := we_message err\<rparr>)))
       (modify (\<lambda>s. s\<lparr>lv_submitting := False\<rparr>)))"

definition useDemo :: "login_view web_env \<Rightarrow> string option \<Rightarrow> string \<times> string \<Rightarrow> (login_view, unit) web_eff" where
  "useDemo E redirect account =
     await (modify (\<lambda>s. s\<lparr>lv_username := fst account, lv_password := snd account\<rparr>)) (\<lambda>_. login_submit E redirect)"

record register_view = web +
  rv_fullName :: string
  rv_username :: string
  rv_password :: string
  rv_error :: js_value
  rv_fieldErrors :: "(js_value \<times> js_value) list"
  rv_submitting :: bool

definition usernameValid :: "register_view \<Rightarrow> bool" where
  "usernameValid s \<longleftrightarrow> rv_username s = [] \<or>
     (3 \<le> length (rv_username s) \<and> length (rv_username s) \<le> 50 \<and>
      list_all (\<lambda>c. let n = (of_char c :: nat) in
        (97 \<le> n \<and> n \<le> 122) \<or> (65 \<le> n \<and> n \<le> 90) \<or> is_digit c \<or> c = CHR ''_'') (rv_username s))"

text \<open>\<open>(err.details ?? []).map(...)\<close>; details that are no array have no \<open>map\<close>.\<close>

definition field_errors :: "js_value \<Rightarrow> (register_view, (js_value \<times> js_value) list) web_eff" where
  "field_errors details = (case or_else details (JArray []) of
     JArray ds \<Rightarrow> if list_ex nullish ds then throw type_error
                  else ret (map (\<lambda>d. (js_get d ''path'', js_get d ''message'')) ds)
   | _ \<Rightarrow> throw type_error)"

definition register_submit :: "register_view web_env \<Rightarrow> (register_view, unit) web_eff" where
  "register_submit E =
     await (modify (\<lambda>s. s\<lparr>rv_error := JStr [], rv_fieldErrors := [], rv_submitting := True\<rparr>)) (\<lambda>_.
     try_finally
       (try_catch
         (await (get_state (\<lambda>s. JObject [(''fullName'', JStr (js_trim (rv_fullName s))),
              (''username'', JStr (js_trim (rv_username s))), (''password'', JStr (rv_password s))])) (\<lambda>payload.
          await (auth_store_register E payload) (\<lambda>_.
          emit (WReplace ''/''))))
         (\<lambda>err.
          await (modify (\<lambda>s. s\<lparr>rv_error := we_message err\<rparr>)) (\<lambda>_.
          await (field_errors (we_details err)) (\<lambda>fs.
          modify (\<lambda>s. s\<lparr>rv_fieldErrors := fs\<rparr>)))))
       (modify (\<lambda>s. s\<lparr>rv_submitting := False\<rparr>)))"

text \<open>The button of \<open>AppHeader.vue\<close>, and the label of the connection.\<close>

definition sign_out :: "'z web_scheme web_env \<Rightarrow> ('z web_scheme, unit) web_eff" where
  "sign_out E = await (logout E) (\<lambda>_. await (emit (WPush ''login'')) (\<lambda>_. flush_watch))"

definition statusLabel :: "string \<Rightarrow> string option" where
  "statusLabel = map_of [(''live'', ''Live''), (''connecting'', ''Connecting...''), (''offline'', ''Offline'')]"

section \<open>What the tables show\<close>

definition sub :: "js_value \<Rightarrow> string \<Rightarrow> string \<Rightarrow> string" where
  "sub v k l = template_text (js_get (js_get v k) l)"

definition isIncoming :: "js_value \<Rightarrow> js_value \<Rightarrow> bool" where
  "isIncoming currentUserId tx \<longleftrightarrow> js_get (js_get tx ''to'') ''userId'' = currentUserId"

record table_row =
  tr_date :: string
  tr_parties :: "(string \<times> string) list"
  tr_description :: string
  tr_amount :: string
  tr_badge :: string
  tr_download :: "js_value option"
  tr_id :: string

definition optional_text :: "js_value \<Rightarrow> string option" where
  "optional_text v = (if js_truthy v then Some (template_text v) else None)"

text \<open>A row of \<open>TransactionTable.vue\<close>: \<open>None\<close> for the mode of the administrator.\<close>

definition transaction_row :: "(js_value \<Rightarrow> string) \<Rightarrow> js_value option \<Rightarrow> js_value \<Rightarrow> table_row" where
  "transaction_row formatDate me tx =
     \<lparr>tr_date = formatDate (js_get tx ''createdAt''),
      tr_parties = (case me of
          Some u \<Rightarrow>
            (if isIncoming u tx
             then [(sub tx ''from'' ''fullName'', ''Received from @'' @ sub tx ''from'' ''username'')]
             else [(sub tx ''to'' ''fullName'', ''Sent to @'' @ sub tx ''to'' ''username'')])
        | None \<Rightarrow> [(sub tx ''from'' ''fullName'', ''@'' @ sub tx ''from'' ''username''),
                   (sub tx ''to'' ''fullName'', ''@'' @ sub tx ''to'' ''username'')]),
      tr_description = (case optional_text (js_get tx ''description'') of Some d \<Rightarrow> d | None \<Rightarrow> ''-''),
      tr_amount = (case me of Some u \<Rightarrow> (if isIncoming u tx then ''+'' else ''-'') | None \<Rightarrow> []) @
        formatToman_value (js_get tx ''amount''),
      tr_badge = fst (variant (template_text (js_get tx ''receiptStatus''))),
      tr_download = (if js_get tx ''receiptStatus'' = JStr ''GENERATED'' then Some (js_get tx ''receiptUrl'') else None),
      tr_id = shortId (optional_text (js_get tx ''id''))\<rparr>"

text \<open>A row of \<open>LedgerView.vue\<close>.\<close>

definition signed :: "js_value \<Rightarrow> string" where
  "signed entry = (if js_get entry ''entryType'' = JStr ''DEBIT'' then ''-'' else ''+'') @
     formatToman_value (js_get entry ''amount'')"

definition ledger_cells :: "(js_value \<Rightarrow> string) \<Rightarrow> js_value \<Rightarrow> string list" where
  "ledger_cells formatDate entry =
     [formatDate (js_get entry ''createdAt''),
      fst (variant (template_text (js_get entry ''entryType''))),
      signed entry,
      formatToman_value (js_get entry ''balanceBefore''),
      formatToman_value (js_get entry ''balanceAfter''),
      shortId (optional_text (js_get entry ''transactionId''))]"

text \<open>The figures of \<open>AdminTransactionsView.vue\<close>.\<close>

definition pageVolume :: "js_value list \<Rightarrow> int" where
  "pageVolume xs = foldl (\<lambda>total tx. case js_get tx ''amount'' of JInt n \<Rightarrow> total + n | _ \<Rightarrow> total) 0 xs"

definition pendingReceipts :: "js_value list \<Rightarrow> nat" where
  "pendingReceipts xs = length (filter (\<lambda>tx. js_get tx ''receiptStatus'' = JStr ''PENDING'') xs)"

text \<open>The balance card and the messages of the transfer form.\<close>

definition balance_card :: "'z web_scheme \<Rightarrow> string option" where
  "balance_card s = (if js_truthy (wb_wallet s)
     then Some (formatToman_value (js_get (wb_wallet s) ''balance'')) else None)"

datatype form_hint = ExceedsBalance string | ReceiptHint | NoHint

definition amount_hint :: "int \<Rightarrow> tform \<Rightarrow> form_hint" where
  "amount_hint threshold s =
     (if exceedsBalance s then ExceedsBalance (formatToman_value (balance_value s))
      else if needsReceipt threshold s then ReceiptHint else NoHint)"

definition recipient_hint :: "tform \<Rightarrow> string list" where
  "recipient_hint s =
     (let r = tf_recipient s in
      if tf_lookingUp s then [''Looking up...'']
      else if js_truthy (tf_lookupError s) then [template_text (tf_lookupError s)]
      else if js_truthy r
      then [initials (template_text (js_get r ''fullName'')), template_text (js_get r ''fullName''),
            ''@'' @ template_text (js_get r ''username'') @ '' '' @ [CHR 0xB7] @ '' User #'' @ template_text (js_get r ''id'')]
      else [])"

section \<open>What the views guarantee\<close>

lemma try_finally_modify_Inr:
  "fst (m s) = Inr x \<Longrightarrow> try_finally m (modify f) s = (Inr x, f (snd (m s)))"
  by (cases "m s") (simp add: try_finally_def)

lemma try_catch_modify_Inr:
  "fst (try_catch m (\<lambda>err. modify (f err)) s) = Inr ()"
  by (simp add: try_catch_def split: prod.splits sum.splits)

text \<open>Loading a page never fails, and the spinner goes away, whatever the server answers.\<close>

lemma load_page_returns:
  "\<exists>s'. load_page fetchPage limit page s = (Inr (), s') \<and> \<not> pg_loading s'"
  unfolding load_page_def
  by (simp add: try_finally_modify_Inr try_catch_modify_Inr)

lemma login_submit_returns:
  "\<exists>s'. login_submit E redirect s = (Inr (), s') \<and> \<not> lv_submitting s'"
  unfolding login_submit_def
  by (simp add: try_finally_modify_Inr try_catch_modify_Inr)

text \<open>The pager asks for existing pages only, and for the neighbours of the page it shows.\<close>

lemma pager_pages_exist:
  "1 \<le> page \<Longrightarrow> page \<le> totalPages \<Longrightarrow> p \<in> set (pager_pages page totalPages) \<Longrightarrow>
   1 \<le> p \<and> p \<le> totalPages \<and> \<bar>p - page\<bar> = 1"
  by (auto simp: pager_pages_def split: if_splits)

lemma pageVolume_sum:
  "pageVolume xs = (\<Sum>tx\<leftarrow>xs. case js_get tx ''amount'' of JInt n \<Rightarrow> n | _ \<Rightarrow> 0)"
proof -
  have "foldl (\<lambda>total tx. case js_get tx ''amount'' of JInt n \<Rightarrow> total + n | _ \<Rightarrow> total) k xs =
      k + (\<Sum>tx\<leftarrow>xs. case js_get tx ''amount'' of JInt n \<Rightarrow> n | _ \<Rightarrow> 0)" for k
    by (induction xs arbitrary: k) (auto split: js_value.splits)
  then show ?thesis by (simp add: pageVolume_def)
qed

text \<open>What the field shows after a key press is read back as the same amount.\<close>

lemma amount_shown_is_amount_read:
  assumes "parseAmount v = Some (Fin n)" "n \<le> 2 ^ 53"
  shows "amount (final (onAmountInput v) s) = Some (Fin n)"
  using assms parseAmount_format [of n] parseAmount_nonneg [OF assms(1)]
  by (simp add: onAmountInput_def amount_def formatNumber_def)

end
