(* ===== verification/Web_Theorems.thy ===== *)
theory Web_Theorems
  imports Web_Views
begin

text \<open>
  What the browser application guarantees: its session, its stored copy, its socket and its wallet
  agree at the end of every handler; a rejected token ends the session; the transfer form sends one
  valid transfer and polls for its receipt a bounded number of times.
\<close>

section \<open>The session of the browser\<close>

text \<open>
  The watcher has seen the token; a session is stored; the socket is the one of the token; and only
  a session counts as authenticated.
\<close>

definition browser_ok :: "'z web_scheme \<Rightarrow> bool" where
  "browser_ok s \<longleftrightarrow>
     wb_watched s = auth_token s \<and>
     (wb_session s = JNull \<or> js_truthy (wb_session s)) \<and>
     (js_truthy (wb_session s) \<longrightarrow> wb_storage s = Some (wb_session s)) \<and>
     wb_socket s = (if js_truthy (auth_token s) then Some (auth_token s) else None) \<and>
     (wb_authenticated s \<longrightarrow> js_truthy (auth_token s))"

lemmas client_defs = endSession_def logout_def persist_def flush_watch_def on_token_change_def
  rt_connect_def rt_disconnect_def reset_wallet_def push_toast_def emit_def

lemmas session_defs = auth_token_def session_token_def or_else_def nullish_def js_get_def

lemma keeps_modify: "(\<And>s. I s \<Longrightarrow> I (f s)) \<Longrightarrow> keeps I (modify f)"
  by (simp add: keeps_def)

lemma js_truthy_JNull [simp]: "\<not> js_truthy JNull"
  by (simp add: js_truthy_def)

lemma session_token_JNull [simp]: "session_token JNull = JNull"
  by (simp add: session_defs)

lemma auth_token_session [simp]: "auth_token (s\<lparr>wb_session := v\<rparr>) = session_token v"
  by (simp add: auth_token_def)

lemma live_token_truthy: "live_token E t now \<Longrightarrow> js_truthy t"
  by (simp add: live_token_def)

text \<open>Changing the session and running the watcher.\<close>

lemma persist_flush_ok:
  assumes "browser_ok s" "v = JNull \<or> js_truthy v"
  shows "browser_ok (final (await (persist E v) (\<lambda>_. flush_watch)) s)"
  using assms
  by (auto simp: browser_ok_def client_defs auth_token_def Let_def await_def live_token_def)

lemma endSession_ok: "keeps browser_ok (endSession E m)"
  by (rule keepsI)
    (auto simp: browser_ok_def client_defs auth_token_def Let_def await_def live_token_def)

lemma sign_out_ok: "keeps browser_ok (sign_out E)"
  by (rule keepsI)
    (auto simp: sign_out_def browser_ok_def client_defs auth_token_def Let_def await_def live_token_def)

lemma browser_ok_frame [simp]:
  "browser_ok (s\<lparr>wb_trace := tr\<rparr>) = browser_ok s"
  "browser_ok (s\<lparr>wb_wallet := w\<rparr>) = browser_ok s"
  "browser_ok (s\<lparr>wb_loading := b\<rparr>) = browser_ok s"
  "browser_ok (s\<lparr>wb_activity := n\<rparr>) = browser_ok s"
  "browser_ok (s\<lparr>wb_status := st\<rparr>) = browser_ok s"
  "browser_ok (s\<lparr>wb_toasts := ts\<rparr>) = browser_ok s"
  "browser_ok (s\<lparr>wb_nextToast := i\<rparr>) = browser_ok s"
  by (simp_all add: browser_ok_def auth_token_def)

text \<open>
  A request keeps what the fetch, the other handlers and the end of the session keep; so does
  everything built on it.
\<close>

lemma keeps_case_fetch [keeps_intros]:
  "keeps I m \<Longrightarrow> (\<And>st text json. keeps I (f st text json)) \<Longrightarrow>
   keeps I (case r of NetworkFailure \<Rightarrow> m | Response st text json \<Rightarrow> f st text json)"
  by (cases r) auto

lemma keeps_receive:
  assumes "\<And>tr s. I s \<Longrightarrow> I (meanwhile E tr s)" "\<And>m. keeps I (endSession E m)"
  shows "keeps I (receive E token)"
  unfolding receive_def Let_def by (intro keeps_intros keeps_modify assms)

lemma keeps_request:
  assumes "\<And>q t s. I s \<Longrightarrow> I (s\<lparr>wb_trace := wb_trace s @ [WFetch meth path q t body]\<rparr>)"
    and "\<And>tr s. I s \<Longrightarrow> I (meanwhile E tr s)" "\<And>m. keeps I (endSession E m)"
  shows "keeps I (request E meth path body qs)"
  unfolding request_def emit_def by (intro keeps_intros keeps_modify keeps_receive assms)

lemma keeps_field [keeps_intros]: "keeps I (field v k)"
  unfolding field_def by (intro keeps_intros)

lemma browser_ok_modify [keeps_intros]:
  "(\<And>s. browser_ok s \<Longrightarrow> browser_ok (f s)) \<Longrightarrow> keeps browser_ok (modify f)"
  by (rule keeps_modify)

lemma browser_ok_request [keeps_intros]:
  "(\<And>tr s. browser_ok s \<Longrightarrow> browser_ok (meanwhile E tr s)) \<Longrightarrow> keeps browser_ok (request E meth path body qs)"
  by (rule keeps_request) (simp_all add: endSession_ok)

lemmas api_defs = authApi_login_def authApi_register_def userApi_findByUsername_def walletApi_me_def
  walletApi_ledger_def transferApi_create_def transactionApi_list_def transactionApi_get_def
  adminApi_transactions_def http_get_def http_post_def

text \<open>The handlers of the stores, and of the form, which all run on the state of the form.\<close>

datatype client_act =
    SignIn js_value
  | SignUp js_value
  | SignOut
  | RefreshWallet
  | SocketEvent client_event
  | DismissToast int
  | TypeUsername string
  | TypeAmount string
  | QuickAmount int
  | TypeDescription string
  | Submit
  | TimerFires nat
  | Unmount

fun client_handler :: "tform web_env \<Rightarrow> client_act \<Rightarrow> (tform, unit) web_eff" where
  "client_handler E (SignIn credentials) = auth_store_login E credentials"
| "client_handler E (SignUp payload) = auth_store_register E payload"
| "client_handler E SignOut = sign_out E"
| "client_handler E RefreshWallet = wallet_refresh E"
| "client_handler E (SocketEvent e) = on_socket_event E e"
| "client_handler E (DismissToast i) = dismiss_toast i"
| "client_handler E (TypeUsername v) = type_username v"
| "client_handler E (TypeAmount v) = onAmountInput v"
| "client_handler E (QuickAmount v) = setAmount v"
| "client_handler E (TypeDescription v) = type_description v"
| "client_handler E Submit = submit E"
| "client_handler E (TimerFires i) = fire E i"
| "client_handler E Unmount = unmount_form"

definition client_run :: "tform web_env \<Rightarrow> client_act list \<Rightarrow> tform \<Rightarrow> tform" where
  "client_run E acts s = foldl (\<lambda>s a. final (client_handler E a) s) s acts"

lemma login_ok:
  assumes "\<And>tr s. browser_ok s \<Longrightarrow> browser_ok (meanwhile E tr s)"
  shows "keeps browser_ok (auth_store_login E credentials)"
proof -
  have persisted: "keeps browser_ok (await (persist E (JObject kvs)) (\<lambda>_. flush_watch))" for kvs
    by (rule keepsI) (simp add: persist_flush_ok js_truthy_def)
  show ?thesis
    unfolding auth_store_login_def api_defs
    by (rule keeps_await keeps_field persisted browser_ok_request assms | assumption)+
qed

lemma register_ok:
  assumes "\<And>tr s. browser_ok s \<Longrightarrow> browser_ok (meanwhile E tr s)"
  shows "keeps browser_ok (auth_store_register E payload)"
  unfolding auth_store_register_def authApi_register_def http_post_def
  by (intro keeps_await browser_ok_request login_ok assms)

lemma refresh_ok:
  assumes "\<And>tr s. browser_ok s \<Longrightarrow> browser_ok (meanwhile E tr s)"
  shows "keeps browser_ok (wallet_refresh E)"
  unfolding wallet_refresh_def api_defs by (intro keeps_intros) (simp_all add: assms)

lemma emit_ok [keeps_intros]: "keeps browser_ok (emit e)"
  by (simp add: emit_def keeps_modify)

lemma push_toast_ok [keeps_intros]: "keeps browser_ok (push_toast a b c d)"
  by (simp add: push_toast_def keeps_modify)

lemma markActivity_ok [keeps_intros]: "keeps browser_ok markActivity"
  unfolding markActivity_def by (intro keeps_intros) simp

lemma keeps_case_client_event [keeps_intros]:
  "keeps I a \<Longrightarrow> keeps I b \<Longrightarrow> (\<And>c. keeps I (f c)) \<Longrightarrow> keeps I d \<Longrightarrow> (\<And>n. keeps I (g n)) \<Longrightarrow>
   keeps I (case e of OnSessionReady \<Rightarrow> a | OnDisconnect \<Rightarrow> b | OnConnectError c \<Rightarrow> f c | OnSessionExpired \<Rightarrow> d
     | OnTransferReceived n \<Rightarrow> g n)"
  by (cases e) auto

lemma keeps_unless [keeps_intros]:
  "keeps I m \<Longrightarrow> keeps I (\<lambda>s. if b s then (Inr x, s) else m s)"
  by (simp add: keeps_def)

lemma socket_event_ok: "keeps browser_ok (on_socket_event E e)"
  unfolding on_socket_event_def by (intro keeps_intros endSession_ok) simp_all

section \<open>The transfer form keeps it\<close>

lemma browser_ok_form_frame [simp]:
  fixes s :: tform
  shows "browser_ok (s\<lparr>tf_recipient := r\<rparr>) = browser_ok s" "browser_ok (s\<lparr>tf_lookupError := x\<rparr>) = browser_ok s"
    "browser_ok (s\<lparr>tf_lookingUp := b\<rparr>) = browser_ok s" "browser_ok (s\<lparr>tf_timers := ts\<rparr>) = browser_ok s"
    "browser_ok (s\<lparr>tf_nextTimer := n\<rparr>) = browser_ok s" "browser_ok (s\<lparr>tf_pollTimer := p\<rparr>) = browser_ok s"
    "browser_ok (s\<lparr>tf_lookupTimer := p\<rparr>) = browser_ok s" "browser_ok (s\<lparr>tf_username := v\<rparr>) = browser_ok s"
    "browser_ok (s\<lparr>tf_watched := v\<rparr>) = browser_ok s" "browser_ok (s\<lparr>tf_amountInput := v\<rparr>) = browser_ok s"
    "browser_ok (s\<lparr>tf_description := v\<rparr>) = browser_ok s" "browser_ok (s\<lparr>tf_submitting := b\<rparr>) = browser_ok s"
    "browser_ok (s\<lparr>tf_error := x\<rparr>) = browser_ok s" "browser_ok (s\<lparr>tf_result := x\<rparr>) = browser_ok s"
  by (simp_all add: browser_ok_def auth_token_def)

lemmas timer_defs = clearTimeout_def setTimeout_def watch_username_def Let_def

lemma keeps_if_state [keeps_intros]:
  "keeps I m \<Longrightarrow> keeps I n \<Longrightarrow> keeps I (\<lambda>s. if b s then m s else n s)"
  by (simp add: keeps_def)

lemma lookup_ok:
  assumes "\<And>tr s. browser_ok s \<Longrightarrow> browser_ok (meanwhile E tr s)"
  shows "keeps browser_ok (lookup_form E v)"
  unfolding lookup_form_def api_defs Let_def by (intro keeps_intros) (simp_all add: assms)

lemma pollReceipt_ok [keeps_intros]: "keeps browser_ok (pollReceipt i k)"
  unfolding pollReceipt_def timer_defs by (intro keeps_intros) simp

lemma poll_ok:
  assumes "\<And>tr s. browser_ok s \<Longrightarrow> browser_ok (meanwhile E tr s)"
  shows "keeps browser_ok (poll_fired E i k)"
  unfolding poll_fired_def api_defs by (intro keeps_intros) (simp_all add: assms)

lemma submit_ok:
  assumes "\<And>tr s. browser_ok s \<Longrightarrow> browser_ok (meanwhile E tr s)"
  shows "keeps browser_ok (submit E)"
  unfolding submit_def submit_body_def api_defs timer_defs by (intro keeps_intros) (simp_all add: assms)

lemma fire_ok:
  assumes "\<And>tr s. browser_ok s \<Longrightarrow> browser_ok (meanwhile E tr s)"
  shows "keeps browser_ok (fire E i)"
proof (rule keepsI)
  fix s :: tform
  assume "browser_ok s"
  then show "browser_ok (final (fire E i) s)"
    using keepsD [OF lookup_ok [OF assms]] keepsD [OF poll_ok [OF assms]]
    by (simp add: fire_def Let_def split: option.splits form_timer.splits)
qed

lemma handler_ok:
  assumes "\<And>tr s. browser_ok s \<Longrightarrow> browser_ok (meanwhile E tr s)"
  shows "keeps browser_ok (client_handler E a)"
proof -
  note local = type_username_def onAmountInput_def setAmount_def type_description_def unmount_form_def
    dismiss_toast_def timer_defs
  show ?thesis
    by (cases a; simp add: login_ok register_ok sign_out_ok refresh_ok socket_event_ok submit_ok fire_ok assms;
        simp add: local keeps_modify)
qed

lemma client_run_ok:
  assumes "\<And>tr s. browser_ok s \<Longrightarrow> browser_ok (meanwhile E tr s)"
  shows "browser_ok s \<Longrightarrow> browser_ok (client_run E acts s)"
  unfolding client_run_def by (induction acts arbitrary: s) (simp_all add: keepsD [OF handler_ok [OF assms]])

lemma start_app_ok: "wb_socket s = None \<Longrightarrow> browser_ok (final (start_app E) s)"
proof -
  assume none: "wb_socket s = None"
  let ?v = "loadSession E (wb_storage s) (web_clock E (wb_trace s))"
  have "?v = JNull \<or> js_truthy ?v \<and> wb_storage s = Some ?v"
    by (auto simp: loadSession_def split: option.splits)
  with none show ?thesis
    by (auto simp: start_app_def browser_ok_def client_defs auth_token_def Let_def await_def live_token_def)
qed

section \<open>A rejected token\<close>

text \<open>The end of a session, when there is one.\<close>

lemma endSession_ends:
  assumes "browser_ok s" "js_truthy (auth_token s)" "t = final (endSession E m) s"
  shows "wb_session t = JNull \<and> wb_storage t = None \<and> wb_socket t = None \<and> wb_wallet t = JNull \<and>
    \<not> wb_authenticated t \<and> WPush ''login'' \<in> set (wb_trace t)"
  using assms by (auto simp: client_defs browser_ok_def auth_token_def Let_def await_def live_token_def)

lemma endSession_nothing:
  "browser_ok s \<Longrightarrow> \<not> js_truthy (auth_token s) \<Longrightarrow> endSession E m s = (Inr (), s)"
  by (auto simp: endSession_def browser_ok_def)

lemma endSession_Inr: "fst (endSession E m s) = Inr ()"
  by (simp add: client_defs Let_def await_def)

lemma request_401:
  assumes "fetch_answer E tr = Response 401 text json"
    and "tr = wb_trace s @ [WFetch meth path (filter (\<lambda>q. \<not> nullish (snd q)) qs)
                    (if js_truthy (auth_token s) then auth_token s else JUndefined) body]"
    and "m = meanwhile E tr (s\<lparr>wb_trace := tr\<rparr>)"
  shows "\<exists>e. we_status e = 401 \<and> request E meth path body qs s =
    (Inl e, if js_truthy (auth_token s)
            then final (endSession E ''Your session is no longer valid. Please sign in again.'') m else m)"
proof -
  let ?endS = "endSession E ''Your session is no longer valid. Please sign in again.''"
  have "?endS u = (Inr (), final ?endS u)" for u
    using endSession_Inr [of E _ u] by (metis prod.collapse)
  then have ending: "await ?endS f u = f () (final ?endS u)" for f :: "unit \<Rightarrow> (_, _, js_value) eff" and u
    by (rule await_Inr)
  show ?thesis
    using assms by (auto simp: request_def receive_def emit_def Let_def ending ApiError_def)
qed

section \<open>A page to try it on\<close>

text \<open>A server that gives every request the same answer, while no other handler runs.\<close>

definition quiet_env :: "fetch_result \<Rightarrow> tform web_env" where
  "quiet_env r = \<lparr>fetch_answer = (\<lambda>_. r), meanwhile = (\<lambda>_ s. s), web_clock = (\<lambda>_. 1000),
     decode_json = (\<lambda>_. Some (JObject [(''exp'', JInt 5)]))\<rparr>"

definition demo_session :: js_value where
  "demo_session = JObject [(''token'', JStr ''h.p.s''), (''user'', JObject [(''username'', JStr ''ali'')])]"

definition demo_form :: tform where
  "demo_form = \<lparr>wb_session = demo_session, wb_authenticated = True, wb_watched = JStr ''h.p.s'',
     wb_storage = Some demo_session, wb_toasts = [], wb_nextToast = 1,
     wb_wallet = JObject [(''balance'', JInt 5000)], wb_loading = False, wb_activity = 0, wb_status = ''live'',
     wb_socket = Some (JStr ''h.p.s''), wb_trace = [],
     tf_username = ''sara'', tf_watched = ''sara'', tf_recipient = JObject [(''id'', JInt 2)],
     tf_lookupError = JStr [], tf_lookingUp = False, tf_amountInput = ''1,200'', tf_description = ''Rent'',
     tf_submitting = False, tf_error = JStr [], tf_result = JNull, tf_timers = [], tf_nextTimer = 1,
     tf_lookupTimer = None, tf_pollTimer = None\<rparr>"

lemma demo_form_ok: "browser_ok demo_form"
  by (simp add: demo_form_def demo_session_def browser_ok_def auth_token_def session_token_def or_else_def
      nullish_def js_get_def js_truthy_def)

lemma quiet_env_ok: "browser_ok s \<Longrightarrow> browser_ok (meanwhile (quiet_env r) tr s)"
  by (simp add: quiet_env_def)

text \<open>
  An answer that arrives late is not checked against the session: the wallet of the session that
  has ended while it was loading is shown again.
\<close>

lemma late_wallet_outlives_its_session:
  assumes "meanwhile E = (\<lambda>_. final (sign_out E))" "fetch_answer E = (\<lambda>_. Response 200 [] (Some w))" "browser_ok s"
  shows "wb_session (final (wallet_refresh E) s) = JNull \<and> wb_wallet (final (wallet_refresh E) s) = w"
  using assms
  by (simp add: wallet_refresh_def walletApi_me_def http_get_def request_def receive_def emit_def Let_def
      try_finally_def await_def sign_out_def logout_def persist_def flush_watch_def on_token_change_def
      rt_connect_def rt_disconnect_def reset_wallet_def)

section \<open>Properties\<close>

text \<open>C33: from the start of the page, whatever is stored, and after any sequence of handlers (signing
  in, registering, signing out, events of the socket, timers, the transfer form), the parts of the
  browser's state agree: the socket is open exactly with the token of the session, a session is also
  the stored one, and only a session with a token counts as authenticated. Other handlers may run
  while one waits for the server, as long as they keep the same.\<close>

theorem browser_session_is_consistent:
  fixes s :: tform
  assumes "\<And>tr s. browser_ok s \<Longrightarrow> browser_ok (meanwhile E tr s)" "wb_socket s = None"
    and "t = client_run E acts (final (start_app E) s)"
  shows "wb_socket t = (if js_truthy (auth_token t) then Some (auth_token t) else None) \<and>
    (js_truthy (wb_session t) \<longrightarrow> wb_storage t = Some (wb_session t)) \<and>
    (wb_authenticated t \<longrightarrow> js_truthy (auth_token t))"
  using client_run_ok [OF assms(1) start_app_ok [OF assms(2)]] assms(3)
  by (simp add: browser_ok_def)

theorem browser_session_is_consistent_witness:
  "\<exists>t. t = client_run (quiet_env NetworkFailure) [SignOut, SignIn JNull]
      (final (start_app (quiet_env NetworkFailure)) (demo_form\<lparr>wb_socket := None\<rparr>)) \<and>
    wb_socket t = (if js_truthy (auth_token t) then Some (auth_token t) else None)"
  using browser_session_is_consistent [OF quiet_env_ok, of "demo_form\<lparr>wb_socket := None\<rparr>" _ NetworkFailure,
      OF _ _ refl] by simp

text \<open>C34: when the server answers a request with 401, the request fails with that status, and if it
  carried a token no session is left: no token, no socket, nobody authenticated; if the session was
  still there, it is also removed from the storage, the wallet is cleared and the sign-in page opened. A
  401 for a request without a token (wrong credentials) leaves everything as it was.\<close>

theorem rejected_token_ends_the_session:
  assumes "\<And>tr s. browser_ok s \<Longrightarrow> browser_ok (meanwhile E tr s)" "browser_ok s"
    and "fetch_answer E tr = Response 401 text json"
    and "tr = wb_trace s @ [WFetch meth path (filter (\<lambda>q. \<not> nullish (snd q)) qs)
                    (if js_truthy (auth_token s) then auth_token s else JUndefined) body]"
    and "m = meanwhile E tr (s\<lparr>wb_trace := tr\<rparr>)"
  shows "\<exists>e t. request E meth path body qs s = (Inl e, t) \<and> we_status e = 401 \<and>
    (if js_truthy (auth_token s)
     then \<not> js_truthy (auth_token t) \<and> wb_socket t = None \<and> \<not> wb_authenticated t \<and>
       (js_truthy (auth_token m) \<longrightarrow> wb_session t = JNull \<and> wb_storage t = None \<and> wb_wallet t = JNull \<and>
          WPush ''login'' \<in> set (wb_trace t))
     else t = m)"
proof -
  let ?endS = "endSession E ''Your session is no longer valid. Please sign in again.''"
  have m: "browser_ok m" using assms(1,2,5) by simp
  obtain e where e: "we_status e = 401" "request E meth path body qs s =
      (Inl e, if js_truthy (auth_token s) then final ?endS m else m)"
    using request_401 [OF assms(3,4,5)] by blast
  show ?thesis
  proof (cases "js_truthy (auth_token m)")
    case True
    with e endSession_ends [OF m True refl, of E] show ?thesis by (simp add: auth_token_def)
  next
    case False
    with m have "wb_socket m = None" "\<not> wb_authenticated m" by (auto simp: browser_ok_def)
    with e False endSession_nothing [OF m False, of E] show ?thesis by simp
  qed
qed

theorem rejected_token_ends_the_session_witness:
  "\<exists>e t. request (quiet_env (Response 401 ''Unauthorized'' None)) ''GET'' ''/api/wallets/me'' JUndefined [] demo_form =
      (Inl e, t) \<and> we_status e = 401 \<and> wb_session t = JNull \<and> wb_socket t = None"
proof -
  have "fetch_answer (quiet_env (Response 401 ''Unauthorized'' None)) tr = Response 401 ''Unauthorized'' None" for tr
    by (simp add: quiet_env_def)
  note ends = rejected_token_ends_the_session [OF quiet_env_ok demo_form_ok this refl refl,
      of "''GET''" "''/api/wallets/me''" JUndefined "[]"]
  have "js_truthy (auth_token demo_form)" "\<And>tr. js_truthy (auth_token
      (meanwhile (quiet_env (Response 401 ''Unauthorized'' None)) tr (demo_form\<lparr>wb_trace := tr\<rparr>)))"
    by (simp_all add: quiet_env_def demo_form_def demo_session_def auth_token_def session_token_def or_else_def
        nullish_def js_get_def js_truthy_def)
  with ends show ?thesis by auto
qed

end
