(* ===== verification/Web_Form_Theorems.thy ===== *)
theory Web_Form_Theorems
  imports Web_Theorems
begin

text \<open>
  What the transfer form guarantees: one press of the button sends exactly one transfer, one the API
  accepts, within the balance shown; and what each handler adds to the polling for receipts.
\<close>

section \<open>Trimming\<close>

lemma js_trim_split: "dropWhile js_space s = js_trim s @ rev (takeWhile js_space (rev (dropWhile js_space s)))"
proof -
  have "dropWhile js_space s = rev (takeWhile js_space (rev (dropWhile js_space s)) @
      dropWhile js_space (rev (dropWhile js_space s)))" by simp
  then show ?thesis by (simp add: js_trim_def del: takeWhile_dropWhile_id)
qed

lemma length_js_trim: "length (js_trim s) \<le> length s"
proof -
  have "length (dropWhile js_space s) =
      length (js_trim s @ rev (takeWhile js_space (rev (dropWhile js_space s))))"
    by (rule arg_cong [OF js_trim_split])
  then have "length (js_trim s) \<le> length (dropWhile js_space s)" by (simp only: length_append)
  then show ?thesis using length_dropWhile_le [of js_space s] by simp
qed

lemma js_trim_idem: "js_trim (js_trim s) = js_trim s"
proof (cases "js_trim s = []")
  case True
  moreover have "js_trim [] = []" by (simp add: js_trim_def)
  ultimately show ?thesis by simp
next
  case ne: False
  have "dropWhile js_space s \<noteq> []"
  proof
    assume "dropWhile js_space s = []"
    then have "js_trim s = []" by (simp only: js_trim_def rev.simps dropWhile.simps)
    with ne show False by simp
  qed
  then have "\<not> js_space (hd (dropWhile js_space s))" by (rule hd_dropWhile)
  moreover have "hd (dropWhile js_space s) = hd (js_trim s)" using ne js_trim_split [of s] by (metis hd_append2)
  moreover have "\<not> js_space (last (js_trim s))"
    using ne by (simp add: js_trim_def last_rev hd_dropWhile)
  ultimately show ?thesis using ne by (intro js_trim_id) simp_all
qed

section \<open>The transfer that is sent\<close>

definition is_transfer_post :: "web_ev \<Rightarrow> bool" where
  "is_transfer_post e = (case e of WFetch meth path _ _ _ \<Rightarrow> meth = ''POST'' \<and> path = ''/api/transfers'' | _ \<Rightarrow> False)"

definition sent :: "'z web_scheme \<Rightarrow> web_ev list" where
  "sent s = filter is_transfer_post (wb_trace s)"

lemma transfer_payload_conforms:
  assumes "canSubmit s" "js_get (tf_recipient s) ''id'' = JInt u" "0 < u" "isSafeInteger u"
    and "balance_value s = JInt b" "b \<le> MAX_SAFE_INTEGER" "length (tf_description s) \<le> 255"
  shows "\<exists>a. conforms transferBody (transfer_payload s) \<and> js_get (transfer_payload s) ''toUserId'' = JInt u \<and>
    js_get (transfer_payload s) ''amount'' = JInt a \<and> parseAmount (tf_amountInput s) = Some (Fin a) \<and>
    0 < a \<and> a \<le> b"
proof -
  from assms(1,5) obtain a where a: "parseAmount (tf_amountInput s) = Some (Fin a)" "0 < a" "a \<le> b"
    by (auto simp: canSubmit_def exceedsBalance_def greater_def amount_def split: option.splits js_num.splits)
  let ?d = "js_trim (tf_description s)"
  have "length ?d \<le> 255" using length_js_trim [of "tf_description s"] assms(7) by simp
  moreover have "isSafeInteger a" using a assms(6) by (simp add: isSafeInteger_def)
  ultimately have "conforms transferBody (transfer_payload s)"
    using a assms by (auto simp: transfer_payload_def amount_def transferBody_def js_get_def js_trim_idem)
  with a assms(2) show ?thesis by (simp add: transfer_payload_def amount_def js_get_def)
qed

lemma sent_frame [simp]:
  "sent (s\<lparr>wb_trace := wb_trace s @ [WPush l]\<rparr>) = sent s"
  "sent (s\<lparr>wb_trace := wb_trace s @ [WSpawn l]\<rparr>) = sent s"
  "sent (s\<lparr>wb_activity := n\<rparr>) = sent s"
  by (simp_all add: sent_def is_transfer_post_def)

lemma sent_endSession: "keeps (\<lambda>s. sent s = X) (endSession E m)"
  by (rule keepsI) (simp add: client_defs sent_def is_transfer_post_def Let_def await_def)

lemma sent_push_toast: "keeps (\<lambda>s. sent s = X) (push_toast a b c d)"
  by (rule keepsI) (simp add: push_toast_def sent_def is_transfer_post_def)

lemma sent_markActivity: "keeps (\<lambda>s. sent s = X) markActivity"
  unfolding markActivity_def emit_def by (intro keeps_intros keeps_modify) simp_all

lemma sent_pollReceipt: "keeps (\<lambda>s. sent s = X) (pollReceipt i k)"
  unfolding pollReceipt_def setTimeout_def by (intro keeps_modify) (simp add: sent_def)

lemma sent_receive:
  assumes "\<And>tr s. sent (meanwhile E tr s) = sent s"
  shows "keeps (\<lambda>s. sent s = X) (receive E token)"
  by (intro keeps_receive sent_endSession) (simp add: assms)

lemma request_emits:
  "request E meth path body qs s =
   receive E (auth_token s) (s\<lparr>wb_trace := wb_trace s @ [WFetch meth path (filter (\<lambda>q. \<not> nullish (snd q)) qs)
     (if js_truthy (auth_token s) then auth_token s else JUndefined) body]\<rparr>)"
  by (simp add: request_def emit_def)

lemma submit_body_sends:
  assumes "\<And>tr s. sent (meanwhile E tr s) = sent s"
  shows "\<exists>tok. sent (final (submit_body E) s) =
    sent s @ [WFetch ''POST'' ''/api/transfers'' [] tok (transfer_payload s)]"
proof -
  let ?tok = "if js_truthy (auth_token s) then auth_token s else JUndefined"
  let ?s1 = "s\<lparr>wb_trace := wb_trace s @ [WFetch ''POST'' ''/api/transfers'' [] ?tok (transfer_payload s)]\<rparr>"
  let ?X = "sent s @ [WFetch ''POST'' ''/api/transfers'' [] ?tok (transfer_payload s)]"
  define rest where "rest = (\<lambda>tx.
     await (modify (\<lambda>s. s\<lparr>tf_result := tx\<rparr>)) (\<lambda>_.
     await (field tx ''amount'') (\<lambda>sent.
     await (field tx ''to'') (\<lambda>to.
     await (field to ''fullName'') (\<lambda>name.
     await (push_toast ''success'' ''Transfer completed''
              (formatToman_value sent @ '' sent to '' @ template_text name) 5000) (\<lambda>_.
     await (markActivity :: (tform, unit) web_eff) (\<lambda>_.
     await (if js_get tx ''receiptStatus'' = JStr ''PENDING'' then pollReceipt (js_get tx ''id'') 0 else ret ()) (\<lambda>_.
     modify (\<lambda>s. s\<lparr>tf_username := [], tf_amountInput := [], tf_description := []\<rparr>)))))))))"
  have "submit_body E s = await (receive E (auth_token s)) rest ?s1"
    by (simp add: submit_body_def transferApi_create_def http_post_def request_emits rest_def await_def)
  moreover have sends: "keeps (\<lambda>s. sent s = ?X) (await (receive E (auth_token s)) rest)"
    unfolding rest_def
    by (intro keeps_intros sent_push_toast sent_markActivity sent_pollReceipt sent_receive assms keeps_modify)
      (simp_all add: sent_def)
  moreover have "sent ?s1 = ?X" by (simp add: sent_def is_transfer_post_def)
  then have "sent (final (await (receive E (auth_token s)) rest) ?s1) = ?X" by (rule keepsD [OF sends])
  ultimately show ?thesis by auto
qed

lemma sent_watch_username [simp]: "sent (watch_username s) = sent s"
  by (simp add: watch_username_def timer_defs sent_def)

lemma transfer_payload_frame [simp]:
  "transfer_payload (clearTimeout i s) = transfer_payload s"
  "transfer_payload (s\<lparr>tf_error := x\<rparr>) = transfer_payload s"
  "transfer_payload (s\<lparr>tf_submitting := b\<rparr>) = transfer_payload s"
  by (simp_all add: transfer_payload_def amount_def clearTimeout_def)

lemma sent_form_frame [simp]:
  fixes s :: tform
  shows "sent (clearTimeout i s) = sent s" "sent (s\<lparr>tf_error := x\<rparr>) = sent s"
    "sent (s\<lparr>tf_submitting := b\<rparr>) = sent s"
  by (simp_all add: sent_def clearTimeout_def)

text \<open>Around the body: what \<open>submit\<close> does before and after it touches neither the payload nor the trace.\<close>

lemma submit_final:
  assumes "canSubmit s"
  shows "sent (final (submit E) s) =
    sent (final (submit_body E) (clearTimeout (tf_pollTimer s) (s\<lparr>tf_error := JStr [], tf_submitting := True\<rparr>)))"
  using assms by (simp add: submit_def await_def try_finally_def try_catch_def split: prod.splits sum.splits)

section \<open>Polling\<close>

text \<open>
  The requests for a transaction made so far, and those the timers that are set may still make: a timer
  of attempt \<open>k\<close> makes one, and sets the next while \<open>k\<close> is below the limit.
\<close>

definition is_poll :: "web_ev \<Rightarrow> bool" where
  "is_poll e = (case e of
     WFetch meth path _ _ _ \<Rightarrow> meth = ''GET'' \<and> take 18 path = ''/api/transactions/'' | _ \<Rightarrow> False)"

definition polls :: "tform \<Rightarrow> nat" where
  "polls s = length (filter is_poll (wb_trace s))"

definition timer_polls :: "form_timer \<Rightarrow> nat" where
  "timer_polls t = (case t of LookupTimer _ \<Rightarrow> 0 | PollTimer _ k \<Rightarrow> 1 + (RECEIPT_POLL_LIMIT - k))"

definition pending_polls :: "tform \<Rightarrow> nat" where
  "pending_polls s = (\<Sum>t\<leftarrow>tf_timers s. timer_polls (snd t))"

definition all_polls :: "tform \<Rightarrow> nat" where
  "all_polls s = polls s + pending_polls s"

text \<open>A computation that adds nothing when it fails, and at most \<open>n\<close> when it returns.\<close>

definition costs :: "nat \<Rightarrow> (tform, 'a) web_eff \<Rightarrow> bool" where
  "costs n m \<longleftrightarrow> (\<forall>s e t. m s = (Inl e, t) \<longrightarrow> all_polls t \<le> all_polls s) \<and>
     (\<forall>s x t. m s = (Inr x, t) \<longrightarrow> all_polls t \<le> all_polls s + n)"

named_theorems costs_intros

lemma costsI:
  "(\<And>s e t. m s = (Inl e, t) \<Longrightarrow> all_polls t \<le> all_polls s) \<Longrightarrow>
   (\<And>s x t. m s = (Inr x, t) \<Longrightarrow> all_polls t \<le> all_polls s + n) \<Longrightarrow> costs n m"
  by (simp add: costs_def)

lemma costs_Inl: "costs n m \<Longrightarrow> m s = (Inl e, t) \<Longrightarrow> all_polls t \<le> all_polls s"
  by (auto simp: costs_def)

lemma costs_Inr: "costs n m \<Longrightarrow> m s = (Inr x, t) \<Longrightarrow> all_polls t \<le> all_polls s + n"
  by (auto simp: costs_def)

lemma costs_bound: "costs n m \<Longrightarrow> all_polls (final m s) \<le> all_polls s + n"
proof (cases "m s")
  case (Pair r t)
  moreover assume "costs n m"
  ultimately show ?thesis using costs_Inl [of n m s _ t] costs_Inr [of n m s _ t] by (cases r) fastforce+
qed

lemma costs_keeps: "(\<And>X. keeps (\<lambda>s. all_polls s \<le> X) m) \<Longrightarrow> costs n m"
  by (rule costsI) (auto dest!: keepsE [rotated 2] intro: le_add1 trans_le_add1)

lemma costs_ret [costs_intros]: "costs n (ret x)"
  by (simp add: costs_def)

lemma costs_throw [costs_intros]: "costs n (throw e)"
  by (simp add: costs_def)

lemma costs_get_state [costs_intros]: "costs n (get_state g)"
  by (simp add: costs_def)

lemma costs_modify: "(\<And>s. all_polls (f s) \<le> all_polls s + n) \<Longrightarrow> costs n (modify f)"
  by (simp add: costs_def)

lemma costs_await [costs_intros]:
  assumes m: "costs 0 m" and f: "\<And>x. costs n (f x)"
  shows "costs n (await m f)"
proof (rule costsI)
  fix s e t assume "await m f s = (Inl e, t)"
  then consider "m s = (Inl e, t)" | x u where "m s = (Inr x, u)" "f x u = (Inl e, t)"
    by (auto simp: await_def split: prod.splits sum.splits)
  then show "all_polls t \<le> all_polls s"
    using costs_Inl [OF m, of s e t] costs_Inr [OF m, of s] costs_Inl [OF f] by cases fastforce+
next
  fix s y t assume "await m f s = (Inr y, t)"
  then obtain x u where "m s = (Inr x, u)" "f x u = (Inr y, t)" by (rule await_InrE)
  then show "all_polls t \<le> all_polls s + n"
    using costs_Inr [OF m, of s x u] costs_Inr [OF f, of x u y t] by simp
qed

lemma costs_if [costs_intros]: "costs n a \<Longrightarrow> costs n b \<Longrightarrow> costs n (if c then a else b)"
  by simp

lemma costs_try_catch [costs_intros]:
  assumes m: "costs n m" and h: "\<And>e. costs n (h e)"
  shows "costs n (try_catch m h)"
proof (rule costsI)
  fix s e t assume "try_catch m h s = (Inl e, t)"
  then obtain e' u where "m s = (Inl e', u)" "h e' u = (Inl e, t)"
    by (auto simp: try_catch_def split: prod.splits sum.splits)
  then show "all_polls t \<le> all_polls s"
    using costs_Inl [OF m, of s e' u] costs_Inl [OF h, of e' u e t] by simp
next
  fix s y t assume "try_catch m h s = (Inr y, t)"
  then consider "m s = (Inr y, t)" | e u where "m s = (Inl e, u)" "h e u = (Inr y, t)"
    by (auto simp: try_catch_def split: prod.splits sum.splits)
  then show "all_polls t \<le> all_polls s + n"
  proof cases
    case 1
    then show ?thesis by (rule costs_Inr [OF m])
  next
    case 2
    then show ?thesis using costs_Inl [OF m 2(1)] costs_Inr [OF h 2(2)] by simp
  qed
qed

lemma costs_finally [costs_intros]:
  assumes m: "costs n m" and f: "\<And>s. all_polls (f s) = all_polls s"
  shows "costs n (try_finally m (modify f))"
proof (rule costsI)
  fix s e t assume "try_finally m (modify f) s = (Inl e, t)"
  then obtain u where "m s = (Inl e, u)" "t = f u" by (auto simp: try_finally_def split: prod.splits)
  then show "all_polls t \<le> all_polls s" using costs_Inl [OF m, of s e u] f by simp
next
  fix s x t assume "try_finally m (modify f) s = (Inr x, t)"
  then obtain u where "m s = (Inr x, u)" "t = f u" by (auto simp: try_finally_def split: prod.splits)
  then show "all_polls t \<le> all_polls s + n" using costs_Inr [OF m, of s x u] f by simp
qed

lemma costs_field [costs_intros]: "costs n (field v k)"
  unfolding field_def by (intro costs_intros)

text \<open>What the parts of the handlers cost.\<close>

lemmas poll_defs = all_polls_def polls_def pending_polls_def is_poll_def

lemma all_polls_form_frame [simp]:
  fixes s :: tform
  shows "all_polls (s\<lparr>tf_recipient := r\<rparr>) = all_polls s" "all_polls (s\<lparr>tf_lookupError := x\<rparr>) = all_polls s"
    "all_polls (s\<lparr>tf_lookingUp := b\<rparr>) = all_polls s" "all_polls (s\<lparr>tf_nextTimer := n\<rparr>) = all_polls s"
    "all_polls (s\<lparr>tf_pollTimer := p\<rparr>) = all_polls s" "all_polls (s\<lparr>tf_lookupTimer := p\<rparr>) = all_polls s"
    "all_polls (s\<lparr>tf_username := v\<rparr>) = all_polls s" "all_polls (s\<lparr>tf_watched := v\<rparr>) = all_polls s"
    "all_polls (s\<lparr>tf_amountInput := v\<rparr>) = all_polls s" "all_polls (s\<lparr>tf_description := v\<rparr>) = all_polls s"
    "all_polls (s\<lparr>tf_submitting := b\<rparr>) = all_polls s" "all_polls (s\<lparr>tf_error := x\<rparr>) = all_polls s"
    "all_polls (s\<lparr>tf_result := x\<rparr>) = all_polls s" "all_polls (s\<lparr>wb_wallet := w\<rparr>) = all_polls s"
    "all_polls (s\<lparr>wb_loading := b\<rparr>) = all_polls s" "all_polls (s\<lparr>wb_status := st\<rparr>) = all_polls s"
    "all_polls (s\<lparr>wb_toasts := ts\<rparr>) = all_polls s" "all_polls (s\<lparr>wb_activity := n\<rparr>) = all_polls s"
  by (simp_all add: all_polls_def polls_def pending_polls_def)

lemma all_polls_event:
  fixes s :: tform
  shows "all_polls (s\<lparr>wb_trace := wb_trace s @ [e]\<rparr>) = all_polls s + (if is_poll e then 1 else 0)"
  by (simp add: all_polls_def polls_def pending_polls_def)

lemma all_polls_clear: "all_polls (clearTimeout i s) \<le> all_polls s"
  by (simp add: all_polls_def polls_def pending_polls_def clearTimeout_def sum_list_filter_le_nat)

lemma all_polls_set: "all_polls (setTimeout t s) = all_polls s + timer_polls t"
  by (simp add: all_polls_def polls_def pending_polls_def setTimeout_def)

lemma all_polls_removed:
  "map_of ts i = Some t \<Longrightarrow>
   (\<Sum>x\<leftarrow>filter (\<lambda>x. fst x \<noteq> i) ts. timer_polls (snd x)) + timer_polls t \<le> (\<Sum>x\<leftarrow>ts. timer_polls (snd x))"
  by (induction ts) (auto simp: sum_list_filter_le_nat split: if_splits)

lemma all_polls_watch: "all_polls (watch_username s) \<le> all_polls s"
  using all_polls_clear [of "tf_lookupTimer s" s]
  by (simp add: watch_username_def Let_def all_polls_set timer_polls_def)

lemma costs_emit: "\<not> is_poll e \<Longrightarrow> costs n (emit e)"
  by (simp add: emit_def costs_def all_polls_event)

lemma costs_endSession: "costs n (endSession E m)"
  by (rule costs_keeps, rule keepsI) (simp add: client_defs poll_defs Let_def await_def)

lemma costs_push_toast [costs_intros]: "costs n (push_toast a b c d)"
  unfolding push_toast_def by (rule costs_modify) (simp add: poll_defs)

lemma costs_markActivity [costs_intros]: "costs n markActivity"
  unfolding markActivity_def by (intro costs_intros costs_modify costs_emit) (simp_all add: is_poll_def)

lemma costs_pollReceipt: "n = timer_polls (PollTimer i k) \<Longrightarrow> costs n (pollReceipt i k)"
  unfolding pollReceipt_def by (rule costs_modify) (simp add: all_polls_set)

lemma costs_receive:
  assumes "\<And>tr s. all_polls (meanwhile E tr s) \<le> all_polls s"
  shows "costs n (receive E token)"
  by (rule costs_keeps, rule keeps_receive)
    (auto intro: order_trans [OF assms] keepsI order_trans [OF costs_bound [OF costs_endSession [of 0], simplified]])

lemma costs_request:
  assumes "\<And>tr s. all_polls (meanwhile E tr s) \<le> all_polls s" "meth = ''GET'' \<longrightarrow> take 18 path \<noteq> ''/api/transactions/''"
  shows "costs n (request E meth path body qs)"
  unfolding request_def using assms(2)
  by (intro costs_intros costs_receive assms(1) costs_emit) (simp add: is_poll_def)

lemma timer_polls_simps [simp]:
  "timer_polls (LookupTimer v) = 0" "timer_polls (PollTimer i k) = 1 + (RECEIPT_POLL_LIMIT - k)"
  by (simp_all add: timer_polls_def)

lemma costs_poll_again:
  "costs (RECEIPT_POLL_LIMIT - k) (if b \<and> k < RECEIPT_POLL_LIMIT then pollReceipt i (k + 1) else m)"
  if "costs (RECEIPT_POLL_LIMIT - k) m"
  using that by (auto intro!: costs_pollReceipt)

lemma poll_fired_bound:
  assumes "\<And>tr s. all_polls (meanwhile E tr s) \<le> all_polls s"
  shows "all_polls (final (poll_fired E i k) s) \<le> all_polls s + timer_polls (PollTimer i k)"
proof -
  let ?e = "WFetch ''GET'' (''/api/transactions/'' @ template_text i) []
     (if js_truthy (auth_token s) then auth_token s else JUndefined) JUndefined"
  let ?s1 = "s\<lparr>wb_trace := wb_trace s @ [?e]\<rparr>"
  define rest where "rest = (\<lambda>tx.
        await (get_state (\<lambda>s :: tform. js_get (tf_result s) ''id'')) (\<lambda>shown.
        if shown \<noteq> i then (ret () :: (tform, unit) web_eff)
        else
          await (modify (\<lambda>s. s\<lparr>tf_result := tx\<rparr>)) (\<lambda>_.
          await (field tx ''receiptStatus'') (\<lambda>status.
          if status = JStr ''PENDING'' \<and> k < RECEIPT_POLL_LIMIT
          then pollReceipt i (k + 1)
          else if status = JStr ''GENERATED'' then markActivity else ret ()))))"
  define again where
    "again = (\<lambda>_ :: web_error. if k < RECEIPT_POLL_LIMIT then pollReceipt i (k + 1) else ret ())"
  have "costs (RECEIPT_POLL_LIMIT - k) (again e)" for e
    unfolding again_def by (auto intro!: costs_intros costs_pollReceipt)
  moreover have "costs (RECEIPT_POLL_LIMIT - k) (rest tx)" for tx
    unfolding rest_def by (intro costs_intros costs_poll_again costs_modify) simp
  ultimately have "costs (RECEIPT_POLL_LIMIT - k) (try_catch (await (receive E (auth_token s)) rest) again)"
    by (intro costs_intros costs_receive assms)
  then have "all_polls (final (try_catch (await (receive E (auth_token s)) rest) again) ?s1) \<le>
      all_polls ?s1 + (RECEIPT_POLL_LIMIT - k)" by (rule costs_bound)
  moreover have "poll_fired E i k s = try_catch (await (receive E (auth_token s)) rest) again ?s1"
    by (simp add: poll_fired_def transactionApi_get_def http_get_def request_emits try_catch_def await_def
        rest_def again_def)
  ultimately show ?thesis by (simp add: all_polls_event is_poll_def)
qed

lemma lookup_bound:
  assumes "\<And>tr s. all_polls (meanwhile E tr s) \<le> all_polls s"
  shows "costs 0 (lookup_form E v)"
  unfolding lookup_form_def userApi_findByUsername_def http_get_def Let_def
  by (intro costs_intros costs_modify costs_request assms) simp_all

lemma costs_then_modify:
  assumes m: "costs n m" and f: "\<And>s. all_polls (f s) \<le> all_polls s"
  shows "costs n (await m (\<lambda>_. modify f))"
proof (rule costsI)
  fix s e t assume "await m (\<lambda>_. modify f) s = (Inl e, t)"
  then have "m s = (Inl e, t)" by (auto simp: await_def split: prod.splits sum.splits)
  then show "all_polls t \<le> all_polls s" by (rule costs_Inl [OF m])
next
  fix s y t assume "await m (\<lambda>_. modify f) s = (Inr y, t)"
  then obtain x u where "m s = (Inr x, u)" "t = f u" by (elim await_InrE) simp
  then show "all_polls t \<le> all_polls s + n" using costs_Inr [OF m, of s x u] f [of u] by simp
qed

lemma costs_unless: "costs n m \<Longrightarrow> costs n (\<lambda>s. if b s then (Inr x, s) else m s)"
  by (simp add: costs_def)

lemma submit_bound:
  assumes "\<And>tr s. all_polls (meanwhile E tr s) \<le> all_polls s"
  shows "costs (1 + RECEIPT_POLL_LIMIT) (submit E)"
  unfolding submit_def submit_body_def transferApi_create_def http_post_def
  by (intro costs_unless costs_await [OF costs_modify] costs_then_modify costs_intros costs_modify costs_request
      costs_pollReceipt assms)
    (auto simp: all_polls_watch intro: order_trans [OF all_polls_clear])

lemma fire_bound:
  assumes "\<And>tr s. all_polls (meanwhile E tr s) \<le> all_polls s"
  shows "all_polls (final (fire E i) s) \<le> all_polls s"
proof (cases "map_of (tf_timers s) i")
  case None
  then show ?thesis by (simp add: fire_def)
next
  case (Some t)
  let ?s1 = "s\<lparr>tf_timers := filter (\<lambda>x. fst x \<noteq> i) (tf_timers s)\<rparr>"
  have removed: "all_polls ?s1 + timer_polls t \<le> all_polls s"
    using all_polls_removed [OF Some] by (simp add: all_polls_def polls_def pending_polls_def)
  show ?thesis
  proof (cases t)
    case (LookupTimer v)
    with Some have "final (fire E i) s = final (lookup_form E v) ?s1" by (simp add: fire_def Let_def)
    then show ?thesis using costs_bound [OF lookup_bound [OF assms], of v ?s1] removed by simp
  next
    case (PollTimer tx k)
    with Some have "final (fire E i) s = final (poll_fired E tx k) ?s1" by (simp add: fire_def Let_def)
    then show ?thesis using poll_fired_bound [OF assms, of tx k ?s1] removed PollTimer by simp
  qed
qed

lemma costs_persist [costs_intros]: "costs n (persist E v)"
  unfolding persist_def by (rule costs_modify) (simp add: poll_defs Let_def)

lemma costs_flush [costs_intros]: "costs n (flush_watch :: (tform, unit) web_eff)"
  by (rule costs_keeps, rule keepsI)
    (simp add: flush_watch_def on_token_change_def rt_connect_def rt_disconnect_def reset_wallet_def emit_def
      poll_defs await_def)

lemma costs_case_client_event [costs_intros]:
  "costs k a \<Longrightarrow> costs k b \<Longrightarrow> (\<And>c. costs k (f c)) \<Longrightarrow> costs k d \<Longrightarrow> (\<And>n. costs k (g n)) \<Longrightarrow>
   costs k (case e of OnSessionReady \<Rightarrow> a | OnDisconnect \<Rightarrow> b | OnConnectError c \<Rightarrow> f c | OnSessionExpired \<Rightarrow> d
     | OnTransferReceived n \<Rightarrow> g n)"
  by (cases e) auto

lemma login_bound:
  assumes "\<And>tr s. all_polls (meanwhile E tr s) \<le> all_polls s"
  shows "costs 0 (auth_store_login E credentials)"
  unfolding auth_store_login_def authApi_login_def http_post_def
  by (intro costs_intros costs_request assms) simp_all

lemma register_bound:
  assumes "\<And>tr s. all_polls (meanwhile E tr s) \<le> all_polls s"
  shows "costs 0 (auth_store_register E payload)"
  unfolding auth_store_register_def authApi_register_def http_post_def
  by (intro costs_intros costs_request login_bound assms) simp_all

lemma sign_out_bound: "costs 0 (sign_out E)"
  unfolding sign_out_def logout_def by (intro costs_intros costs_emit) (simp_all add: is_poll_def)

lemma refresh_bound:
  assumes "\<And>tr s. all_polls (meanwhile E tr s) \<le> all_polls s"
  shows "costs 0 (wallet_refresh E)"
  unfolding wallet_refresh_def walletApi_me_def http_get_def
  by (intro costs_intros costs_modify costs_request assms) simp_all

lemma socket_event_bound: "costs 0 (on_socket_event E e)"
  unfolding on_socket_event_def
  by (intro costs_unless costs_intros costs_modify costs_endSession) simp_all

lemma handler_bound:
  assumes "\<And>tr s. all_polls (meanwhile E tr s) \<le> all_polls s"
  shows "all_polls (final (client_handler E a) s) \<le> all_polls s + (if a = Submit then 1 + RECEIPT_POLL_LIMIT else 0)"
proof -
  note bounds = costs_bound [OF login_bound [OF assms]] costs_bound [OF register_bound [OF assms]]
    costs_bound [OF sign_out_bound] costs_bound [OF refresh_bound [OF assms]] costs_bound [OF socket_event_bound]
    costs_bound [OF submit_bound [OF assms]] fire_bound [OF assms]
  show ?thesis
  proof (cases a)
    case Unmount
    then show ?thesis
      by (auto simp: unmount_form_def intro: order_trans [OF all_polls_clear all_polls_clear])
  next
    case (TypeUsername v)
    then show ?thesis
      using all_polls_watch [of "s\<lparr>tf_username := v\<rparr>"] by (simp add: type_username_def)
  qed (use bounds in \<open>simp_all add: dismiss_toast_def onAmountInput_def setAmount_def type_description_def\<close>)
qed

section \<open>Properties\<close>

text \<open>C31: pressing the button of the transfer form sends exactly one transfer, to the recipient that is
  shown, of the amount in the field, which is positive and at most the balance shown, in a body that the
  API's own schema for transfers accepts; and when the button is disabled nothing happens at all. The
  recipient and the balance are what the API sends (an id and a balance that are safe integers), and the
  description field holds at most 255 characters.\<close>

theorem form_sends_one_valid_transfer:
  assumes "\<And>tr s. sent (meanwhile E tr s) = sent s"
    and "js_get (tf_recipient s) ''id'' = JInt u" "0 < u" "isSafeInteger u"
    and "balance_value s = JInt b" "b \<le> MAX_SAFE_INTEGER" "length (tf_description s) \<le> 255"
  shows "if canSubmit s
    then \<exists>tok body a. sent (final (submit E) s) = sent s @ [WFetch ''POST'' ''/api/transfers'' [] tok body] \<and>
      conforms transferBody body \<and> js_get body ''toUserId'' = JInt u \<and> js_get body ''amount'' = JInt a \<and>
      parseAmount (tf_amountInput s) = Some (Fin a) \<and> 0 < a \<and> a \<le> b
    else submit E s = (Inr (), s)"
proof (cases "canSubmit s")
  case True
  let ?s1 = "clearTimeout (tf_pollTimer s) (s\<lparr>tf_error := JStr [], tf_submitting := True\<rparr>)"
  obtain tok where "sent (final (submit_body E) ?s1) =
      sent ?s1 @ [WFetch ''POST'' ''/api/transfers'' [] tok (transfer_payload ?s1)]"
    using submit_body_sends [OF assms(1), of ?s1] by blast
  then have "sent (final (submit E) s) = sent s @ [WFetch ''POST'' ''/api/transfers'' [] tok (transfer_payload s)]"
    by (simp add: submit_final [OF True])
  with transfer_payload_conforms [OF True assms(2-7)] True show ?thesis by auto
next
  case False
  then show ?thesis by (simp add: submit_def)
qed

theorem form_sends_one_valid_transfer_witness:
  "\<exists>tok body a. sent (final (submit (quiet_env NetworkFailure)) demo_form) =
      sent demo_form @ [WFetch ''POST'' ''/api/transfers'' [] tok body] \<and>
    conforms transferBody body \<and> js_get body ''toUserId'' = JInt 2 \<and> js_get body ''amount'' = JInt a \<and>
    parseAmount (tf_amountInput demo_form) = Some (Fin a) \<and> 0 < a \<and> a \<le> 5000"
proof -
  have can: "canSubmit demo_form"
    by (simp add: canSubmit_def demo_form_def amount_def exceedsBalance_def balance_value_def parseAmount_def
        is_digit_def digits_value_def digit_value_def to_double_def greater_def js_truthy_def js_get_def or_else_def
        nullish_def)
  have "if canSubmit demo_form
    then \<exists>tok body a. sent (final (submit (quiet_env NetworkFailure)) demo_form) =
        sent demo_form @ [WFetch ''POST'' ''/api/transfers'' [] tok body] \<and>
      conforms transferBody body \<and> js_get body ''toUserId'' = JInt 2 \<and> js_get body ''amount'' = JInt a \<and>
      parseAmount (tf_amountInput demo_form) = Some (Fin a) \<and> 0 < a \<and> a \<le> 5000
    else submit (quiet_env NetworkFailure) demo_form = (Inr (), demo_form)"
    by (rule form_sends_one_valid_transfer)
      (simp_all add: quiet_env_def demo_form_def js_get_def isSafeInteger_def balance_value_def or_else_def
        nullish_def MAX_SAFE_INTEGER_def)
  with can show ?thesis by simp
qed

end
