(* ===== verification/Web_Wire.thy ===== *)
theory Web_Wire
  imports Web_Transfer Http_Api
begin

text \<open>
  Between the browser and the server: what a \<open>fetch\<close> of \<open>src/frontend/src/api/http.js\<close> looks like to
  Express, the JSON text of every response the controllers and the error handler send, and the server
  as the browser's environment, which answers each request after the requests before it.

  The JSON texts are modelled by the values they stand for: \<open>json_copy\<close> is a value after
  \<open>JSON.stringify\<close> and \<open>JSON.parse\<close>. What Express makes of a body, how it reads a query and the text of
  a status are parameters (\<open>http_wire\<close>).
\<close>

section \<open>JSON\<close>

text \<open>\<open>JSON.parse(JSON.stringify(v))\<close>: properties that are undefined are left out, elements become \<open>null\<close>.\<close>

primrec json_copy :: "js_value \<Rightarrow> js_value" where
  "json_copy JUndefined = JUndefined"
| "json_copy JNull = JNull"
| "json_copy (JBool b) = JBool b"
| "json_copy (JInt n) = JInt n"
| "json_copy (JFloat t) = JFloat t"
| "json_copy (JStr s) = JStr s"
| "json_copy (JArray vs) = JArray (map (\<lambda>v. if v = JUndefined then JNull else v) (map json_copy vs))"
| "json_copy (JObject kvs) = JObject (filter (\<lambda>kv. snd kv \<noteq> JUndefined) (map (map_prod id json_copy) kvs))"

definition json_option :: "('a \<Rightarrow> js_value) \<Rightarrow> 'a option \<Rightarrow> js_value" where
  "json_option f x = (case x of None \<Rightarrow> JNull | Some v \<Rightarrow> f v)"

text \<open>A \<open>Date\<close> is sent as its \<open>toISOString\<close>.\<close>

definition json_date :: "int \<Rightarrow> js_value" where
  "json_date ms = JStr (toISOString ms)"

definition json_of_party :: "party \<Rightarrow> js_value" where
  "json_of_party p = JObject
     [(''userId'', JInt (p_userId p)), (''username'', JStr (p_username p)), (''fullName'', JStr (p_fullName p))]"

definition json_of_transaction :: "transaction \<Rightarrow> js_value" where
  "json_of_transaction t = JObject
     [(''id'', JStr (tx_id t)),
      (''amount'', JInt (tx_amount t)),
      (''description'', json_option JStr (tx_description t)),
      (''receiptStatus'', JStr (status_name (tx_receiptStatus t))),
      (''receiptUrl'', json_option JStr (tx_receiptUrl t)),
      (''receiptObjectKey'', json_option JStr (tx_receiptObjectKey t)),
      (''createdAt'', json_date (tx_createdAt t)),
      (''from'', json_of_party (tx_from t)),
      (''to'', json_of_party (tx_to t))]"

definition json_of_wallet :: "wallet_obj \<Rightarrow> js_value" where
  "json_of_wallet w = JObject
     [(''id'', JInt (wallet_id w)), (''userId'', JInt (wallet_userId w)), (''balance'', JInt (wallet_balance w)),
      (''createdAt'', json_date (wallet_createdAt w)), (''updatedAt'', json_date (wallet_updatedAt w))]"

definition entry_type_name :: "ledger_entry_type \<Rightarrow> string" where
  "entry_type_name t = (case t of OPENING \<Rightarrow> ''OPENING'' | DEBIT \<Rightarrow> ''DEBIT'' | CREDIT \<Rightarrow> ''CREDIT'')"

definition json_of_entry :: "ledger_obj \<Rightarrow> js_value" where
  "json_of_entry e = JObject
     [(''id'', JInt (entry_id e)),
      (''transactionId'', json_option JStr (entry_transactionId e)),
      (''entryType'', JStr (entry_type_name (entry_type e))),
      (''amount'', JInt (entry_amount e)),
      (''balanceBefore'', JInt (entry_balanceBefore e)),
      (''balanceAfter'', JInt (entry_balanceAfter e)),
      (''createdAt'', json_date (entry_createdAt e))]"

definition json_of_public_user :: "public_user \<Rightarrow> js_value" where
  "json_of_public_user u = JObject
     [(''id'', JInt (pu_id u)), (''username'', JStr (pu_username u)), (''fullName'', JStr (pu_fullName u)),
      (''role'', JStr (pu_role u)), (''createdAt'', json_date (pu_createdAt u))]"

definition json_of_registration :: "registration \<Rightarrow> js_value" where
  "json_of_registration r = JObject
     [(''user'', json_of_public_user (reg_user r)),
      (''wallet'', JObject [(''id'', JInt (reg_wallet_id r)), (''balance'', JInt (reg_wallet_balance r))])]"

definition json_of_login :: "login_response \<Rightarrow> js_value" where
  "json_of_login l = JObject
     [(''accessToken'', JStr (lr_accessToken l)), (''tokenType'', JStr (lr_tokenType l)),
      (''expiresIn'', JStr (lr_expiresIn l)), (''user'', json_of_public_user (lr_user l))]"

definition json_of_profile :: "public_profile \<Rightarrow> js_value" where
  "json_of_profile p = JObject
     [(''id'', JInt (pp_id p)), (''username'', JStr (pp_username p)), (''fullName'', JStr (pp_fullName p))]"

definition json_of_page :: "('a \<Rightarrow> js_value) \<Rightarrow> 'a paginated \<Rightarrow> js_value" where
  "json_of_page f p = JObject
     [(''items'', JArray (map f (pg_items p))),
      (''pagination'', JObject
        [(''page'', JInt (pg_page (pg_pagination p))), (''limit'', JInt (pg_limit (pg_pagination p))),
         (''total'', JInt (pg_total (pg_pagination p))), (''totalPages'', JInt (pg_totalPages (pg_pagination p)))])]"

definition json_of_issue :: "issue \<Rightarrow> js_value" where
  "json_of_issue i = JObject
     [(''location'', JStr (issue_location i)), (''path'', JStr (issue_path i)), (''message'', JStr (issue_message i))]"

definition json_of_error :: "string \<Rightarrow> string \<Rightarrow> issue list option \<Rightarrow> js_value" where
  "json_of_error code message details = JObject
     [(''error'', JObject ([(''code'', JStr code), (''message'', JStr message)] @
        (case details of None \<Rightarrow> [] | Some is \<Rightarrow> [(''details'', JArray (map json_of_issue is))])))]"

text \<open>The body of a response; a redirect has none. \<open>uptime\<close> is that of the process, in seconds.\<close>

definition json_of_payload :: "int \<Rightarrow> payload \<Rightarrow> js_value option" where
  "json_of_payload uptime p = (case p of
     PError code message details \<Rightarrow> Some (json_of_error code message details)
   | PRegistration r \<Rightarrow> Some (json_of_registration r)
   | PLogin l \<Rightarrow> Some (json_of_login l)
   | PProfile pr \<Rightarrow> Some (json_of_profile pr)
   | PWallet w \<Rightarrow> Some (json_of_wallet w)
   | PLedger pg \<Rightarrow> Some (json_of_page json_of_entry pg)
   | PTransaction t \<Rightarrow> Some (json_option json_of_transaction t)
   | PTransactions pg \<Rightarrow> Some (json_of_page json_of_transaction pg)
   | PRedirect _ \<Rightarrow> None
   | PHealth st db_up redis_up \<Rightarrow> Some (JObject [(''status'', JStr st),
       (''services'', JObject [(''database'', JStr db_up), (''redis'', JStr redis_up)]), (''uptime'', JInt uptime)]))"

section \<open>Requests and responses\<close>

record http_wire =
  hw_body :: "js_value \<Rightarrow> js_error + js_value"
  hw_query :: "(string \<times> js_value) list \<Rightarrow> js_value"
  hw_search :: "(string \<times> js_value) list \<Rightarrow> string"
  hw_statusText :: "int \<Rightarrow> string"
  hw_uptime :: int

text \<open>What a \<open>fetch\<close> is to Express; other events are no requests.\<close>

definition http_request_of :: "http_wire \<Rightarrow> web_ev \<Rightarrow> http_request option" where
  "http_request_of W e = (case e of
     WFetch meth path qs token body \<Rightarrow> Some
       \<lparr>rq_method = meth, rq_url = path @ (if qs = [] then [] else hw_search W qs),
        rq_authorization = (if js_truthy token then Some (''Bearer '' @ template_text token) else None),
        rq_params = JObject [], rq_query = hw_query W qs, rq_body = hw_body W body,
        rq_user = None, rq_validated = []\<rparr>
   | _ \<Rightarrow> None)"

text \<open>\<open>Response status statusText json\<close>; a request of the client is never redirected.\<close>

definition fetch_result_of :: "http_wire \<Rightarrow> js_error + response \<Rightarrow> fetch_result" where
  "fetch_result_of W r = (case r of
     Inl _ \<Rightarrow> NetworkFailure
   | Inr rsp \<Rightarrow> Response (rsp_status rsp) (hw_statusText W (rsp_status rsp)) (json_of_payload (hw_uptime W) (rsp_body rsp)))"

section \<open>The server behind the browser\<close>

text \<open>
  \<open>sv_others\<close> is what the rest of the world does to the server before the request that follows the
  events so far: other clients, the worker, the clock.
\<close>

record server =
  sv_env :: env
  sv_api :: api
  sv_wire :: http_wire
  sv_others :: "web_ev list \<Rightarrow> world \<Rightarrow> world"
  sv_start :: world

fun served_rev :: "server \<Rightarrow> web_ev list \<Rightarrow> world" where
  "served_rev S [] = sv_start S"
| "served_rev S (e # es) =
     (case http_request_of (sv_wire S) e of
        None \<Rightarrow> served_rev S es
      | Some rq \<Rightarrow> snd (app (sv_env S) (sv_api S) rq (sv_others S (rev es) (served_rev S es))))"

text \<open>The server after the events of the browser, and what it holds when the next request arrives.\<close>

definition served :: "server \<Rightarrow> web_ev list \<Rightarrow> world" where
  "served S tr = served_rev S (rev tr)"

definition server_at :: "server \<Rightarrow> web_ev list \<Rightarrow> world" where
  "server_at S tr = sv_others S tr (served S tr)"

definition answer_of :: "server \<Rightarrow> web_ev list \<Rightarrow> fetch_result" where
  "answer_of S tr = (case http_request_of (sv_wire S) (last tr) of
     None \<Rightarrow> NetworkFailure
   | Some rq \<Rightarrow> fetch_result_of (sv_wire S) (fst (app (sv_env S) (sv_api S) rq (server_at S (butlast tr)))))"

definition connected :: "server \<Rightarrow> 's web_env \<Rightarrow> 's web_env" where
  "connected S E = E\<lparr>fetch_answer := answer_of S\<rparr>"

lemma fetch_answer_connected [simp]: "fetch_answer (connected S E) = answer_of S"
  by (simp add: connected_def)

lemma env_connected [simp]:
  "meanwhile (connected S E) = meanwhile E" "web_clock (connected S E) = web_clock E"
  "decode_json (connected S E) = decode_json E"
  by (simp_all add: connected_def)

lemma served_Nil [simp]: "served S [] = sv_start S"
  by (simp add: served_def)

text \<open>One request: the answer the browser gets and the server it leaves come from one run of the application.\<close>

lemma served_request:
  assumes "http_request_of (sv_wire S) e = Some rq"
  shows "served S (tr @ [e]) = snd (app (sv_env S) (sv_api S) rq (server_at S tr))"
  using assms by (simp add: served_def server_at_def)

lemma served_other: "http_request_of (sv_wire S) e = None \<Longrightarrow> served S (tr @ [e]) = served S tr"
  by (simp add: served_def)

lemma answer_request:
  assumes "http_request_of (sv_wire S) e = Some rq"
    and "app (sv_env S) (sv_api S) rq (server_at S tr) = (r, w')"
  shows "answer_of S (tr @ [e]) = fetch_result_of (sv_wire S) r" "served S (tr @ [e]) = w'"
  using assms by (simp_all add: answer_of_def served_request [OF assms(1)])

text \<open>What arrives is what was sent.\<close>

lemma js_get_Cons: "js_get (JObject ((k', v) # kvs)) k = (if k = k' then v else js_get (JObject kvs) k)"
  by (simp add: js_get_def)

lemma js_get_Nil [simp]: "js_get (JObject []) k = JUndefined"
  by (simp add: js_get_def)

lemma js_get_missing: "k \<notin> fst ` set kvs \<Longrightarrow> js_get (JObject kvs) k = JUndefined"
  by (induction kvs) (auto simp: js_get_Cons)

lemma js_get_json_copy:
  "distinct (map fst kvs) \<Longrightarrow> js_get (json_copy (JObject kvs)) k = json_copy (js_get (JObject kvs) k)"
proof (induction kvs)
  case Nil
  then show ?case by simp
next
  case (Cons x kvs)
  obtain k' v where x: "x = (k', v)" by (cases x)
  with Cons have IH: "js_get (json_copy (JObject kvs)) k = json_copy (js_get (JObject kvs) k)"
    and k': "k' \<notin> fst ` set kvs" by auto
  have "js_get (json_copy (JObject kvs)) k' = JUndefined"
    using k' by (simp add: image_iff) (rule js_get_missing, force)
  with IH show ?case by (simp add: x js_get_Cons)
qed

end
