(* ===== verification/Web_End_To_End.thy ===== *)
theory Web_End_To_End
  imports Web_Form_Theorems Http_Theorems Web_Wire
begin

text \<open>
  The browser and the server together: what pressing the button of the transfer form does to the
  accounts of the server and to what the form shows, and that the balance shown after a refresh is the
  one the server holds.

  Of the other parts only documented behaviour is used: which paths Express matches
  (\<open>express_routes\<close>), that \<open>zod\<close> lets data through that conforms to a schema (\<open>zod_admits\<close>), and that
  a small JSON body arrives as it was sent.
\<close>

section \<open>The server's side\<close>

text \<open>A path mounted at \<open>prefix\<close> only, and matched there by a route without parameters.\<close>

definition express_routes :: "express \<Rightarrow> string \<Rightarrow> string \<Rightarrow> string \<Rightarrow> string \<Rightarrow> bool" where
  "express_routes X meth url prefix pattern \<longleftrightarrow> (\<forall>rq. rq_method rq = meth \<longrightarrow> rq_url rq = url \<longrightarrow>
     (\<forall>p \<in> fst ` set createRouter. ex_mounted X p rq = (p = prefix)) \<and> ex_params X prefix pattern meth rq = Some [])"

text \<open>Data that conforms to an object schema is let through with its fields as they are.\<close>

definition zod_admits :: "zod \<Rightarrow> zschema \<Rightarrow> string set \<Rightarrow> bool" where
  "zod_admits Z sch ks \<longleftrightarrow>
     (\<forall>v. conforms sch v \<longrightarrow> (\<exists>d. Z sch v = Inr d \<and> (\<forall>k \<in> ks. js_get d k = js_get v k)))"

definition bearer :: "api \<Rightarrow> int \<Rightarrow> js_value \<Rightarrow> auth_user \<Rightarrow> bool" where
  "bearer A now token u \<longleftrightarrow> js_truthy token \<and>
     authenticate (token_verify (api_jwt A) (api_secret A) now) (Some (''Bearer '' @ template_text token)) = Inr u"

lemma express_routesD:
  assumes "express_routes X meth url prefix pattern" "rq_method rq = meth" "rq_url rq = url"
  shows "p \<in> fst ` set createRouter \<Longrightarrow> ex_mounted X p rq = (p = prefix)" "ex_params X prefix pattern meth rq = Some []"
  using assms by (auto simp: express_routes_def)

lemma createRouter_prefixes:
  "fst ` set createRouter = {''/health'', ''/api/auth'', ''/api/users'', ''/api/wallets'', ''/api/transfers'',
     ''/api/transactions'', ''/api/admin''}"
  by (simp add: createRouter_def)

lemma transfer_routed:
  assumes "express_routes (api_express A) ''POST'' ''/api/transfers'' ''/api/transfers'' ''/''"
    and rq: "rq_method rq = ''POST''" "rq_url rq = ''/api/transfers''" "rq_body rq = Inr v" "v \<noteq> JUndefined" "v \<noteq> JNull"
    and auth: "authenticate (token_verify (api_jwt A) (api_secret A) now) (rq_authorization rq) = Inr u"
    and role: "au_role u = ROLE_USER \<or> au_role u = ROLE_ADMIN" and zod: "api_zod A transferBody v = Inr d"
  shows "run_routers A now createRouter rq =
    Inr (Some CreateTransfer, rq\<lparr>rq_params := JObject [], rq_user := Some u, rq_validated := [(''body'', d)]\<rparr>)"
proof -
  note routes = express_routesD [OF assms(1) rq(1,2)]
  have mounted: "ex_mounted (api_express A) p rq = (p = ''/api/transfers'')"
    if "p \<in> {''/health'', ''/api/auth'', ''/api/users'', ''/api/wallets'', ''/api/transfers''}" for p
    using that by (intro routes(1)) (auto simp: createRouter_prefixes)
  show ?thesis
    using auth role zod rq(3-5) routes(2)
    by (auto simp: createRouter_def transfer_router_def mounted run_middleware_def authorize_def validate_def
        validate_source_def body_schema_def request_body_def)
qed

lemma wallet_routed:
  assumes "express_routes (api_express A) ''GET'' ''/api/wallets/me'' ''/api/wallets'' ''/me''"
    and rq: "rq_method rq = ''GET''" "rq_url rq = ''/api/wallets/me''"
    and auth: "authenticate (token_verify (api_jwt A) (api_secret A) now) (rq_authorization rq) = Inr u"
  shows "run_routers A now createRouter rq =
    Inr (Some GetMyWallet, rq\<lparr>rq_user := Some u, rq_params := JObject []\<rparr>)"
proof -
  have mounted: "ex_mounted (api_express A) p rq = (p = ''/api/wallets'')"
    if "p \<in> {''/health'', ''/api/auth'', ''/api/users'', ''/api/wallets''}" for p
    using that by (intro express_routesD(1) [OF assms(1) rq]) (auto simp: createRouter_prefixes)
  have "ex_params (api_express A) ''/api/wallets'' ''/me'' ''GET'' (rq\<lparr>rq_user := Some u\<rparr>) = Some []"
    by (rule express_routesD(2) [OF assms(1)]) (simp_all add: rq)
  then show ?thesis
    using auth by (simp add: createRouter_def wallet_router_def mounted run_middleware_def)
qed

text \<open>A transfer request of a valid token, with a body that conforms to the schema, as the server answers it.\<close>

lemma served_transfer:
  assumes at: "transfer_at E w" and zod: "zod_sound (api_zod A)" "zod_admits (api_zod A) transferBody
      {''toUserId'', ''amount'', ''description''}"
    and routes: "express_routes (api_express A) ''POST'' ''/api/transfers'' ''/api/transfers'' ''/''"
    and rq: "rq_method rq = ''POST''" "rq_url rq = ''/api/transfers''" "rq_body rq = Inr v"
    and auth: "authenticate (token_verify (api_jwt A) (api_secret A) (clock E (trace w))) (rq_authorization rq) = Inr u"
    and user: "au_role u = ROLE_USER \<or> au_role u = ROLE_ADMIN" "au_id u = Some f"
    and v: "conforms transferBody v" "js_get v ''toUserId'' = JInt t" "js_get v ''amount'' = JInt a"
  shows "\<exists>rsp w'. app E A rq w = (Inr rsp, w') \<and>
    (case transfer_answer f t a (bank_of (database w)) of
       Inl (status, code) \<Rightarrow> rsp_status rsp = status \<and> rsp_body rsp = PError code (refusal_message code) None \<and>
         tables (database w') = tables (database w)
     | Inr b \<Rightarrow> rsp_status rsp = 201 \<and> bank_of (database w') = b \<and>
         (\<exists>T. rsp_body rsp = PTransaction (Some T) \<and> tx_amount T = a \<and> p_userId (tx_from T) = f \<and>
            p_userId (tx_to T) = t \<and> tx_receiptStatus T = (if a > api_threshold A then PENDING else NOT_REQUIRED)))"
proof -
  obtain d where d: "api_zod A transferBody v = Inr d" "js_get d ''toUserId'' = JInt t" "js_get d ''amount'' = JInt a"
    using zod(2) v by (fastforce simp: zod_admits_def)
  have "conforms transferBody d" using zod(1) d(1) by (rule zod_soundD)
  then obtain descr where b: "0 < a" "isSafeInteger a" "description_column (js_string (js_get d ''description'')) = Inr descr"
    using conforms_transfer_input [of d] d(2,3) by auto
  have obj: "v \<noteq> JUndefined" "v \<noteq> JNull" using v(1) by (auto simp: transferBody_def)
  let ?rq = "rq\<lparr>rq_params := JObject [], rq_user := Some u, rq_validated := [(''body'', d)]\<rparr>"
  have body: "validated ?rq ''body'' = d" by (simp add: validated_def)
  have "handle E A CreateTransfer ?rq = ok_json 201 PTransaction
      (transfer_service E (api_threshold A) f t (Some a) (js_string (js_get d ''description'')))"
    by (subst handle_transfer [of ?rq u f t a]) (simp_all only: body d user, simp)
  with transfer_routed [OF routes rq obj auth user(1) d(1)]
  have "app E A rq w = try_catch (ok_json 201 PTransaction
      (transfer_service E (api_threshold A) f t (Some a) (js_string (js_get d ''description'')))) errorHandler w"
    by (simp add: app_split [OF rq(3)])
  with transfer_answered [OF at b, of "api_threshold A" f t] show ?thesis by simp
qed

lemma wallet_safe: "db_safe d \<Longrightarrow> wallet_of d f = Some w \<Longrightarrow> list_all isSafeInteger (wallet_int8s w)"
  by (auto simp: db_safe_def wallet_of_def dest!: find_SomeD)

lemma served_wallet:
  assumes env: "quiet E" "db_safe (database w)"
    and routes: "express_routes (api_express A) ''GET'' ''/api/wallets/me'' ''/api/wallets'' ''/me''"
    and rq: "rq_method rq = ''GET''" "rq_url rq = ''/api/wallets/me''" "rq_body rq = Inr v"
    and auth: "authenticate (token_verify (api_jwt A) (api_secret A) (clock E (trace w))) (rq_authorization rq) = Inr u"
    and f: "au_id u = Some f" and x: "bank_of (database w) f = Some x"
  shows "\<exists>W w'. app E A rq w = (Inr \<lparr>rsp_status = 200, rsp_body = PWallet W\<rparr>, w') \<and> wallet_balance W = x \<and>
    tables (database w') = tables (database w)"
proof -
  from x obtain r where r: "wallet_of (database w) f = Some r" "w_balance r = x" by (auto simp: bank_of_def)
  let ?w' = "after_read E ''wallets.findByUserId'' w"
  have "wallet_of (at_query E ''wallets.findByUserId'' w) f = Some r"
    using r(1) by (simp add: wallet_of_def at_query_def)
  then have "wallet_getByUserId E f w = (Inr (toWallet r), ?w')"
    using wallet_safe [OF env(2) r(1)]
    by (simp add: wallet_getByUserId_def wallets_findByUserId_def await_def query_quiet_read [OF env(1)]
        optional_row_def parse_int8s_safe)
  with wallet_routed [OF routes rq(1,2) auth] f
  have "app E A rq w = (Inr \<lparr>rsp_status = 200, rsp_body = PWallet (toWallet r)\<rparr>, ?w')"
    by (simp add: app_split [OF rq(3)] handle_def wallet_controller_getMyWallet_def req_user_def bigint_param_def
        ok_json_def try_catch_def await_def)
  then show ?thesis using r(2) by (simp add: toWallet_def)
qed

text \<open>The body of the form, as it arrives.\<close>

lemma sent_payload_conforms:
  fixes s :: tform
  assumes "canSubmit s" "js_get (tf_recipient s) ''id'' = JInt t" "0 < t" "isSafeInteger t"
    "balance_value s = JInt b" "b \<le> MAX_SAFE_INTEGER" "length (tf_description s) \<le> 255"
  shows "\<exists>a. conforms transferBody (json_copy (transfer_payload s)) \<and>
    js_get (json_copy (transfer_payload s)) ''toUserId'' = JInt t \<and>
    js_get (json_copy (transfer_payload s)) ''amount'' = JInt a \<and>
    parseAmount (tf_amountInput s) = Some (Fin a) \<and> 0 < a \<and> a \<le> b"
proof -
  have copy: "js_get (json_copy (transfer_payload s)) k = json_copy (js_get (transfer_payload s) k)" for k
    unfolding transfer_payload_def by (rule js_get_json_copy) simp
  from transfer_payload_conforms [OF assms] obtain a where a: "conforms transferBody (transfer_payload s)"
    "js_get (transfer_payload s) ''toUserId'' = JInt t" "js_get (transfer_payload s) ''amount'' = JInt a"
    "parseAmount (tf_amountInput s) = Some (Fin a)" "0 < a" "a \<le> b" by blast
  from a(1) have "js_get (transfer_payload s) ''description'' = JUndefined \<or>
      (\<exists>d. js_get (transfer_payload s) ''description'' = JStr d)"
    by (rule conforms_transferBody) blast
  with a(1-3) have "conforms transferBody (json_copy (transfer_payload s))"
    by (auto simp: transferBody_def copy) (simp_all add: transfer_payload_def)
  with a copy show ?thesis by simp
qed

section \<open>The browser's side\<close>

text \<open>What a request gives, by the answer of the server.\<close>

lemma receive_answer:
  "fetch_answer E (wb_trace s) = Response st text (Some v) \<Longrightarrow> 200 \<le> st \<Longrightarrow> st \<le> 299 \<Longrightarrow> st \<noteq> 204 \<Longrightarrow>
   receive E token s = (Inr v, meanwhile E (wb_trace s) s)"
  by (simp add: receive_def await_def)

lemma js_get_error:
  "js_get (json_of_error code msg details) ''error'' = JObject ([(''code'', JStr code), (''message'', JStr msg)] @
     (case details of None \<Rightarrow> [] | Some is \<Rightarrow> [(''details'', JArray (map json_of_issue is))]))"
  by (simp add: json_of_error_def js_get_def)

lemma receive_error:
  assumes "fetch_answer E (wb_trace s) = Response st text (Some (json_of_error code msg details))"
    and "\<not> (200 \<le> st \<and> st \<le> 299)" "st \<noteq> 401"
  shows "\<exists>x. receive E token s = (Inl (ApiError st (JStr code) (JStr msg) x), meanwhile E (wb_trace s) s)"
proof -
  have "st \<noteq> 204" using assms(2) by auto
  moreover have "\<not> nullish (json_of_error code msg details)" by (simp add: nullish_def json_of_error_def)
  ultimately show ?thesis
    using assms
    by (cases details) (auto simp: receive_def await_def Let_def js_get_error or_else_def nullish_def js_get_Cons)
qed

lemma transfer_answer_status:
  "transfer_answer f t a b = Inl (st, code) \<Longrightarrow> st = 400 \<or> st = 404 \<or> st = 422"
  by (auto simp: transfer_answer_def split: if_splits option.splits)

text \<open>The request of the form.\<close>

definition transfer_fetch :: "tform \<Rightarrow> web_ev" where
  "transfer_fetch s = WFetch ''POST'' ''/api/transfers'' []
     (if js_truthy (auth_token s) then auth_token s else JUndefined) (transfer_payload s)"

definition starts_sending :: "tform \<Rightarrow> tform" where
  "starts_sending s = clearTimeout (tf_pollTimer s) (s\<lparr>tf_error := JStr [], tf_submitting := True\<rparr>)"

lemma starts_sending_frame [simp]:
  "wb_trace (starts_sending s) = wb_trace s" "auth_token (starts_sending s) = auth_token s"
  "transfer_payload (starts_sending s) = transfer_payload s" "tf_error (starts_sending s) = JStr []"
  by (simp_all add: starts_sending_def auth_token_def clearTimeout_def transfer_payload_def amount_def)

text \<open>The state once the request is answered, before its answer is looked at.\<close>

definition when_answered :: "tform web_env \<Rightarrow> tform \<Rightarrow> tform" where
  "when_answered E s = meanwhile E (wb_trace s @ [transfer_fetch s])
     (starts_sending s\<lparr>wb_trace := wb_trace s @ [transfer_fetch s]\<rparr>)"

lemma submit_sends:
  "transferApi_create E (transfer_payload s) (starts_sending s) =
   receive E (auth_token s) (starts_sending s\<lparr>wb_trace := wb_trace s @ [transfer_fetch s]\<rparr>)"
  by (simp add: transferApi_create_def http_post_def request_emits transfer_fetch_def)

lemma watch_username_frame [simp]:
  "tf_error (watch_username s) = tf_error s" "tf_result (watch_username s) = tf_result s"
  "wb_toasts (watch_username s) = wb_toasts s" "tf_submitting (watch_username s) = tf_submitting s"
  "tf_amountInput (watch_username s) = tf_amountInput s"
  by (simp_all add: watch_username_def timer_defs)

lemma submit_cases:
  assumes "canSubmit s"
  shows "final (submit E) s = watch_username ((final (try_catch (submit_body E)
    (\<lambda>err. modify (\<lambda>s. s\<lparr>tf_error := we_message err\<rparr>))) (starts_sending s))\<lparr>tf_submitting := False\<rparr>)"
  using assms
  by (simp add: submit_def starts_sending_def await_def try_finally_def try_catch_def split: prod.splits sum.splits)

lemma submit_refused:
  assumes "canSubmit s"
    and "fetch_answer E (wb_trace s @ [transfer_fetch s]) = Response st text (Some (json_of_error code msg details))"
    and "\<not> (200 \<le> st \<and> st \<le> 299)" "st \<noteq> 401"
  shows "tf_error (final (submit E) s) = JStr msg \<and>
    tf_amountInput (final (submit E) s) = tf_amountInput (when_answered E s) \<and>
    \<not> tf_submitting (final (submit E) s)"
proof -
  let ?s1 = "starts_sending s\<lparr>wb_trace := wb_trace s @ [transfer_fetch s]\<rparr>"
  from receive_error [of E ?s1 st "text" code msg details "auth_token s"] assms(2-4) obtain x where
    "receive E (auth_token s) ?s1 = (Inl (ApiError st (JStr code) (JStr msg) x), when_answered E s)"
    by (auto simp: when_answered_def)
  then have "submit_body E (starts_sending s) = (Inl (ApiError st (JStr code) (JStr msg) x), when_answered E s)"
    by (simp add: submit_body_def await_def submit_sends)
  then show ?thesis by (simp add: submit_cases [OF assms(1)] try_catch_def ApiError_def)
qed

lemma field_object [simp]: "field (JObject kvs) k s = (Inr (js_get (JObject kvs) k), s)"
  by (simp add: field_def nullish_def)

lemma js_get_transaction [simp]:
  "js_get (json_of_transaction T) ''id'' = JStr (tx_id T)"
  "js_get (json_of_transaction T) ''amount'' = JInt (tx_amount T)"
  "js_get (json_of_transaction T) ''description'' = json_option JStr (tx_description T)"
  "js_get (json_of_transaction T) ''receiptStatus'' = JStr (status_name (tx_receiptStatus T))"
  "js_get (json_of_transaction T) ''receiptUrl'' = json_option JStr (tx_receiptUrl T)"
  "js_get (json_of_transaction T) ''createdAt'' = json_date (tx_createdAt T)"
  "js_get (json_of_transaction T) ''from'' = json_of_party (tx_from T)"
  "js_get (json_of_transaction T) ''to'' = json_of_party (tx_to T)"
  by (simp_all add: json_of_transaction_def js_get_def)

lemma js_get_party [simp]:
  "js_get (json_of_party p) ''userId'' = JInt (p_userId p)"
  "js_get (json_of_party p) ''username'' = JStr (p_username p)"
  "js_get (json_of_party p) ''fullName'' = JStr (p_fullName p)"
  by (simp_all add: json_of_party_def js_get_def)

lemma field_transaction [simp]:
  "field (json_of_transaction T) k s = (Inr (js_get (json_of_transaction T) k), s)"
  "field (json_of_party p) k s = (Inr (js_get (json_of_party p) k), s)"
  by (simp_all add: json_of_transaction_def json_of_party_def)

lemma submit_accepted:
  assumes "canSubmit s"
    and "fetch_answer E (wb_trace s @ [transfer_fetch s]) = Response 201 text (Some (json_of_transaction T))"
  shows "tf_result (final (submit E) s) = json_of_transaction T \<and>
    tf_error (final (submit E) s) = tf_error (when_answered E s) \<and>
    (\<exists>i. last (wb_toasts (final (submit E) s)) =
      \<lparr>to_id = i, to_title = ''Transfer completed'',
       to_message = formatToman (tx_amount T) @ '' sent to '' @ p_fullName (tx_to T), to_type = ''success''\<rparr>) \<and>
    tf_amountInput (final (submit E) s) = [] \<and> \<not> tf_submitting (final (submit E) s)"
proof -
  let ?s1 = "starts_sending s\<lparr>wb_trace := wb_trace s @ [transfer_fetch s]\<rparr>"
  from receive_answer [of E ?s1 201 "text" "json_of_transaction T" "auth_token s"] assms(2)
  have "receive E (auth_token s) ?s1 = (Inr (json_of_transaction T), when_answered E s)"
    by (simp add: when_answered_def)
  then have "submit_body E (starts_sending s) = (case json_of_transaction T of tx \<Rightarrow>
     (await (modify (\<lambda>s. s\<lparr>tf_result := tx\<rparr>)) (\<lambda>_.
     await (field tx ''amount'') (\<lambda>sent.
     await (field tx ''to'') (\<lambda>to.
     await (field to ''fullName'') (\<lambda>name.
     await (push_toast ''success'' ''Transfer completed''
              (formatToman_value sent @ '' sent to '' @ template_text name) 5000) (\<lambda>_.
     await markActivity (\<lambda>_.
     await (if js_get tx ''receiptStatus'' = JStr ''PENDING'' then pollReceipt (js_get tx ''id'') 0 else ret ()) (\<lambda>_.
     modify (\<lambda>s. s\<lparr>tf_username := [], tf_amountInput := [], tf_description := []\<rparr>))))))))) (when_answered E s))"
    by (simp add: submit_body_def await_def submit_sends)
  then show ?thesis
    by (simp add: submit_cases [OF assms(1)] try_catch_def await_def push_toast_def markActivity_def emit_def
        pollReceipt_def setTimeout_def formatToman_value_def)
qed

section \<open>A server to try it on\<close>

definition demo_wire :: http_wire where
  "demo_wire = \<lparr>hw_body = (\<lambda>v. Inr (json_copy v)),
     hw_query = (\<lambda>qs. JObject (map (\<lambda>(k, v). (k, JStr (template_text v))) qs)),
     hw_search = (\<lambda>qs. CHR ''?'' # concat (map (\<lambda>(k, v). k @ ''='' @ template_text v @ ''&'') qs)),
     hw_statusText = (\<lambda>_. []), hw_uptime = 1\<rparr>"

definition demo_server :: server where
  "demo_server = \<lparr>sv_env = demo_env, sv_api = demo_api, sv_wire = demo_wire, sv_others = (\<lambda>_ w. w),
     sv_start = demo_world\<rparr>"

text \<open>The form of the demo, signed in at that server.\<close>

definition signed_in_form :: tform where
  "signed_in_form = demo_form\<lparr>wb_session := JObject [(''token'', JStr (demo_token 1 ''ali'' ''USER''))]\<rparr>"

lemma demo_server_simps [simp]:
  "sv_env demo_server = demo_env" "sv_api demo_server = demo_api" "sv_wire demo_server = demo_wire"
  "server_at demo_server [] = demo_world" "hw_body demo_wire v = Inr (json_copy v)"
  by (simp_all add: demo_server_def demo_wire_def server_at_def)

lemma signed_in_form_simps:
  "wb_trace signed_in_form = []" "auth_token signed_in_form = JStr (demo_token 1 ''ali'' ''USER'')"
  "js_get (tf_recipient signed_in_form) ''id'' = JInt 2" "tf_description signed_in_form = ''Rent''"
  "tf_amountInput signed_in_form = ''1,200''" "balance_value signed_in_form = JInt 5000"
  by (simp_all add: signed_in_form_def demo_form_def auth_token_def session_defs balance_value_def)

lemma canSubmit_signed_in: "canSubmit signed_in_form"
  by (simp add: canSubmit_def signed_in_form_def demo_form_def amount_def exceedsBalance_def balance_value_def
      parseAmount_def is_digit_def digits_value_def digit_value_def to_double_def greater_def js_truthy_def js_get_def
      or_else_def nullish_def)

lemma demo_zod_admits: "zod_admits (api_zod demo_api) sch ks"
  by (simp add: zod_admits_def demo_api_def demo_zod_def)

lemma demo_express_routes:
  "express_routes (api_express demo_api) ''POST'' ''/api/transfers'' ''/api/transfers'' ''/''"
  "express_routes (api_express demo_api) ''GET'' ''/api/wallets/me'' ''/api/wallets'' ''/me''"
  by (simp_all add: express_routes_def demo_api_def demo_express_def createRouter_def)

lemma demo_bearer:
  "bearer demo_api (clock demo_env (trace demo_world)) (JStr (demo_token 1 ''ali'' ''USER''))
     \<lparr>au_id = Some 1, au_role = ''USER'', au_username = ''ali'', au_expiresAt = 4100000\<rparr>"
proof -
  have "demo_token 1 ''ali'' ''USER'' \<noteq> []"
    using enc_text_word by (simp add: demo_token_def demo_jwt_def)
  then show ?thesis
    using bearer_demo_token [of 500000 1 "''ali''" "''USER''"]
    by (simp add: bearer_def demo_env_def demo_api_def js_truthy_def)
qed

section \<open>Properties\<close>

text \<open>C5: from the button to the accounts, with no fault and no other session acting. A form whose button is enabled, in a browser whose token the
  server accepts: the press debits and credits exactly the amount in the field, or changes no table.
  Which of the two, and with which error, is what the API promises over the balances the server holds
  when the request arrives, which may be others than those shown. When the money has moved, the form
  shows the transaction of the server, with its parties, its amount and whether a receipt is due, and
  announces it; when it was refused, the form shows the server's reason and keeps the amount.\<close>

theorem button_moves_the_money:
  fixes s :: tform
  assumes form: "canSubmit s" "js_get (tf_recipient s) ''id'' = JInt t" "0 < t" "isSafeInteger t"
      "balance_value s = JInt b" "b \<le> MAX_SAFE_INTEGER" "length (tf_description s) \<le> 255"
    and server: "server_at S (wb_trace s) = w" "transfer_at (sv_env S) w"
    and session: "bearer (sv_api S) (clock (sv_env S) (trace w)) (auth_token s) u"
      "au_role u = ROLE_USER \<or> au_role u = ROLE_ADMIN" "au_id u = Some f"
    and outside: "zod_sound (api_zod (sv_api S))"
      "zod_admits (api_zod (sv_api S)) transferBody {''toUserId'', ''amount'', ''description''}"
      "express_routes (api_express (sv_api S)) ''POST'' ''/api/transfers'' ''/api/transfers'' ''/''"
      "hw_body (sv_wire S) (transfer_payload s) = Inr (json_copy (transfer_payload s))"
    and meanwhile: "\<And>tr x. tf_error (meanwhile E tr x) = tf_error x"
      "\<And>tr x. tf_amountInput (meanwhile E tr x) = tf_amountInput x"
  shows "\<exists>a s' w'. final (submit (connected S E)) s = s' \<and> served S (wb_trace s @ [transfer_fetch s]) = w' \<and>
    parseAmount (tf_amountInput s) = Some (Fin a) \<and> 0 < a \<and> a \<le> b \<and>
    (case transfer_answer f t a (bank_of (database w)) of
       Inl (status, code) \<Rightarrow> tables (database w') = tables (database w) \<and>
         tf_error s' = JStr (refusal_message code) \<and> tf_amountInput s' = tf_amountInput s
     | Inr accounts \<Rightarrow> bank_of (database w') = accounts \<and> tf_error s' = JStr [] \<and> tf_amountInput s' = [] \<and>
         (\<exists>T i. tf_result s' = json_of_transaction T \<and> tx_amount T = a \<and> p_userId (tx_from T) = f \<and>
            p_userId (tx_to T) = t \<and>
            tx_receiptStatus T = (if a > api_threshold (sv_api S) then PENDING else NOT_REQUIRED) \<and>
            last (wb_toasts s') = \<lparr>to_id = i, to_title = ''Transfer completed'',
              to_message = formatToman a @ '' sent to '' @ p_fullName (tx_to T), to_type = ''success''\<rparr>))"
proof -
  let ?v = "transfer_payload s" and ?e = "transfer_fetch s"
  obtain a where a: "conforms transferBody (json_copy ?v)" "js_get (json_copy ?v) ''toUserId'' = JInt t"
    "js_get (json_copy ?v) ''amount'' = JInt a" "parseAmount (tf_amountInput s) = Some (Fin a)" "0 < a" "a \<le> b"
    using sent_payload_conforms [OF form] by blast
  obtain rq where rq: "http_request_of (sv_wire S) ?e = Some rq" "rq_method rq = ''POST''" "rq_url rq = ''/api/transfers''"
    "rq_body rq = Inr (json_copy ?v)" "rq_authorization rq = Some (''Bearer '' @ template_text (auth_token s))"
    using session(1) outside(4) by (simp add: transfer_fetch_def http_request_of_def bearer_def)
  have auth: "authenticate (token_verify (api_jwt (sv_api S)) (api_secret (sv_api S)) (clock (sv_env S) (trace w)))
      (rq_authorization rq) = Inr u"
    using session(1) by (simp add: rq(5) bearer_def)
  from served_transfer [OF server(2) outside(1-3) rq(2-4) auth session(2,3) a(1-3)]
  obtain rsp w' where app: "app (sv_env S) (sv_api S) rq (server_at S (wb_trace s)) = (Inr rsp, w')"
    and rsp: "case transfer_answer f t a (bank_of (database w)) of
       Inl (status, code) \<Rightarrow> rsp_status rsp = status \<and> rsp_body rsp = PError code (refusal_message code) None \<and>
         tables (database w') = tables (database w)
     | Inr b \<Rightarrow> rsp_status rsp = 201 \<and> bank_of (database w') = b \<and>
         (\<exists>T. rsp_body rsp = PTransaction (Some T) \<and> tx_amount T = a \<and> p_userId (tx_from T) = f \<and>
            p_userId (tx_to T) = t \<and>
            tx_receiptStatus T = (if a > api_threshold (sv_api S) then PENDING else NOT_REQUIRED))"
    by (auto simp: server(1))
  note answer = answer_request [OF rq(1) app]
  have served: "served S (wb_trace s @ [?e]) = w'" by (rule answer(2))
  let ?E = "connected S E"
  have kept: "tf_error (when_answered ?E s) = JStr []" "tf_amountInput (when_answered ?E s) = tf_amountInput s"
    by (simp_all add: when_answered_def meanwhile starts_sending_def clearTimeout_def)
  show ?thesis
  proof (cases "transfer_answer f t a (bank_of (database w))")
    case (Inl p)
    obtain status code where p: "p = (status, code)" by (cases p)
    from rsp Inl p have r: "fetch_answer ?E (wb_trace s @ [?e]) =
        Response status (hw_statusText (sv_wire S) status) (Some (json_of_error code (refusal_message code) None))"
      "tables (database w') = tables (database w)"
      using answer(1) by (simp_all add: fetch_result_of_def json_of_payload_def)
    have "\<not> (200 \<le> status \<and> status \<le> 299)" "status \<noteq> 401" using transfer_answer_status [OF Inl [unfolded p]] by auto
    from submit_refused [OF form(1) r(1) this] r(2) Inl p a(4-6) served kept show ?thesis by simp
  next
    case (Inr accounts)
    with rsp obtain T where T: "rsp_status rsp = 201" "bank_of (database w') = accounts"
      "rsp_body rsp = PTransaction (Some T)" "tx_amount T = a" "p_userId (tx_from T) = f" "p_userId (tx_to T) = t"
      "tx_receiptStatus T = (if a > api_threshold (sv_api S) then PENDING else NOT_REQUIRED)" by auto
    have "fetch_answer ?E (wb_trace s @ [?e]) =
        Response 201 (hw_statusText (sv_wire S) 201) (Some (json_of_transaction T))"
      using answer(1) T by (simp add: fetch_result_of_def json_of_payload_def json_option_def)
    from submit_accepted [OF form(1) this] T Inr a(4-6) served kept show ?thesis by auto
  qed
qed

abbreviation demo_signed_in :: auth_user where
  "demo_signed_in \<equiv> \<lparr>au_id = Some 1, au_role = ''USER'', au_username = ''ali'', au_expiresAt = 4100000\<rparr>"

theorem button_moves_the_money_witness:
  "tf_error (final (submit (connected demo_server (quiet_env NetworkFailure))) signed_in_form) = JStr [] \<and>
   js_get (tf_result (final (submit (connected demo_server (quiet_env NetworkFailure))) signed_in_form)) ''amount'' = JInt 1200 \<and>
   bank_of (database (served demo_server [transfer_fetch signed_in_form])) 2 = Some 11001200"
proof -
  have form: "js_get (tf_recipient signed_in_form) ''id'' = JInt 2" "0 < (2 :: int)" "isSafeInteger 2"
    "balance_value signed_in_form = JInt 5000" "5000 \<le> MAX_SAFE_INTEGER" "length (tf_description signed_in_form) \<le> 255"
    by (simp_all add: signed_in_form_simps isSafeInteger_def MAX_SAFE_INTEGER_def)
  have server: "server_at demo_server (wb_trace signed_in_form) = demo_world" "transfer_at (sv_env demo_server) demo_world"
    using demo_transfer_at by (simp_all add: signed_in_form_simps)
  have session: "bearer (sv_api demo_server) (clock (sv_env demo_server) (trace demo_world)) (auth_token signed_in_form)
      demo_signed_in" "au_role demo_signed_in = ROLE_USER \<or> au_role demo_signed_in = ROLE_ADMIN"
    "au_id demo_signed_in = Some 1"
    using demo_bearer by (simp_all add: signed_in_form_simps ROLE_USER_def)
  have outside: "zod_sound (api_zod (sv_api demo_server))"
    "zod_admits (api_zod (sv_api demo_server)) transferBody {''toUserId'', ''amount'', ''description''}"
    "express_routes (api_express (sv_api demo_server)) ''POST'' ''/api/transfers'' ''/api/transfers'' ''/''"
    "hw_body (sv_wire demo_server) (transfer_payload signed_in_form) = Inr (json_copy (transfer_payload signed_in_form))"
    using demo_zod_sound demo_zod_admits demo_express_routes by (simp_all add: demo_api_def)
  have meanwhile: "tf_error (meanwhile (quiet_env NetworkFailure) tr x) = tf_error x"
    "tf_amountInput (meanwhile (quiet_env NetworkFailure) tr x) = tf_amountInput x" for tr x
    by (simp_all add: quiet_env_def)
  have amount: "parseAmount (tf_amountInput signed_in_form) = Some (Fin 1200)"
    by (simp add: signed_in_form_simps parseAmount_def is_digit_def digits_value_def digit_value_def to_double_def)
  have "transfer_answer 1 2 1200 (bank_of (database demo_world)) =
      Inr ((bank_of demo_db)(1 \<mapsto> 13998800, 2 \<mapsto> 11001200))"
    by (simp add: transfer_answer_def) (simp add: demo_defs bank_of_def wallet_of_def)
  with button_moves_the_money [OF canSubmit_signed_in form server session outside meanwhile] amount
  show ?thesis by (auto simp: signed_in_form_simps)
qed

text \<open>The balance that is shown is the server's. A refresh of the wallet, which every transfer and every
  notification starts, asks for the wallet of the user of the token and shows the balance the server
  holds when the request arrives; it changes no table, and the sign of loading is gone when it ends.\<close>

lemma refreshed_balance_is_the_servers:
  fixes s :: tform
  assumes server: "server_at S (wb_trace s) = w" "quiet (sv_env S)" "db_safe (database w)"
      "bank_of (database w) f = Some x"
    and session: "bearer (sv_api S) (clock (sv_env S) (trace w)) (auth_token s) u" "au_id u = Some f"
    and outside: "express_routes (api_express (sv_api S)) ''GET'' ''/api/wallets/me'' ''/api/wallets'' ''/me''"
      "hw_body (sv_wire S) JUndefined = Inr JUndefined"
  shows "\<exists>s'. wallet_refresh (connected S E) s = (Inr (), s') \<and> balance_value s' = JInt x \<and> \<not> wb_loading s' \<and>
    tables (database (served S (wb_trace s @
      [WFetch ''GET'' ''/api/wallets/me'' [] (auth_token s) JUndefined]))) = tables (database w)"
proof -
  let ?e = "WFetch ''GET'' ''/api/wallets/me'' [] (auth_token s) JUndefined"
  let ?s1 = "s\<lparr>wb_loading := True, wb_trace := wb_trace s @ [?e]\<rparr>"
  have truthy: "js_truthy (auth_token s)" using session(1) by (simp add: bearer_def)
  then obtain rq where rq: "http_request_of (sv_wire S) ?e = Some rq" "rq_method rq = ''GET''"
    "rq_url rq = ''/api/wallets/me''" "rq_body rq = Inr JUndefined"
    "rq_authorization rq = Some (''Bearer '' @ template_text (auth_token s))"
    using outside(2) by (simp add: http_request_of_def)
  have auth: "authenticate (token_verify (api_jwt (sv_api S)) (api_secret (sv_api S)) (clock (sv_env S) (trace w)))
      (rq_authorization rq) = Inr u"
    using session(1) by (simp add: rq(5) bearer_def)
  from served_wallet [OF server(2,3) outside(1) rq(2-4) auth session(2) server(4)] obtain W w' where
    app: "app (sv_env S) (sv_api S) rq (server_at S (wb_trace s)) = (Inr \<lparr>rsp_status = 200, rsp_body = PWallet W\<rparr>, w')"
    and W: "wallet_balance W = x" "tables (database w') = tables (database w)"
    by (auto simp: server(1))
  note answer = answer_request [OF rq(1) app]
  have token: "auth_token (s\<lparr>wb_loading := True\<rparr>) = auth_token s" by (simp add: auth_token_def)
  have "receive (connected S E) (auth_token s) ?s1 = (Inr (json_of_wallet W), meanwhile E (wb_trace ?s1) ?s1)"
    using receive_answer [of "connected S E" ?s1 200 "hw_statusText (sv_wire S) 200" "json_of_wallet W" "auth_token s"]
      answer(1) by (simp add: fetch_result_of_def json_of_payload_def)
  then have "wallet_refresh (connected S E) s =
      (Inr (), (meanwhile E (wb_trace ?s1) ?s1)\<lparr>wb_wallet := json_of_wallet W, wb_loading := False\<rparr>)"
    by (simp add: wallet_refresh_def walletApi_me_def http_get_def request_emits await_def try_finally_def token truthy)
  moreover have "balance_value (y\<lparr>wb_wallet := json_of_wallet W, wb_loading := False\<rparr>) = JInt x" for y :: tform
    using W(1) by (simp add: balance_value_def json_of_wallet_def js_get_def or_else_def nullish_def)
  ultimately show ?thesis using answer(2) W(2) by auto
qed

lemma refreshed_balance_is_the_servers_witness:
  "\<exists>s'. wallet_refresh (connected demo_server (quiet_env NetworkFailure)) signed_in_form = (Inr (), s') \<and>
     balance_value s' = JInt 14000000"
proof -
  have server: "server_at demo_server (wb_trace signed_in_form) = demo_world" "quiet (sv_env demo_server)"
    "db_safe (database demo_world)"
    by (simp_all add: signed_in_form_simps quiet_demo db_safe_demo)
  have x: "bank_of (database demo_world) 1 = Some 14000000" by (simp add: demo_defs bank_of_def wallet_of_def)
  have session: "bearer (sv_api demo_server) (clock (sv_env demo_server) (trace demo_world)) (auth_token signed_in_form)
      demo_signed_in" "au_id demo_signed_in = Some 1"
    using demo_bearer by (simp_all add: signed_in_form_simps)
  have outside: "express_routes (api_express (sv_api demo_server)) ''GET'' ''/api/wallets/me'' ''/api/wallets'' ''/me''"
    "hw_body (sv_wire demo_server) JUndefined = Inr JUndefined"
    using demo_express_routes by simp_all
  from refreshed_balance_is_the_servers [OF server x session outside, of "quiet_env NetworkFailure"]
  show ?thesis by blast
qed

end
