(* ===== verification/Web_Nodes.thy ===== *)
theory Web_Nodes
  imports Web_Views
begin

text \<open>
  The trees that the templates of the components render, and what is read off them: the text they show,
  the links they hold and the controls that can be used.

  A template binds text only as text nodes and attribute values. An element is the one the template
  writes; the elements of the libraries (\<open>RouterLink\<close>, \<open>TransitionGroup\<close>) are kept as elements, the
  program's own components are replaced by what they render. An attribute bound to nothing is absent.
  Styles are left out, classes are kept. As in \<open>Web_Text\<close>, a character outside the code units below 256
  is written as \<open>...\<close> or \<open>-\<close>, or by the name of its HTML entity.
\<close>

section \<open>Trees\<close>

text \<open>What a control of a page does, as the templates write it after \<open>@click\<close>, \<open>@submit\<close> and \<open>@input\<close>.\<close>

datatype ui_act =
    GoTo string
  | SignOutClicked
  | RefreshClicked
  | DismissClicked int
  | SubmitTransfer
  | AmountTyped
  | AmountClicked int
  | LoadClicked "js_value option"
  | SubmitLogin
  | DemoClicked "string \<times> string"
  | SubmitRegister

datatype attr = Attr string string | Disabled | On ui_act | Model string

datatype node = Text string | Elem string "attr list" "node list"

abbreviation el :: "string \<Rightarrow> string \<Rightarrow> node list \<Rightarrow> node" where
  "el tag cls ns \<equiv> Elem tag [Attr ''class'' cls] ns"

text \<open>\<open>{{ v }}\<close>, and an attribute bound to a value.\<close>

definition show_text :: "js_value \<Rightarrow> string" where
  "show_text v = (if nullish v then [] else template_text v)"

definition bound :: "string \<Rightarrow> js_value \<Rightarrow> attr list" where
  "bound k v = (if nullish v then [] else [Attr k (template_text v)])"

definition disabled_if :: "bool \<Rightarrow> attr list" where
  "disabled_if b = (if b then [Disabled] else [])"

text \<open>\<open>v-if\<close> on an element.\<close>

definition shown_if :: "bool \<Rightarrow> node \<Rightarrow> node list" where
  "shown_if b n = (if b then [n] else [])"

section \<open>What is read off a tree\<close>

fun page_text :: "node \<Rightarrow> string" where
  "page_text (Text t) = t"
| "page_text (Elem tag as ns) = concat (map page_text ns)"

definition submit_button :: "string \<Rightarrow> attr list \<Rightarrow> bool" where
  "submit_button tag as \<longleftrightarrow> tag = ''button'' \<and> Attr ''type'' ''submit'' \<in> set as \<and> Disabled \<notin> set as"

fun has_submit :: "node \<Rightarrow> bool" where
  "has_submit (Text t) = False"
| "has_submit (Elem tag as ns) = (submit_button tag as \<or> list_ex has_submit ns)"

fun act_of :: "attr \<Rightarrow> ui_act list" where
  "act_of (On a) = [a]"
| "act_of _ = []"

text \<open>
  The constraints of HTML on the value \<open>v\<close> of a field its user has edited: \<open>required\<close>, and
  \<open>minlength\<close> and \<open>maxlength\<close> in characters, where an empty field is never too short.
\<close>

fun constraint_holds :: "string \<Rightarrow> attr \<Rightarrow> bool" where
  "constraint_holds v (Attr k x) =
     (if k = ''required'' then v \<noteq> []
      else if k = ''minlength'' then v = [] \<or> digits_value x \<le> length v
      else if k = ''maxlength'' then length v \<le> digits_value x
      else True)"
| "constraint_holds v _ = True"

fun models :: "attr \<Rightarrow> string list" where
  "models (Model v) = [v]"
| "models _ = []"

fun fields_valid :: "node \<Rightarrow> bool" where
  "fields_valid (Text t) = True"
| "fields_valid (Elem tag as ns) =
     ((tag = ''input'' \<longrightarrow> list_all (\<lambda>v. list_all (constraint_holds v) as) (concat (map models as))) \<and>
      list_all fields_valid ns)"

text \<open>
  The controls that can be used: a disabled element has none, and a form is only submitted through its
  button, also by the keyboard, and only when all its fields satisfy their constraints (no form of the
  program has \<open>novalidate\<close>).
\<close>

fun controls :: "node \<Rightarrow> ui_act list" where
  "controls (Text t) = []"
| "controls (Elem tag as ns) =
     (if Disabled \<in> set as \<or> (tag = ''form'' \<and> \<not> (list_ex has_submit ns \<and> list_all fields_valid ns)) then [] else concat (map act_of as)) @
     concat (map controls ns)"

text \<open>Where its anchors lead outside the application: the targets of \<open>a\<close> elements.\<close>

fun href_of :: "attr \<Rightarrow> string list" where
  "href_of (Attr k v) = (if k = ''href'' then [v] else [])"
| "href_of _ = []"

fun hrefs :: "node \<Rightarrow> string list" where
  "hrefs (Text t) = []"
| "hrefs (Elem tag as ns) = (if tag = ''a'' then concat (map href_of as) else []) @ concat (map hrefs ns)"

text \<open>The rows of the tables: the text of each cell.\<close>

fun cells :: "node \<Rightarrow> string list" where
  "cells (Text t) = []"
| "cells (Elem tag as ns) = (if tag = ''td'' then [page_text (Elem tag as ns)] else concat (map cells ns))"

fun table_rows :: "node \<Rightarrow> string list list" where
  "table_rows (Text t) = []"
| "table_rows (Elem tag as ns) =
     (if tag = ''tr'' \<and> concat (map cells ns) \<noteq> [] then [concat (map cells ns)] else concat (map table_rows ns))"

lemmas node_reads = show_text_def bound_def disabled_if_def shown_if_def submit_button_def

text \<open>\<open>RouterLink\<close>: an element, and the navigation it starts.\<close>

definition router_link :: "string \<Rightarrow> attr list \<Rightarrow> node list \<Rightarrow> node" where
  "router_link path as ns = Elem ''RouterLink'' ([Attr ''to'' path, On (GoTo path)] @ as) ns"

definition button :: "string \<Rightarrow> attr list \<Rightarrow> ui_act \<Rightarrow> node list \<Rightarrow> node" where
  "button cls as a ns = Elem ''button'' ([Attr ''class'' cls, Attr ''type'' ''button''] @ as @ [On a]) ns"

definition spinner_if :: "bool \<Rightarrow> node list" where
  "spinner_if b = shown_if b (el ''span'' ''spinner'' [])"

definition alert :: "js_value \<Rightarrow> node" where
  "alert msg = el ''div'' ''alert alert-error'' [Text (show_text msg)]"

end
