(* ===== verification/Web_Pages.thy ===== *)
theory Web_Pages
  imports Web_Nodes
begin

text \<open>
  The templates of the components of \<open>src/frontend/src/components/\<close> and of the pages of
  \<open>src/frontend/src/views/\<close>, as functions from the state to the tree they render. The rendering of a
  date is a parameter, as is the receipt threshold the build is configured with. What the server sends
  is taken to have the fields its JSON has; a missing one shows as \<open>undefined\<close>.
\<close>

section \<open>Components\<close>

text \<open>\<open>formatNumber\<close> of what the server sent.\<close>

definition formatNumber_value :: "js_value \<Rightarrow> string" where
  "formatNumber_value v = (case or_else v (JInt 0) of JInt n \<Rightarrow> format_en_US n | _ \<Rightarrow> template_text v)"

definition StatusBadge :: "js_value \<Rightarrow> node" where
  "StatusBadge status =
     (case variant (template_text status) of (label, tone) \<Rightarrow>
        el ''span'' (''badge '' @ tone)
          (shown_if (status = JStr ''PENDING'') (el ''span'' ''pulse'' []) @ [Text label]))"

definition EmptyState :: "string \<Rightarrow> string \<Rightarrow> node" where
  "EmptyState title description =
     el ''div'' ''empty''
       ([el ''div'' ''icon'' [Text ''&empty;''], Elem ''strong'' [] [Text title]] @
        shown_if (description \<noteq> []) (el ''p'' ''muted'' [Text description]))"

definition PaginationBar :: "js_value \<Rightarrow> node list" where
  "PaginationBar pagination =
     (case (js_get pagination ''page'', js_get pagination ''totalPages'') of
        (JInt page, JInt totalPages) \<Rightarrow>
          shown_if (totalPages > 1)
            (el ''div'' ''pager''
              [el ''span'' ''muted'' [Text (''Page '' @ js_String page @ '' of '' @ js_String totalPages @ '' '' @
                 [CHR 0xB7] @ '' '' @ show_text (js_get pagination ''total'') @ '' items'')],
               el ''div'' ''buttons''
                 [button ''btn btn-ghost btn-sm'' (disabled_if (page \<le> 1)) (LoadClicked (Some (JInt (page - 1))))
                    [Text ''Previous''],
                  button ''btn btn-ghost btn-sm'' (disabled_if (page \<ge> totalPages)) (LoadClicked (Some (JInt (page + 1))))
                    [Text ''Next'']]])
      | _ \<Rightarrow> [])"

definition AuthLayout :: "string \<Rightarrow> string \<Rightarrow> node list \<Rightarrow> node list \<Rightarrow> node" where
  "AuthLayout title subtitle slot footer =
     el ''div'' ''auth''
       [el ''section'' ''intro''
          [el ''div'' ''brand'' [el ''span'' ''brand-mark'' [Text ''W''], Text '' Digital Wallet''],
           Elem ''h1'' [] [Text ''Move money instantly, with every change on the ledger.''],
           Elem ''ul'' []
             [Elem ''li'' [] [Text ''Transfers settle inside a PostgreSQL stored procedure''],
              Elem ''li'' [] [Text ''Every balance change is recorded by a database trigger''],
              Elem ''li'' [] [Text ''Real-time notifications when money arrives''],
              Elem ''li'' [] [Text ''Receipts for transfers above 5,000,000 Toman'']]],
        el ''section'' ''panel''
          ([el ''div'' ''card form-card''
              [el ''div'' ''card-body''
                ([Elem ''h2'' [] [Text title]] @
                 shown_if (subtitle \<noteq> []) (el ''p'' ''muted subtitle'' [Text subtitle]) @ slot)]] @ footer)]"

definition session_field :: "'z web_scheme \<Rightarrow> string \<Rightarrow> js_value" where
  "session_field s k = js_get (session_user (wb_session s)) k"

definition AppHeader :: "'z web_scheme \<Rightarrow> node" where
  "AppHeader s =
     el ''header'' ''header''
       [el ''div'' ''container header-inner''
          [router_link ''/'' [Attr ''class'' ''brand'']
             [el ''span'' ''brand-mark'' [Text ''W''], Elem ''span'' [] [Text ''Digital Wallet'']],
           el ''nav'' ''nav''
             ([router_link ''/'' [Attr ''exact-active-class'' ''active''] [Text ''Dashboard''],
               router_link ''/transactions'' [Attr ''active-class'' ''active''] [Text ''Transactions''],
               router_link ''/ledger'' [Attr ''active-class'' ''active''] [Text ''Ledger'']] @
              shown_if (isAdmin s)
                (router_link ''/admin/transactions'' [Attr ''active-class'' ''active''] [Text ''Admin''])),
           el ''div'' ''account''
             [Elem ''span''
                [Attr ''class'' (''status '' @ wb_status s),
                 Attr ''title'' (''Real-time notifications: '' @
                   (case statusLabel (wb_status s) of Some l \<Rightarrow> l | None \<Rightarrow> ''undefined''))]
                [el ''span'' ''dot'' [], Text (case statusLabel (wb_status s) of Some l \<Rightarrow> l | None \<Rightarrow> [])],
              Elem ''span'' (Attr ''class'' ''avatar'' # bound ''title'' (session_field s ''fullName''))
                [Text (initials (show_text (session_field s ''fullName'')))],
              el ''div'' ''who''
                [Elem ''strong'' [] [Text (show_text (session_field s ''fullName''))],
                 el ''span'' ''muted'' [Text (''@'' @ show_text (session_field s ''username'') @ '' '' @ [CHR 0xB7] @ '' '' @
                   show_text (session_field s ''role''))]],
              button ''btn btn-ghost btn-sm'' [] SignOutClicked [Text ''Sign out'']]]]"

definition BalanceCard :: "'z web_scheme \<Rightarrow> node" where
  "BalanceCard s =
     el ''div'' ''balance card''
       [el ''div'' ''top''
          [el ''span'' ''label'' [Text ''Available balance''],
           button ''refresh'' (Attr ''title'' ''Refresh'' # disabled_if (wb_loading s)) RefreshClicked
             (if wb_loading s then [el ''span'' ''spinner'' []] else [Elem ''span'' [] [Text ''&#8635;'']])],
        el ''div'' ''amount''
          (if js_truthy (wb_wallet s)
           then [Text (formatNumber_value (js_get (wb_wallet s) ''balance'')), Text '' '',
                 el ''span'' ''unit'' [Text ''Toman'']]
           else [el ''span'' ''placeholder'' []]),
        el ''div'' ''meta''
          [Elem ''span'' [] [Text (show_text (session_field s ''fullName''))],
           Elem ''span'' [] [Text (''Wallet #'' @ show_text (or_else (js_get (wb_wallet s) ''id'') (JStr ''-'')) @
             '' '' @ [CHR 0xB7] @ '' User #'' @ show_text (session_field s ''id''))]]]"

definition toast_box :: "toast \<Rightarrow> node" where
  "toast_box t =
     Elem ''div'' [Attr ''class'' (''toast '' @ to_type t), Attr ''role'' ''status'']
       [el ''div'' ''content''
          ([Elem ''strong'' [] [Text (to_title t)]] @
           shown_if (to_message t \<noteq> []) (Elem ''span'' [] [Text (to_message t)])),
        button ''close'' [Attr ''aria-label'' ''Dismiss''] (DismissClicked (to_id t)) [Text [CHR 0xD7]]]"

definition ToastStack :: "'z web_scheme \<Rightarrow> node" where
  "ToastStack s =
     Elem ''div'' [Attr ''class'' ''toasts'', Attr ''aria-live'' ''polite'']
       [Elem ''TransitionGroup'' [Attr ''name'' ''toast''] (map toast_box (wb_toasts s))]"

section \<open>The table of transactions\<close>

text \<open>The link of a generated receipt, or the badge of its status.\<close>

definition receipt_cell :: "js_value \<Rightarrow> node" where
  "receipt_cell tx =
     (if js_get tx ''receiptStatus'' = JStr ''GENERATED''
      then Elem ''a'' (bound ''href'' (js_get tx ''receiptUrl'') @
             [Attr ''target'' ''_blank'', Attr ''rel'' ''noopener'', Attr ''class'' ''receipt-link''])
             [StatusBadge (js_get tx ''receiptStatus''), Text '' '', Elem ''span'' [] [Text ''Download'']]
      else StatusBadge (js_get tx ''receiptStatus''))"

text \<open>A cell with a name above the user name.\<close>

definition party_cell :: "js_value \<Rightarrow> string \<Rightarrow> node" where
  "party_cell tx side =
     Elem ''td'' []
       [Elem ''strong'' [] [Text (sub tx side ''fullName'')],
        el ''div'' ''muted small'' [Text (''@'' @ sub tx side ''username'')]]"

definition counterparty_cell :: "js_value \<Rightarrow> js_value \<Rightarrow> node" where
  "counterparty_cell me tx =
     (let side = (if isIncoming me tx then ''from'' else ''to'') in
      Elem ''td'' []
        [el ''div'' ''party''
          [el ''span'' (''direction '' @ (if isIncoming me tx then ''in'' else ''out''))
             [Text (if isIncoming me tx then ''&darr;'' else ''&uarr;'')],
           Elem ''div'' []
             [Elem ''strong'' [] [Text (sub tx side ''fullName'')],
              el ''div'' ''muted small''
                [Text ((if isIncoming me tx then ''Received from'' else ''Sent to'') @ '' @'' @ sub tx side ''username'')]]]])"

text \<open>The mode is that of a user, whose id is given, or that of the administrator.\<close>

definition transaction_tr :: "(js_value \<Rightarrow> string) \<Rightarrow> js_value option \<Rightarrow> js_value \<Rightarrow> node" where
  "transaction_tr formatDate me tx =
     Elem ''tr'' []
       ([el ''td'' ''nowrap muted'' [Text (formatDate (js_get tx ''createdAt''))]] @
        (case me of Some u \<Rightarrow> [counterparty_cell u tx] | None \<Rightarrow> [party_cell tx ''from'', party_cell tx ''to'']) @
        [el ''td'' ''muted'' [Text (if js_truthy (js_get tx ''description'')
            then template_text (js_get tx ''description'') else ''-'')],
         el ''td'' (''num '' @ (case me of Some u \<Rightarrow> if isIncoming u tx then ''amount-in'' else ''amount-out''
             | None \<Rightarrow> ''amount-out''))
           ((case me of Some u \<Rightarrow> [Text (if isIncoming u tx then ''+'' else ''-'')] | None \<Rightarrow> []) @
            [Text (formatToman_value (js_get tx ''amount''))]),
         Elem ''td'' [] [receipt_cell tx],
         Elem ''td'' (Attr ''class'' ''mono muted'' # bound ''title'' (js_get tx ''id''))
           [Text (shortId (optional_text (js_get tx ''id'')))]])"

definition TransactionTable :: "(js_value \<Rightarrow> string) \<Rightarrow> js_value option \<Rightarrow> js_value list \<Rightarrow> node" where
  "TransactionTable formatDate me txs =
     el ''div'' ''table-wrap''
       [Elem ''table'' []
         [Elem ''thead'' []
           [Elem ''tr'' []
             ([Elem ''th'' [] [Text ''Date'']] @
              (case me of Some _ \<Rightarrow> [Elem ''th'' [] [Text ''Counterparty'']]
                 | None \<Rightarrow> [Elem ''th'' [] [Text ''From''], Elem ''th'' [] [Text ''To'']]) @
              [Elem ''th'' [] [Text ''Description''], el ''th'' ''num'' [Text ''Amount''],
               Elem ''th'' [] [Text ''Receipt''], Elem ''th'' [] [Text ''ID'']])],
          Elem ''tbody'' [] (map (transaction_tr formatDate me) txs)]]"

end
