(* ===== verification/Web_Screens.thy ===== *)
theory Web_Screens
  imports Web_Pages
begin

text \<open>
  The template of \<open>TransferForm.vue\<close>, the pages of \<open>src/frontend/src/views/\<close> and \<open>App.vue\<close> around
  them.
\<close>

section \<open>The transfer form\<close>

definition form_field :: "node list \<Rightarrow> node" where
  "form_field ns = el ''div'' ''field'' ns"

definition label_for :: "string \<Rightarrow> node list \<Rightarrow> node" where
  "label_for i ns = Elem ''label'' [Attr ''for'' i] ns"

text \<open>The field of the recipient: looking up, an error, or the user found.\<close>

definition recipient_field :: "tform \<Rightarrow> node" where
  "recipient_field s =
     (let r = tf_recipient s in
      form_field
        ([label_for ''recipient'' [Text ''Recipient username''],
          Elem ''input''
            [Attr ''id'' ''recipient'', Model (tf_username s),
             Attr ''class'' (if js_truthy (tf_lookupError s) then ''input invalid'' else ''input''),
             Attr ''placeholder'' ''e.g. sara'', Attr ''autocomplete'' ''off''] []] @
         (if tf_lookingUp s then [el ''span'' ''hint'' [Text ''Looking up...'']]
          else if js_truthy (tf_lookupError s) then [el ''span'' ''error-text'' [Text (show_text (tf_lookupError s))]]
          else if js_truthy r
          then [el ''div'' ''recipient''
            [el ''span'' ''avatar'' [Text (initials (show_text (js_get r ''fullName'')))],
             Elem ''div'' []
               [Elem ''strong'' [] [Text (show_text (js_get r ''fullName''))],
                el ''div'' ''muted small'' [Text (''@'' @ show_text (js_get r ''username'') @ '' '' @ [CHR 0xB7] @
                  '' User #'' @ show_text (js_get r ''id''))]],
             el ''span'' ''check'' [Text ''&check;'']]]
          else [])))"

definition amount_field :: "int \<Rightarrow> tform \<Rightarrow> node" where
  "amount_field threshold s =
     form_field
       ([label_for ''amount'' [Text ''Amount (Toman)''],
         Elem ''input''
           [Attr ''id'' ''amount'', Attr ''value'' (tf_amountInput s),
            Attr ''class'' (''input amount-input'' @ (if exceedsBalance s then '' invalid'' else [])),
            Attr ''inputmode'' ''numeric'', Attr ''placeholder'' ''0'', On AmountTyped] [],
         el ''div'' ''chips''
           (map (\<lambda>v. Elem ''button'' [Attr ''type'' ''button'', Attr ''class'' ''chip'', On (AmountClicked v)]
              [Text (formatNumber (Fin v))]) QUICK_AMOUNTS)] @
        (case amount_hint threshold s of
           ExceedsBalance b \<Rightarrow> [el ''span'' ''error-text'' [Text (''Amount exceeds your balance of '' @ b @ ''.'')]]
         | ReceiptHint \<Rightarrow> [el ''span'' ''hint receipt-hint''
             [Text ''A receipt will be generated in the background and stored in MinIO.'']]
         | NoHint \<Rightarrow> []))"

text \<open>\<open>amount ? formatToman(amount) : ''\<close>\<close>

definition amount_shown :: "tform \<Rightarrow> string" where
  "amount_shown s = (case amount s of
     Some a \<Rightarrow> if a = Fin 0 then [] else formatNumber a @ '' T'' | None \<Rightarrow> [])"

definition result_box :: "js_value \<Rightarrow> node" where
  "result_box tx =
     el ''div'' ''result''
       [Elem ''div'' []
          [Elem ''strong'' [] [Text (formatToman_value (js_get tx ''amount''))], Text '' sent to '',
           Elem ''strong'' [] [Text (sub tx ''to'' ''fullName'')],
           el ''div'' ''muted small mono'' [Text (show_text (js_get tx ''id''))]],
        (if js_get tx ''receiptStatus'' = JStr ''GENERATED''
         then Elem ''a'' (bound ''href'' (js_get tx ''receiptUrl'') @
                [Attr ''target'' ''_blank'', Attr ''rel'' ''noopener'', Attr ''class'' ''btn btn-ghost btn-sm''])
                [Text ''Download receipt'']
         else StatusBadge (js_get tx ''receiptStatus''))]"

definition TransferForm :: "int \<Rightarrow> tform \<Rightarrow> node" where
  "TransferForm threshold s =
     el ''div'' ''card''
       [el ''div'' ''card-header''
          [Elem ''h2'' [] [Text ''Send money''],
           el ''span'' ''muted small'' [Text (''Receipts above '' @ formatToman threshold)]],
        Elem ''form'' [Attr ''class'' ''card-body form'', On SubmitTransfer]
          (shown_if (js_truthy (tf_error s)) (alert (tf_error s)) @
           [recipient_field s, amount_field threshold s,
            form_field
              [label_for ''description'' [Text ''Description '', el ''span'' ''muted'' [Text ''(optional)'']],
               Elem ''input''
                 [Attr ''id'' ''description'', Model (tf_description s), Attr ''class'' ''input'',
                  Attr ''maxlength'' ''255'', Attr ''placeholder'' ''e.g. Rent''] []],
            Elem ''button'' ([Attr ''class'' ''btn btn-primary btn-block'', Attr ''type'' ''submit''] @
                disabled_if (\<not> canSubmit s))
              (spinner_if (tf_submitting s) @ [Text (''Send '' @ amount_shown s)])] @
           shown_if (js_truthy (tf_result s)) (result_box (tf_result s)))]"

section \<open>Lists\<close>

definition page_items :: "paged \<Rightarrow> js_value list" where
  "page_items p = (case pg_items p of JArray xs \<Rightarrow> xs | _ \<Rightarrow> [])"

definition refresh_button :: "paged \<Rightarrow> node" where
  "refresh_button p =
     button ''btn btn-ghost btn-sm'' (disabled_if (pg_loading p)) (LoadClicked None)
       (spinner_if (pg_loading p) @ [Text '' Refresh''])"

definition page_header :: "string \<Rightarrow> string \<Rightarrow> node list \<Rightarrow> node" where
  "page_header title subtitle ns =
     el ''div'' ''page-header'' ([Elem ''div'' [] [Elem ''h1'' [] [Text title], Elem ''p'' [] [Text subtitle]]] @ ns)"

text \<open>The error of a list, its content, or the sign that it is empty.\<close>

definition list_body :: "paged \<Rightarrow> node list \<Rightarrow> node \<Rightarrow> node list" where
  "list_body p content nothing =
     (if js_truthy (pg_error p) then [el ''div'' ''card-body'' [alert (pg_error p)]]
      else if page_items p \<noteq> [] then content
      else shown_if (\<not> pg_loading p) nothing)"

definition my_id :: "'z web_scheme \<Rightarrow> js_value" where
  "my_id s = or_else (session_field s ''id'') JNull"

definition DashboardView :: "(js_value \<Rightarrow> string) \<Rightarrow> int \<Rightarrow> tform \<Rightarrow> paged \<Rightarrow> node" where
  "DashboardView formatDate threshold s p =
     el ''div'' ''container page''
       [page_header (''Hello, '' @ takeWhile (\<lambda>c. c \<noteq> CHR '' '') (show_text (session_field s ''fullName'')))
          ''Here is what is happening with your wallet.'' [],
        el ''div'' ''grid''
          [el ''div'' ''left''
            [BalanceCard s,
             el ''div'' ''card info''
               [el ''div'' ''card-body''
                 [Elem ''h2'' [] [Text ''How it works''],
                  el ''ol'' ''muted''
                    [Elem ''li'' [] [Text ''The transfer runs inside the '', Elem ''code'' [] [Text ''transfer_funds''],
                       Text '' stored procedure with row locks.''],
                     Elem ''li'' [] [Text ''A trigger writes DEBIT and CREDIT rows to the ledger.''],
                     Elem ''li'' [] [Text ''The recipient is notified instantly over Socket.io.''],
                     Elem ''li'' [] [Text ''Above the threshold, a BullMQ worker builds a receipt and uploads it to MinIO.'']]]]],
           TransferForm threshold s],
        el ''div'' ''card''
          ([el ''div'' ''card-header''
             [Elem ''h2'' [] [Text ''Recent activity''],
              router_link ''/transactions'' [Attr ''class'' ''small''] [Text ''View all &rarr;'']]] @
           list_body p [TransactionTable formatDate (Some (my_id s)) (page_items p)]
             (EmptyState ''No transactions yet'' ''Send money to another user to see it here.''))]"

definition TransactionsView :: "(js_value \<Rightarrow> string) \<Rightarrow> paged \<Rightarrow> node" where
  "TransactionsView formatDate p =
     el ''div'' ''container page''
       [page_header ''Transactions'' ''Every transfer you sent or received.'' [refresh_button p],
        el ''div'' ''card''
          (list_body p
            ([TransactionTable formatDate (Some (my_id p)) (page_items p)] @ PaginationBar (pg_pagination p))
            (EmptyState ''No transactions yet'' []))]"

definition ledger_tr :: "(js_value \<Rightarrow> string) \<Rightarrow> js_value \<Rightarrow> node" where
  "ledger_tr formatDate entry =
     Elem ''tr'' []
       [el ''td'' ''muted'' [Text (formatDate (js_get entry ''createdAt''))],
        Elem ''td'' [] [StatusBadge (js_get entry ''entryType'')],
        el ''td'' (''num '' @ (if js_get entry ''entryType'' = JStr ''DEBIT'' then ''amount-out'' else ''amount-in''))
          [Text (signed entry)],
        el ''td'' ''num muted'' [Text (formatToman_value (js_get entry ''balanceBefore''))],
        el ''td'' ''num'' [Elem ''strong'' [] [Text (formatToman_value (js_get entry ''balanceAfter''))]],
        Elem ''td'' (Attr ''class'' ''mono muted'' # bound ''title'' (js_get entry ''transactionId''))
          [Text (shortId (optional_text (js_get entry ''transactionId'')))]]"

definition LedgerView :: "(js_value \<Rightarrow> string) \<Rightarrow> paged \<Rightarrow> node" where
  "LedgerView formatDate p =
     el ''div'' ''container page''
       [page_header ''Ledger'' ''Append-only history of your balance, written by a PostgreSQL trigger on every change.''
          [refresh_button p],
        el ''div'' ''card''
          (list_body p
            ([el ''div'' ''table-wrap''
               [Elem ''table'' []
                 [Elem ''thead'' []
                   [Elem ''tr'' []
                     [Elem ''th'' [] [Text ''Date''], Elem ''th'' [] [Text ''Entry''], el ''th'' ''num'' [Text ''Amount''],
                      el ''th'' ''num'' [Text ''Balance before''], el ''th'' ''num'' [Text ''Balance after''],
                      Elem ''th'' [] [Text ''Transaction'']]],
                  Elem ''tbody'' [] (map (ledger_tr formatDate) (page_items p))]]] @
             PaginationBar (pg_pagination p))
            (EmptyState ''No ledger entries'' []))]"

definition stat :: "string \<Rightarrow> string \<Rightarrow> node" where
  "stat label value = el ''div'' ''card stat'' [el ''span'' ''muted'' [Text label], Elem ''strong'' [] [Text value]]"

definition AdminTransactionsView :: "(js_value \<Rightarrow> string) \<Rightarrow> paged \<Rightarrow> node" where
  "AdminTransactionsView formatDate p =
     el ''div'' ''container page''
       [page_header ''All transactions'' ''System-wide history. This endpoint is available to the ADMIN role only.''
          [refresh_button p],
        el ''div'' ''stats''
          [stat ''Total transactions'' (formatNumber_value (js_get (pg_pagination p) ''total'')),
           stat ''Volume on this page'' (formatToman (pageVolume (page_items p))),
           stat ''Pending receipts on this page'' (js_String (int (pendingReceipts (page_items p))))],
        el ''div'' ''card''
          (list_body p
            ([TransactionTable formatDate None (page_items p)] @ PaginationBar (pg_pagination p))
            (EmptyState ''No transactions in the system yet'' []))]"

section \<open>Signing in and registering\<close>

definition DEMO_LABELS :: "string list" where
  "DEMO_LABELS = [''Ali '' @ [CHR 0xB7] @ '' user'', ''Sara '' @ [CHR 0xB7] @ '' user'', ''Admin'']"

definition LoginView :: "login_view \<Rightarrow> node" where
  "LoginView s =
     AuthLayout ''Sign in'' ''Welcome back. Sign in to your wallet.''
       [Elem ''form'' [Attr ''class'' ''form'', On SubmitLogin]
          (shown_if (js_truthy (lv_error s)) (alert (lv_error s)) @
           [form_field [label_for ''username'' [Text ''Username''],
              Elem ''input'' [Attr ''id'' ''username'', Model (lv_username s), Attr ''class'' ''input'',
                Attr ''autocomplete'' ''username'', Attr ''required'' []] []],
            form_field [label_for ''password'' [Text ''Password''],
              Elem ''input'' [Attr ''id'' ''password'', Model (lv_password s), Attr ''class'' ''input'',
                Attr ''type'' ''password'', Attr ''autocomplete'' ''current-password'', Attr ''required'' []] []],
            Elem ''button'' ([Attr ''class'' ''btn btn-primary btn-block'', Attr ''type'' ''submit''] @
                disabled_if (lv_submitting s))
              (spinner_if (lv_submitting s) @ [Text '' Sign in''])]),
        el ''div'' ''demo''
          [el ''span'' ''muted'' [Text ''Demo accounts''],
           el ''div'' ''demo-buttons''
             (map (\<lambda>(account, label).
                Elem ''button'' ([Attr ''type'' ''button'', Attr ''class'' ''btn btn-ghost btn-sm''] @
                  disabled_if (lv_submitting s) @ [On (DemoClicked account)]) [Text label])
              (zip DEMO_ACCOUNTS DEMO_LABELS))]]
       [el ''p'' ''muted'' [Text ''New here? '', router_link ''/register'' [] [Text ''Create an account'']]]"

text \<open>\<open>fieldErrors[name]\<close> of an object made by \<open>fromEntries\<close>: the last entry of a name counts.\<close>

definition field_error :: "register_view \<Rightarrow> string \<Rightarrow> node list" where
  "field_error s name =
     (let e = (case map_of (rev (rv_fieldErrors s)) (JStr name) of Some v \<Rightarrow> v | None \<Rightarrow> JUndefined) in
      shown_if (js_truthy e) (el ''span'' ''error-text'' [Text (show_text e)]))"

definition RegisterView :: "register_view \<Rightarrow> node" where
  "RegisterView s =
     AuthLayout ''Create account'' ''Your wallet starts with an opening balance of 10,000,000 Toman.''
       [Elem ''form'' [Attr ''class'' ''form'', On SubmitRegister]
          (shown_if (js_truthy (rv_error s)) (alert (rv_error s)) @
           [form_field
              ([label_for ''fullName'' [Text ''Full name''],
                Elem ''input'' [Attr ''id'' ''fullName'', Model (rv_fullName s), Attr ''class'' ''input'',
                  Attr ''autocomplete'' ''name'', Attr ''maxlength'' ''100'', Attr ''required'' []] []] @
               field_error s ''fullName''),
            form_field
              ([label_for ''username'' [Text ''Username''],
                Elem ''input'' [Attr ''id'' ''username'', Model (rv_username s),
                  Attr ''class'' (if usernameValid s then ''input'' else ''input invalid''),
                  Attr ''autocomplete'' ''username'', Attr ''required'' []] [],
                el ''span'' ''hint'' [Text ''3-50 characters: letters, digits or underscore.'']] @
               field_error s ''username''),
            form_field
              ([label_for ''password'' [Text ''Password''],
                Elem ''input'' [Attr ''id'' ''password'', Model (rv_password s), Attr ''class'' ''input'',
                  Attr ''type'' ''password'', Attr ''autocomplete'' ''new-password'', Attr ''minlength'' ''8'',
                  Attr ''maxlength'' ''72'', Attr ''required'' []] [],
                el ''span'' ''hint'' [Text ''At least 8 characters.'']] @
               field_error s ''password''),
            Elem ''button'' ([Attr ''class'' ''btn btn-primary btn-block'', Attr ''type'' ''submit''] @
                disabled_if (rv_submitting s \<or> \<not> usernameValid s))
              (spinner_if (rv_submitting s) @ [Text '' Create account''])])]
       [el ''p'' ''muted'' [Text ''Already have an account? '', router_link ''/login'' [] [Text ''Sign in'']]]"

section \<open>App.vue\<close>

text \<open>The header for a session, the page of the router, the toasts.\<close>

definition App :: "'z web_scheme \<Rightarrow> node \<Rightarrow> node list" where
  "App s view = shown_if (wb_authenticated s) (AppHeader s) @ [Elem ''main'' [] [view], ToastStack s]"

text \<open>The states of the pages, and the page of each route: its \<open>component\<close>.\<close>

record views =
  vw_form :: tform
  vw_recent :: paged
  vw_transactions :: paged
  vw_ledger :: paged
  vw_admin :: paged
  vw_login :: login_view
  vw_register :: register_view

definition route_view :: "(js_value \<Rightarrow> string) \<Rightarrow> int \<Rightarrow> views \<Rightarrow> route \<Rightarrow> node option" where
  "route_view formatDate threshold V r = map_option (\<lambda>f. f ())
     (Option.bind (rt_name r) (map_of
       [(''login'', \<lambda>_. LoginView (vw_login V)),
        (''register'', \<lambda>_. RegisterView (vw_register V)),
        (''dashboard'', \<lambda>_. DashboardView formatDate threshold (vw_form V) (vw_recent V)),
        (''transactions'', \<lambda>_. TransactionsView formatDate (vw_transactions V)),
        (''ledger'', \<lambda>_. LedgerView formatDate (vw_ledger V)),
        (''admin-transactions'', \<lambda>_. AdminTransactionsView formatDate (vw_admin V))]))"

end
