(* ===== verification/Web_Page_Theorems.thy ===== *)
theory Web_Page_Theorems
  imports Web_Screens Web_Theorems
begin

text \<open>
  What the pages show and what they offer: which controls can be used in which state, where the links
  lead, which receipts can be downloaded, and that the tables show what the lists hold.
\<close>

section \<open>What is read off the parts\<close>

lemma concat_map_Nil: "\<forall>x \<in> set xs. f x = [] \<Longrightarrow> concat (map f xs) = []"
  by (induction xs) auto

lemma submit_button_tag [simp]: "tag \<noteq> ''button'' \<Longrightarrow> \<not> submit_button tag as"
  by (simp add: submit_button_def)

lemma reads_shown_if [simp]:
  "concat (map controls (shown_if b n)) = (if b then controls n else [])"
  "concat (map hrefs (shown_if b n)) = (if b then hrefs n else [])"
  "concat (map page_text (shown_if b n)) = (if b then page_text n else [])"
  "concat (map table_rows (shown_if b n)) = (if b then table_rows n else [])"
  "list_ex has_submit (shown_if b n) = (b \<and> has_submit n)"
  "list_all fields_valid (shown_if b n) = (b \<longrightarrow> fields_valid n)"
  by (simp_all add: shown_if_def)

lemma attrs_bound [simp]:
  "concat (map act_of (bound k v)) = []" "\<forall>x \<in> set (bound k v). act_of x = []" "Disabled \<notin> set (bound k v)" "Attr k' v' \<in> set (bound k v) \<Longrightarrow> k' = k"
  by (auto simp: bound_def split: if_splits)

lemma attrs_disabled_if [simp]:
  "concat (map act_of (disabled_if b)) = []" "\<forall>x \<in> set (disabled_if b). act_of x = []" "Disabled \<in> set (disabled_if b) = b" "Attr k v \<notin> set (disabled_if b)"
  "concat (map href_of (disabled_if b)) = []"
  by (simp_all add: disabled_if_def)

lemma reads_alert [simp]:
  "controls (alert v) = []" "hrefs (alert v) = []" "table_rows (alert v) = []" "\<not> has_submit (alert v)"
  "fields_valid (alert v)"
  by (simp_all add: alert_def)

lemma reads_spinner [simp]:
  "concat (map controls (spinner_if b)) = []" "\<forall>x \<in> set (spinner_if b). controls x = []" "concat (map hrefs (spinner_if b)) = []"
  "concat (map table_rows (spinner_if b)) = []" "\<not> list_ex has_submit (spinner_if b)"
  "list_all fields_valid (spinner_if b)"
  by (simp_all add: spinner_if_def) (simp add: shown_if_def)

lemma reads_button [simp]:
  "\<forall>x \<in> set as. act_of x = [] \<Longrightarrow> \<forall>n \<in> set ns. controls n = [] \<Longrightarrow>
   controls (button cls as a ns) = (if Disabled \<in> set as then [] else [a])"
  by (simp add: button_def concat_map_Nil)

lemma reads_link [simp]:
  "\<forall>x \<in> set as. act_of x = [] \<Longrightarrow> Disabled \<notin> set as \<Longrightarrow> \<forall>n \<in> set ns. controls n = [] \<Longrightarrow>
   controls (router_link p as ns) = [GoTo p]"
  by (simp add: router_link_def concat_map_Nil)

lemma reads_StatusBadge [simp]:
  "controls (StatusBadge v) = []" "hrefs (StatusBadge v) = []" "table_rows (StatusBadge v) = []"
  "\<not> has_submit (StatusBadge v)" "page_text (StatusBadge v) = fst (variant (template_text v))"
  "cells (StatusBadge v) = []"
  by (simp_all add: StatusBadge_def shown_if_def split: prod.split)

lemma reads_EmptyState [simp]:
  "controls (EmptyState t d) = []" "hrefs (EmptyState t d) = []" "table_rows (EmptyState t d) = []"
  by (simp_all add: EmptyState_def)

lemma reads_page_header [simp]:
  "controls (page_header t u ns) = concat (map controls ns)" "hrefs (page_header t u ns) = concat (map hrefs ns)"
  "table_rows (page_header t u ns) = concat (map table_rows ns)"
  by (simp_all add: page_header_def)

section \<open>The controls of each part\<close>

lemma controls_receipt_cell [simp]: "controls (receipt_cell tx) = []"
  by (simp add: receipt_cell_def)

lemma controls_transaction_tr [simp]: "controls (transaction_tr F me tx) = []"
  by (cases me) (simp_all add: transaction_tr_def counterparty_cell_def party_cell_def Let_def)

lemma controls_TransactionTable [simp]: "controls (TransactionTable F me txs) = []"
  by (simp add: TransactionTable_def concat_map_Nil split: option.split)

lemma controls_PaginationBar:
  "concat (map controls (PaginationBar pagination)) =
    (case (js_get pagination ''page'', js_get pagination ''totalPages'') of
       (JInt page, JInt totalPages) \<Rightarrow> map (\<lambda>p. LoadClicked (Some (JInt p))) (pager_pages page totalPages)
     | _ \<Rightarrow> [])"
  by (simp add: PaginationBar_def pager_pages_def split: js_value.split)

lemma controls_refresh_button [simp]:
  "controls (refresh_button p) = (if pg_loading p then [] else [LoadClicked None])"
  by (simp add: refresh_button_def)

lemma controls_AppHeader:
  "controls (AppHeader s) = [GoTo ''/'', GoTo ''/'', GoTo ''/transactions'', GoTo ''/ledger''] @
     (if isAdmin s then [GoTo ''/admin/transactions''] else []) @ [SignOutClicked]"
  by (simp add: AppHeader_def)

lemma controls_BalanceCard: "controls (BalanceCard s) = (if wb_loading s then [] else [RefreshClicked])"
  by (simp add: BalanceCard_def)

lemma controls_toast_box: "controls (toast_box t) = [DismissClicked (to_id t)]"
  by (simp add: toast_box_def)

lemma controls_ToastStack: "controls (ToastStack s) = map (\<lambda>t. DismissClicked (to_id t)) (wb_toasts s)"
proof -
  have "concat (map (controls \<circ> toast_box) ts) = map (\<lambda>t. DismissClicked (to_id t)) ts" for ts
    by (induction ts) (simp_all add: controls_toast_box)
  then show ?thesis by (simp add: ToastStack_def)
qed

lemma recipient_field_reads [simp]:
  "controls (recipient_field s) = []" "\<not> has_submit (recipient_field s)" "hrefs (recipient_field s) = []"
  "fields_valid (recipient_field s)"
  by (simp_all add: recipient_field_def Let_def form_field_def label_for_def submit_button_def)

lemma amount_field_reads:
  "controls (amount_field th s) = AmountTyped # map AmountClicked QUICK_AMOUNTS" "\<not> has_submit (amount_field th s)"
  "hrefs (amount_field th s) = []" "fields_valid (amount_field th s)"
  by (simp_all add: amount_field_def form_field_def label_for_def submit_button_def QUICK_AMOUNTS_def
      split: form_hint.split)

lemma StatusBadge_valid [simp]: "fields_valid (StatusBadge v)"
  by (simp add: StatusBadge_def split: prod.split)

lemma result_box_reads [simp]: "controls (result_box tx) = []" "\<not> has_submit (result_box tx)" "fields_valid (result_box tx)"
  by (simp_all add: result_box_def submit_button_def)

text \<open>The limits the templates write.\<close>

lemma field_limits: "digits_value ''8'' = 8" "digits_value ''72'' = 72" "digits_value ''100'' = 100" "digits_value ''255'' = 255"
  by (simp_all add: digits_value_def digit_value_def)

lemma controls_TransferForm:
  "controls (TransferForm th s) =
    (if canSubmit s \<and> length (tf_description s) \<le> 255 then [SubmitTransfer] else []) @ AmountTyped # map AmountClicked QUICK_AMOUNTS"
  by (simp add: TransferForm_def amount_field_reads form_field_def label_for_def submit_button_def field_limits)

section \<open>The controls of each page\<close>

text \<open>The controls of a list: the buttons for the pages next to it, once it is loaded.\<close>

definition pager_controls :: "paged \<Rightarrow> ui_act list" where
  "pager_controls p = (if js_truthy (pg_error p) \<or> page_items p = [] then []
     else concat (map controls (PaginationBar (pg_pagination p))))"

definition refresh_controls :: "paged \<Rightarrow> ui_act list" where
  "refresh_controls p = (if pg_loading p then [] else [LoadClicked None])"

lemma controls_list_body:
  "controls nothing = [] \<Longrightarrow> concat (map controls (list_body p content nothing)) =
    (if js_truthy (pg_error p) \<or> page_items p = [] then [] else concat (map controls content))"
  by (simp add: list_body_def shown_if_def)

lemma controls_tbody: "concat (map (controls \<circ> ledger_tr F) xs) = []"
  by (rule concat_map_Nil) (simp add: ledger_tr_def)

lemma controls_DashboardView:
  "controls (DashboardView F th s p) = controls (BalanceCard s) @ controls (TransferForm th s) @ [GoTo ''/transactions'']"
  by (simp add: DashboardView_def controls_list_body)

lemma controls_lists:
  "controls (TransactionsView F p) = refresh_controls p @ pager_controls p"
  "controls (LedgerView F p) = refresh_controls p @ pager_controls p"
  "controls (AdminTransactionsView F p) = refresh_controls p @ pager_controls p"
  by (simp_all add: TransactionsView_def LedgerView_def AdminTransactionsView_def controls_list_body controls_tbody
      refresh_controls_def pager_controls_def stat_def)

lemma controls_AuthLayout:
  "controls (AuthLayout t u slot footer) = concat (map controls slot) @ concat (map controls footer)"
  by (simp add: AuthLayout_def)

lemma field_error_reads [simp]: "concat (map controls (field_error s n)) = []" "\<not> list_ex has_submit (field_error s n)"
  "list_all fields_valid (field_error s n)"
  by (simp_all add: field_error_def Let_def)

lemma controls_LoginView:
  "controls (LoginView s) = (if lv_submitting s \<or> lv_username s = [] \<or> lv_password s = [] then [] else [SubmitLogin]) @
     (if lv_submitting s then [] else map DemoClicked DEMO_ACCOUNTS) @ [GoTo ''/register'']"
  by (simp add: LoginView_def controls_AuthLayout form_field_def label_for_def submit_button_def DEMO_ACCOUNTS_def
      DEMO_LABELS_def)

text \<open>What the fields of the registration page require.\<close>

definition registration_filled :: "register_view \<Rightarrow> bool" where
  "registration_filled s \<longleftrightarrow> rv_fullName s \<noteq> [] \<and> length (rv_fullName s) \<le> 100 \<and>
     rv_username s \<noteq> [] \<and> usernameValid s \<and> 8 \<le> length (rv_password s) \<and> length (rv_password s) \<le> 72"

lemma controls_RegisterView:
  "controls (RegisterView s) =
     (if \<not> rv_submitting s \<and> registration_filled s then [SubmitRegister] else []) @ [GoTo ''/login'']"
  by (auto simp: RegisterView_def controls_AuthLayout form_field_def label_for_def submit_button_def field_limits
      registration_filled_def)

lemmas page_controls = controls_DashboardView controls_lists controls_LoginView controls_RegisterView
  controls_TransferForm controls_BalanceCard controls_AppHeader controls_ToastStack

text \<open>The page of each named route.\<close>

lemma route_view_cases:
  assumes "route_view F th V r = Some n" "r \<in> set routes"
  obtains "r = guest_route ''/login'' ''login''" "n = LoginView (vw_login V)"
  | "r = guest_route ''/register'' ''register''" "n = RegisterView (vw_register V)"
  | "r = user_route ''/'' ''dashboard'' False" "n = DashboardView F th (vw_form V) (vw_recent V)"
  | "r = user_route ''/transactions'' ''transactions'' False" "n = TransactionsView F (vw_transactions V)"
  | "r = user_route ''/ledger'' ''ledger'' False" "n = LedgerView F (vw_ledger V)"
  | "r = user_route ''/admin/transactions'' ''admin-transactions'' True" "n = AdminTransactionsView F (vw_admin V)"
  using assms by (auto simp: routes_def route_view_def guest_route_def user_route_def)

lemma controls_App: "concat (map controls (App s n)) =
    (if wb_authenticated s then controls (AppHeader s) else []) @ controls n @ controls (ToastStack s)"
  by (simp add: App_def)

lemma pager_controls_pages:
  "LoadClicked (Some q) \<in> set (pager_controls p) \<Longrightarrow>
   \<exists>page totalPages k. js_get (pg_pagination p) ''page'' = JInt page \<and>
     js_get (pg_pagination p) ''totalPages'' = JInt totalPages \<and> q = JInt k \<and> k \<in> set (pager_pages page totalPages)"
  by (auto simp: pager_controls_def controls_PaginationBar split: if_splits js_value.splits) metis

lemma pager_controls_only: "a \<in> set (pager_controls p) \<Longrightarrow> \<exists>q. a = LoadClicked (Some q)"
  by (auto simp: pager_controls_def controls_PaginationBar split: if_splits js_value.splits)

text \<open>The routes the links name, and what they ask of the session.\<close>

lemma path_routes:
  "permitted False b (guest_route ''/login'' ''login'')" "permitted False b (guest_route ''/register'' ''register'')"
  "permitted True b (user_route ''/'' ''dashboard'' False)"
  "permitted True b (user_route ''/transactions'' ''transactions'' False)"
  "permitted True b (user_route ''/ledger'' ''ledger'' False)"
  "permitted True True (user_route ''/admin/transactions'' ''admin-transactions'' True)"
  by (simp_all add: permitted_def guest_route_def user_route_def)

definition leads :: "bool \<Rightarrow> bool \<Rightarrow> string \<Rightarrow> bool" where
  "leads authenticated admin p \<longleftrightarrow>
     (\<exists>r' \<in> set routes. rt_path r' = p \<and> rt_redirect r' = None \<and> permitted authenticated admin r')"

lemma leads_paths:
  "leads False b ''/login''" "leads False b ''/register''" "leads True b ''/''" "leads True b ''/transactions''"
  "leads True b ''/ledger''" "leads True True ''/admin/transactions''"
  unfolding leads_def using path_routes by (simp_all add: routes_def) (simp_all add: guest_route_def user_route_def)

lemma header_links: "GoTo p \<in> set (controls (AppHeader s)) \<Longrightarrow> leads True (isAdmin s) p"
  by (auto simp: controls_AppHeader leads_paths split: if_splits)

lemma page_links:
  assumes "route_view F th V r = Some n" "r \<in> set routes" "permitted authenticated admin r" "GoTo p \<in> set (controls n)"
  shows "leads authenticated admin p"
  using assms(1,2)
proof (cases rule: route_view_cases)
  case 1
  then have "p = ''/register''" "\<not> authenticated"
    using assms(3,4) by (auto simp: controls_LoginView permitted_def guest_route_def split: if_splits)
  then show ?thesis by (simp add: leads_paths)
next
  case 2
  then have "p = ''/login''" "\<not> authenticated"
    using assms(3,4) by (auto simp: controls_RegisterView permitted_def guest_route_def split: if_splits)
  then show ?thesis by (simp add: leads_paths)
next
  case 3
  then have "p = ''/transactions''" "authenticated"
    using assms(3,4)
    by (auto simp: controls_DashboardView controls_TransferForm controls_BalanceCard permitted_def user_route_def
        split: if_splits)
  then show ?thesis by (simp add: leads_paths)
qed (use assms(4) in \<open>auto simp: controls_lists refresh_controls_def dest: pager_controls_only split: if_splits\<close>)

section \<open>What the tables show\<close>

lemma rows_of_trs: "(\<And>x. x \<in> set xs \<Longrightarrow> table_rows (f x) = [g x]) \<Longrightarrow> concat (map (table_rows \<circ> f) xs) = map g xs"
  by (induction xs) simp_all

lemma table_rows_head: "concat (map cells ns) = [] \<Longrightarrow> table_rows (Elem ''tr'' as ns) = concat (map table_rows ns)"
  by simp

lemma rows_PaginationBar [simp]: "concat (map table_rows (PaginationBar pagination)) = []"
  by (auto simp: PaginationBar_def button_def shown_if_def split: js_value.split)

lemma rows_list_body:
  "table_rows nothing = [] \<Longrightarrow> concat (map table_rows (list_body p content nothing)) =
    (if js_truthy (pg_error p) \<or> page_items p = [] then [] else concat (map table_rows content))"
  by (simp add: list_body_def shown_if_def)

text \<open>A row of the ledger has the cells of \<open>ledger_cells\<close>; one of a table of transactions those of
  \<open>transaction_row\<close>, the parties after the arrow, and the link after the badge.\<close>

lemma row_ledger_tr: "table_rows (ledger_tr F e) = [ledger_cells F e]"
  by (simp add: ledger_tr_def ledger_cells_def)

definition transaction_cells :: "(js_value \<Rightarrow> string) \<Rightarrow> js_value option \<Rightarrow> js_value \<Rightarrow> string list" where
  "transaction_cells F me tx =
     (let r = transaction_row F me tx in
      [tr_date r] @
      (case me of Some u \<Rightarrow> [(if isIncoming u tx then ''&darr;'' else ''&uarr;'') @ concat (map (\<lambda>(n, l). n @ l) (tr_parties r))]
         | None \<Rightarrow> map (\<lambda>(n, l). n @ l) (tr_parties r)) @
      [tr_description r, tr_amount r, tr_badge r @ (if tr_download r = None then [] else '' Download''), tr_id r])"

lemma text_receipt_cell: "page_text (receipt_cell tx) =
    fst (variant (template_text (js_get tx ''receiptStatus''))) @
    (if js_get tx ''receiptStatus'' = JStr ''GENERATED'' then '' Download'' else [])"
  by (simp add: receipt_cell_def)

lemma row_transaction_tr: "table_rows (transaction_tr F me tx) = [transaction_cells F me tx]"
  by (cases me) (simp_all add: transaction_tr_def transaction_cells_def transaction_row_def counterparty_cell_def
      party_cell_def Let_def text_receipt_cell optional_text_def)

lemma rows_TransactionTable: "table_rows (TransactionTable F me txs) = map (transaction_cells F me) txs"
  by (cases me) (simp_all add: TransactionTable_def rows_of_trs [OF row_transaction_tr])

lemma rows_LedgerView:
  "table_rows (LedgerView F p) = (if js_truthy (pg_error p) then [] else map (ledger_cells F) (page_items p))"
proof -
  have "table_rows (refresh_button p) = []" by (simp add: refresh_button_def button_def)
  then show ?thesis
    by (simp add: LedgerView_def rows_list_body rows_of_trs [OF row_ledger_tr])
qed

section \<open>What can be downloaded\<close>

definition receipt_links :: "js_value \<Rightarrow> string list" where
  "receipt_links tx =
     (if js_get tx ''receiptStatus'' = JStr ''GENERATED'' \<and> \<not> nullish (js_get tx ''receiptUrl'')
      then [template_text (js_get tx ''receiptUrl'')] else [])"

lemma hrefs_bound: "concat (map href_of (bound ''href'' v)) = (if nullish v then [] else [template_text v])"
  by (simp add: bound_def)

lemma hrefs_receipt_cell: "hrefs (receipt_cell tx) = receipt_links tx"
  by (simp add: receipt_cell_def receipt_links_def hrefs_bound)

lemma hrefs_transaction_tr: "hrefs (transaction_tr F me tx) = receipt_links tx"
  by (cases me) (simp_all add: transaction_tr_def counterparty_cell_def party_cell_def Let_def hrefs_receipt_cell)

lemma hrefs_TransactionTable: "hrefs (TransactionTable F me txs) = concat (map receipt_links txs)"
  by (cases me) (simp_all add: TransactionTable_def hrefs_transaction_tr comp_def)

lemma hrefs_result_box: "hrefs (result_box tx) = receipt_links tx"
  by (simp add: result_box_def receipt_links_def hrefs_bound)

section \<open>Properties\<close>

text \<open>C36: what can be used. On the page of any route, below the header and above the toasts, the transfer
  form can be submitted exactly on the dashboard, when the transfer may be sent and the description has at
  most 255 characters; the wallet refreshed exactly there and unless it is loading; the sign-in form
  submitted exactly on its page, with a user name and a password and while no request is under way, and the
  demo accounts used there while none is; the registration form exactly on its page, with no request under
  way, a full name of 1 to 100 characters, a user name of 3 to 50 letters, digits and underscores, and a
  password of 8 to 72 characters; a session ended exactly when there is one; the administration page opened
  from the header exactly by an administrator; and exactly the toasts that are shown dismissed.\<close>

theorem controls_match_the_state:
  assumes "route_view F th V r = Some n" "r \<in> set routes" "C = set (concat (map controls (App s n)))"
  shows "(SubmitTransfer \<in> C \<longleftrightarrow> rt_path r = ''/'' \<and> canSubmit (vw_form V) \<and>
       length (tf_description (vw_form V)) \<le> 255) \<and>
    (RefreshClicked \<in> C \<longleftrightarrow> rt_path r = ''/'' \<and> \<not> wb_loading (vw_form V)) \<and>
    (SubmitLogin \<in> C \<longleftrightarrow> rt_path r = ''/login'' \<and> \<not> lv_submitting (vw_login V) \<and>
       lv_username (vw_login V) \<noteq> [] \<and> lv_password (vw_login V) \<noteq> []) \<and>
    (DemoClicked account \<in> C \<longleftrightarrow>
       rt_path r = ''/login'' \<and> \<not> lv_submitting (vw_login V) \<and> account \<in> set DEMO_ACCOUNTS) \<and>
    (SubmitRegister \<in> C \<longleftrightarrow> rt_path r = ''/register'' \<and> \<not> rv_submitting (vw_register V) \<and>
       rv_fullName (vw_register V) \<noteq> [] \<and> length (rv_fullName (vw_register V)) \<le> 100 \<and>
       rv_username (vw_register V) \<noteq> [] \<and> usernameValid (vw_register V) \<and>
       8 \<le> length (rv_password (vw_register V)) \<and> length (rv_password (vw_register V)) \<le> 72) \<and>
    (SignOutClicked \<in> C \<longleftrightarrow> wb_authenticated s) \<and>
    (GoTo ''/admin/transactions'' \<in> C \<longleftrightarrow> wb_authenticated s \<and> isAdmin s) \<and>
    (DismissClicked i \<in> C \<longleftrightarrow> (\<exists>t \<in> set (wb_toasts s). to_id t = i))"
  using assms(1,2)
proof (cases rule: route_view_cases)
qed (auto simp: assms(3) controls_App page_controls guest_route_def user_route_def refresh_controls_def
    QUICK_AMOUNTS_def registration_filled_def dest: pager_controls_only split: if_splits)

definition paged_of :: "tform \<Rightarrow> paged" where
  "paged_of s = web.extend (web.truncate s) (paged.fields (JArray []) (initial_pagination 5) False (JStr []) [] 1 None)"

definition demo_views :: views where
  "demo_views = \<lparr>vw_form = demo_form, vw_recent = paged_of demo_form, vw_transactions = paged_of demo_form,
     vw_ledger = paged_of demo_form, vw_admin = paged_of demo_form,
     vw_login = web.extend (web.truncate demo_form) (login_view.fields [] [] (JStr []) False),
     vw_register = web.extend (web.truncate demo_form) (register_view.fields [] [] [] (JStr []) [] False)\<rparr>"

theorem controls_match_the_state_witness:
  "SubmitTransfer \<in> set (concat (map controls (App demo_form (DashboardView (\<lambda>_. []) 5000000 demo_form (vw_recent demo_views))))) \<and>
   GoTo ''/admin/transactions'' \<notin>
     set (concat (map controls (App demo_form (DashboardView (\<lambda>_. []) 5000000 demo_form (vw_recent demo_views)))))"
proof -
  have r: "user_route ''/'' ''dashboard'' False \<in> set routes" by (simp add: routes_def)
  have v: "route_view (\<lambda>_. []) 5000000 demo_views (user_route ''/'' ''dashboard'' False) =
      Some (DashboardView (\<lambda>_. []) 5000000 demo_form (vw_recent demo_views))"
    by (simp add: route_view_def user_route_def demo_views_def)
  have "canSubmit demo_form" "\<not> isAdmin demo_form"
    by (simp_all add: canSubmit_def demo_form_def amount_def exceedsBalance_def balance_value_def parseAmount_def
        is_digit_def digits_value_def digit_value_def to_double_def greater_def js_truthy_def js_get_def or_else_def
        nullish_def isAdmin_def session_user_def demo_session_def)
  then show ?thesis
    using controls_match_the_state [OF v r refl, of demo_form "([], [])" 0]
    by (simp add: demo_views_def user_route_def) (simp add: demo_form_def)
qed

text \<open>C37: no dead links. On the page of a route that the session permits, every link, in the page or in the
  header above it, leads to the route it names: the guard redirects none of them, and none runs into
  the route for unknown paths.\<close>

theorem links_lead_where_they_point:
  assumes "matches_routes R" "route_view F th V r = Some n" "r \<in> set routes"
    and "permitted (wb_authenticated s) (isAdmin s) r"
    and "GoTo p \<in> set (concat (map controls (App s n)))"
  shows "\<exists>l. navigate R (wb_authenticated s) (isAdmin s) (ByPath p) = Some l \<and> to_fullPath l = p \<and>
    rt_path (to_route l) = p \<and> to_route l \<in> set routes \<and> rt_redirect (to_route l) = None"
proof -
  have "(wb_authenticated s \<and> GoTo p \<in> set (controls (AppHeader s))) \<or> GoTo p \<in> set (controls n)"
    using assms(5) by (auto simp: controls_App controls_ToastStack split: if_splits)
  then have "leads (wb_authenticated s) (isAdmin s) p"
    using header_links [of p s] page_links [OF assms(2-4)] by auto
  then obtain r' where r': "r' \<in> set routes" "rt_path r' = p" "rt_redirect r' = None"
    "permitted (wb_authenticated s) (isAdmin s) r'" unfolding leads_def by blast
  have "match_path R p = r'" using matches_routes_path [OF assms(1) r'(1,3)] r'(2) by simp
  then have "resolve R (ByPath p) = Some \<lparr>to_route = r', to_fullPath = p, to_query_redirect = query_redirect R p\<rparr>"
    by (simp add: resolve_def)
  from navigate_to [OF this] r' show ?thesis by simp
qed

theorem links_lead_where_they_point_witness:
  "\<exists>l. navigate plain_router True False (ByPath ''/ledger'') = Some l \<and> rt_path (to_route l) = ''/ledger''"
proof -
  have r: "user_route ''/'' ''dashboard'' False \<in> set routes" by (simp add: routes_def)
  have v: "route_view (\<lambda>_. []) 5000000 demo_views (user_route ''/'' ''dashboard'' False) =
      Some (DashboardView (\<lambda>_. []) 5000000 demo_form (vw_recent demo_views))"
    by (simp add: route_view_def user_route_def demo_views_def)
  have s: "wb_authenticated demo_form" "\<not> isAdmin demo_form"
    by (simp_all add: demo_form_def isAdmin_def session_user_def demo_session_def js_get_def or_else_def nullish_def)
  have may: "permitted (wb_authenticated demo_form) (isAdmin demo_form) (user_route ''/'' ''dashboard'' False)"
    using s by (simp add: permitted_def user_route_def)
  have link: "GoTo ''/ledger'' \<in>
      set (concat (map controls (App demo_form (DashboardView (\<lambda>_. []) 5000000 demo_form (vw_recent demo_views)))))"
    using s by (simp add: controls_App controls_AppHeader)
  show ?thesis
    using links_lead_where_they_point [OF plain_router_matches v r may link] s by auto
qed

end
