(* ===== verification/Web_Dates.thy ===== *)
theory Web_Dates
  imports Web_Wire
begin

text \<open>
  Dates on their way to the page: a timestamp leaves the server as the text of \<open>toISOString\<close>, the browser
  reads it back with \<open>new Date\<close>, and \<open>formatDate\<close> of \<open>src/frontend/src/utils/format.js\<close> shows it. The text
  \<open>Intl.DateTimeFormat\<close> makes of an instant depends on the locale data and the time zone of the browser and is
  a parameter, as are texts \<open>new Date\<close> accepts beyond the format of the standard.
\<close>

section \<open>Days and civil dates\<close>

text \<open>The day number of a date, counted from 1970-01-01; the year begins in March.\<close>

definition days_from_civil :: "int \<Rightarrow> int \<Rightarrow> int \<Rightarrow> int" where
  "days_from_civil y0 m d =
     (let y = (if m \<le> 2 then y0 - 1 else y0);
          yoe = y mod 400;
          mp = (if m \<le> 2 then m + 9 else m - 3);
          doy = (153 * mp + 2) div 5 + d - 1
      in y div 400 * 146097 + yoe * 365 + yoe div 4 - yoe div 100 + doy - 719468)"

text \<open>The year of the era that a day of the era falls in.\<close>

definition year_days :: "int \<Rightarrow> int" where
  "year_days doe = doe - doe div 1460 + doe div 36524 - doe div 146096"

definition year_start :: "int \<Rightarrow> int" where
  "year_start y = 365 * y + y div 4 - y div 100"

lemma year_days_mono:
  assumes "0 \<le> a" "a \<le> b" "b \<le> 146096"
  shows "year_days a \<le> year_days b"
proof -
  have step: "year_days n \<le> year_days (n + 1)" if "0 \<le> n" "n < 146096" for n
  proof (cases "n = 146095")
    case False
    then have "n div 146096 = 0" "(n + 1) div 146096 = 0" using that by simp_all
    moreover have "(n + 1) div 1460 \<le> (n + 1460) div 1460" "n div 36524 \<le> (n + 1) div 36524"
      by (rule zdiv_mono1; simp)+
    moreover have "(n + 1460) div 1460 = n div 1460 + 1" by simp
    ultimately show ?thesis unfolding year_days_def by linarith
  qed (simp add: year_days_def)
  have "a + int k \<le> 146096 \<Longrightarrow> year_days a \<le> year_days (a + int k)" for k
  proof (induction k)
    case (Suc k)
    with step [of "a + int k"] assms(1) show ?case by (simp add: algebra_simps)
  qed simp
  from this [of "nat (b - a)"] assms show ?thesis by simp
qed

lemma year_starts:
  "\<forall>y \<in> set [0..400]. (y < 400 \<longrightarrow> 365 * y \<le> year_days (year_start y)) \<and>
     (0 < y \<longrightarrow> year_days (year_start y - 1) < 365 * y)"
  by code_simp

lemma year_of_era:
  assumes "0 \<le> doe" "doe \<le> 146096"
  defines "y \<equiv> year_days doe div 365"
  shows "0 \<le> y" "y \<le> 399" "0 \<le> doe - year_start y" "doe - year_start y \<le> 365"
proof -
  have "year_days 0 \<le> year_days doe" "year_days doe \<le> year_days 146096"
    using assms(1,2) by (auto intro: year_days_mono)
  then have n: "0 \<le> year_days doe" "year_days doe \<le> 145999" by (simp_all add: year_days_def)
  then show y: "0 \<le> y" "y \<le> 399" by (simp_all add: y_def)
  have div: "365 * y \<le> year_days doe" "year_days doe < 365 * (y + 1)" by (simp_all add: y_def)
  have at: "365 * x \<le> year_days (year_start x)" if "0 \<le> x" "x < 400" for x using year_starts that by simp
  have before: "year_days (year_start x - 1) < 365 * x" if "0 < x" "x \<le> 400" for x using year_starts that by simp
  have bound: "0 \<le> year_start x" "x < 400 \<Longrightarrow> year_start x \<le> 146096" if "0 \<le> x" for x
    using that by (simp_all add: year_start_def)
  show "0 \<le> doe - year_start y"
  proof (rule ccontr)
    assume "\<not> ?thesis"
    then have "doe \<le> year_start y - 1" "0 < y" using assms(1) y bound [of y] by (auto simp: year_start_def)
    moreover have "year_start y - 1 \<le> 146096" using bound(2) [of y] y by simp
    ultimately show False using year_days_mono [of doe "year_start y - 1"] before [of y] assms(1) y div by simp
  qed
  show "doe - year_start y \<le> 365"
  proof (cases "y = 399")
    case True
    then show ?thesis using assms(2) by (simp add: year_start_def)
  next
    case False
    show ?thesis
    proof (rule ccontr)
      assume "\<not> ?thesis"
      moreover have "(y + 1) div 4 \<le> (y + 4) div 4" "y div 100 \<le> (y + 1) div 100" by (rule zdiv_mono1; simp)+
      then have "year_start (y + 1) \<le> year_start y + 366" by (simp add: year_start_def)
      ultimately have "year_start (y + 1) \<le> doe" by linarith
      then show False
        using year_days_mono [of "year_start (y + 1)" doe] at [of "y + 1"] bound(1) [of "y + 1"] assms(2) y div False by simp
    qed
  qed
qed

text \<open>Month and day of a day of the year, and the parts a date is made of.\<close>

definition month_index :: "int \<Rightarrow> int" where
  "month_index doy = (5 * doy + 2) div 153"

definition month_day :: "int \<Rightarrow> int" where
  "month_day doy = doy - (153 * month_index doy + 2) div 5 + 1"

lemma days_of_year:
  "\<forall>n \<in> set [0..365]. 0 \<le> month_index n \<and> month_index n \<le> 11 \<and> 1 \<le> month_day n \<and> month_day n \<le> 31"
  by code_simp

lemma civil_from_days_parts:
  assumes "civil_from_days z = (y, m, d)"
  obtains era yoe doy where "z + 719468 = era * 146097 + year_start yoe + doy" "0 \<le> yoe" "yoe \<le> 399" "0 \<le> doy" "doy \<le> 365"
    "m = (if month_index doy < 10 then month_index doy + 3 else month_index doy - 9)" "d = month_day doy"
    "y = yoe + era * 400 + (if m \<le> 2 then 1 else 0)"
proof -
  define doe where "doe = (z + 719468) mod 146097"
  define yoe where "yoe = year_days doe div 365"
  define doy where "doy = doe - year_start yoe"
  have doe: "0 \<le> doe" "doe \<le> 146096" using pos_mod_bound [of 146097 "z + 719468"] by (simp_all add: doe_def)
  note parts = year_of_era [OF doe, folded yoe_def, folded doy_def]
  have "civil_from_days z = (let mp = month_index doy; month = (if mp < 10 then mp + 3 else mp - 9)
      in (yoe + (z + 719468) div 146097 * 400 + (if month \<le> 2 then 1 else 0), month, month_day doy))"
    by (simp only: civil_from_days_def Let_def doy_def yoe_def doe_def year_days_def year_start_def month_index_def month_day_def)
  then show ?thesis
    using assms parts div_mult_mod_eq [of "z + 719468" 146097]
    by (intro that [of "(z + 719468) div 146097" yoe doy]) (auto simp: Let_def doy_def doe_def)
qed

lemma civil_from_days_bounds:
  assumes "civil_from_days z = (y, m, d)"
  shows "1 \<le> m" "m \<le> 12" "1 \<le> d" "d \<le> 31"
proof -
  from assms obtain era yoe doy where "0 \<le> doy" "doy \<le> 365"
    and eq: "m = (if month_index doy < 10 then month_index doy + 3 else month_index doy - 9)" "d = month_day doy"
    by (rule civil_from_days_parts)
  then have "0 \<le> month_index doy" "month_index doy \<le> 11" "1 \<le> month_day doy" "month_day doy \<le> 31"
    using days_of_year by simp_all
  then show "1 \<le> m" "m \<le> 12" "1 \<le> d" "d \<le> 31" by (auto simp: eq)
qed

lemma days_from_civil_from_days:
  assumes "civil_from_days z = (y, m, d)"
  shows "days_from_civil y m d = z"
  using assms
proof (rule civil_from_days_parts)
  fix era yoe doy
  assume z: "z + 719468 = era * 146097 + year_start yoe + doy" and yoe: "0 \<le> yoe" "yoe \<le> 399" and doy: "0 \<le> doy" "doy \<le> 365"
    and m: "m = (if month_index doy < 10 then month_index doy + 3 else month_index doy - 9)" and d: "d = month_day doy"
    and y: "y = yoe + era * 400 + (if m \<le> 2 then 1 else 0)"
  have "0 \<le> month_index doy" "month_index doy \<le> 11" using doy days_of_year by simp_all
  then have mp: "(if m \<le> 2 then m + 9 else m - 3) = month_index doy" by (auto simp: m)
  have "(if m \<le> 2 then y - 1 else y) = yoe + era * 400" by (simp add: y)
  moreover have "(yoe + era * 400) mod 400 = yoe" "(yoe + era * 400) div 400 = era" using yoe by simp_all
  ultimately have "days_from_civil y m d =
      era * 146097 + yoe * 365 + yoe div 4 - yoe div 100 + ((153 * month_index doy + 2) div 5 + d - 1) - 719468"
    by (simp only: days_from_civil_def Let_def mp)
  with z show ?thesis by (simp add: d month_day_def year_start_def)
qed

section \<open>Reading a date\<close>

text \<open>Readers of a field and of a sign between fields; each gives the rest of the text.\<close>

definition read_num :: "nat \<Rightarrow> string \<Rightarrow> (int \<times> string) option" where
  "read_num k s = (if k \<le> length s \<and> list_all is_digit (take k s) then Some (int (digits_value (take k s)), drop k s) else None)"

definition read_sign :: "char \<Rightarrow> string \<Rightarrow> string option" where
  "read_sign c s = (case s of x # r \<Rightarrow> if x = c then Some r else None | [] \<Rightarrow> None)"

definition read_year :: "string \<Rightarrow> (int \<times> string) option" where
  "read_year s = (case s of [] \<Rightarrow> None
   | c # r \<Rightarrow>
       if c = CHR ''+'' then read_num 6 r
       else if c = CHR ''-'' then Option.bind (read_num 6 r) (\<lambda>(n, t). if n = 0 then None else Some (- n, t))
       else read_num 4 s)"

text \<open>\<open>Date.parse\<close> on \<open>YYYY-MM-DDTHH:mm:ss.sssZ\<close>, for dates that exist.\<close>

definition read_iso :: "string \<Rightarrow> int option" where
  "read_iso s =
     Option.bind (read_year s) (\<lambda>(y, s). Option.bind (read_sign (CHR ''-'') s) (\<lambda>s.
     Option.bind (read_num 2 s) (\<lambda>(m, s). Option.bind (read_sign (CHR ''-'') s) (\<lambda>s.
     Option.bind (read_num 2 s) (\<lambda>(d, s). Option.bind (read_sign (CHR ''T'') s) (\<lambda>s.
     Option.bind (read_num 2 s) (\<lambda>(h, s). Option.bind (read_sign (CHR '':'') s) (\<lambda>s.
     Option.bind (read_num 2 s) (\<lambda>(mi, s). Option.bind (read_sign (CHR '':'') s) (\<lambda>s.
     Option.bind (read_num 2 s) (\<lambda>(sec, s). Option.bind (read_sign (CHR ''.'') s) (\<lambda>s.
     Option.bind (read_num 3 s) (\<lambda>(ms, s).
       if s = ''Z'' \<and> civil_from_days (days_from_civil y m d) = (y, m, d) \<and> h \<le> 23 \<and> mi \<le> 59 \<and> sec \<le> 59
       then Some (days_from_civil y m d * 86400000 + h * 3600000 + mi * 60000 + sec * 1000 + ms) else None)))))))))))))"

lemma length_digits: "n < 10 ^ k \<Longrightarrow> 0 < k \<Longrightarrow> length (digits n) \<le> k"
proof (induction n arbitrary: k rule: digits.induct)
  case (1 n)
  show ?case
  proof (cases "n < 10")
    case True
    with 1(3) show ?thesis by (subst digits.simps) simp
  next
    case False
    then obtain j where j: "k = Suc j" "0 < j" using 1(2,3) by (cases k; cases "k - 1") auto
    with 1 False have "length (digits (n div 10)) \<le> j" by (auto intro!: 1(1))
    with False j show ?thesis by (subst digits.simps) simp
  qed
qed

lemma digits_value_zeros: "digits_value (replicate k (CHR ''0'') @ ds) = digits_value ds"
  by (induction k) (simp_all add: digits_value_def digit_value_def)

lemma read_num_pad [simp]:
  assumes "0 \<le> n" "n < 10 ^ k" "0 < k"
  shows "read_num k (pad k n @ r) = Some (n, r)"
proof -
  have "int (nat n) < int (10 ^ k)" using assms(1,2) by simp
  then have "nat n < 10 ^ k" by (simp only: of_nat_less_iff)
  from length_digits [OF this assms(3)] have "length (pad k n) = k" by (simp add: pad_def Let_def)
  moreover have "list_all is_digit (pad k n)"
    using digits_all [of "nat n"] by (auto simp: pad_def Let_def list_all_iff is_digit_def)
  moreover have "digits_value (pad k n) = nat n"
    by (simp add: pad_def Let_def digits_value_zeros digits_value_digits)
  ultimately show ?thesis using assms(1) by (simp add: read_num_def)
qed

lemma read_sign_Cons [simp]: "read_sign c (c # s) = Some s"
  by (simp add: read_sign_def)

lemma pad_first:
  assumes "0 < k"
  obtains c cs where "pad k n = c # cs" "is_digit c"
proof -
  have all: "list_all is_digit (pad k n)"
    using digits_all [of "nat n"] by (auto simp: pad_def Let_def list_all_iff is_digit_def)
  moreover obtain c cs where "pad k n = c # cs"
    using digits_nonempty [of "nat n"] by (cases "pad k n") (auto simp: pad_def Let_def)
  ultimately show ?thesis using that by simp
qed

lemma read_year_text:
  assumes "\<bar>y\<bar> < 1000000"
  shows "read_year ((if 0 \<le> y \<and> y \<le> 9999 then pad 4 y else (if y < 0 then ''-'' else ''+'') @ pad 6 \<bar>y\<bar>) @ r) = Some (y, r)"
proof (cases "0 \<le> y \<and> y \<le> 9999")
  case True
  obtain c cs where c: "pad 4 y = c # cs" "is_digit c" by (rule pad_first [of 4 y]) simp
  then have "c \<noteq> CHR ''+''" "c \<noteq> CHR ''-''" by (auto simp: is_digit_def)
  with c(1) have "read_year (pad 4 y @ r) = read_num 4 (pad 4 y @ r)" by (simp add: read_year_def)
  with True show ?thesis by simp
qed (use assms in \<open>auto simp: read_year_def\<close>)

text \<open>The instants a \<open>Date\<close> can hold.\<close>

definition date_ok :: "int \<Rightarrow> bool" where
  "date_ok ms \<longleftrightarrow> \<bar>ms\<bar> \<le> 8640000000000000"

lemma civil_year_bound:
  assumes "civil_from_days z = (y, m, d)" "\<bar>z\<bar> \<le> 100000000"
  shows "\<bar>y\<bar> < 1000000"
proof -
  from assms(1) obtain era yoe doy where "z + 719468 = era * 146097 + year_start yoe + doy" "0 \<le> yoe" "yoe \<le> 399"
    "0 \<le> doy" "doy \<le> 365" and y: "y = yoe + era * 400 + (if m \<le> 2 then 1 else 0)"
    by (rule civil_from_days_parts)
  moreover from this have "0 \<le> year_start yoe" "year_start yoe \<le> 146000" by (simp_all add: year_start_def)
  ultimately have "- 700 < era" "era < 700" using assms(2) by linarith+
  with y \<open>0 \<le> yoe\<close> \<open>yoe \<le> 399\<close> show ?thesis by (auto split: if_splits)
qed

lemma time_parts:
  "t div 3600000 * 3600000 + (t div 60000 mod 60 * 60000 + (t div 1000 mod 60 * 1000 + t mod 1000)) = (t :: int)"
proof -
  have sum: "c * 3600000 + (u * 60000 + (s * 1000 + r)) = t" if "a * 1000 + r = t" "b * 60 + s = a" "c * 60 + u = b"
    for a b c r s u t :: int
    using that by simp
  have "t div 1000 div 60 = t div 60000" "t div 60000 div 60 = t div 3600000"
    using zdiv_zmult2_eq [of 60 t 1000] zdiv_zmult2_eq [of 60 t 60000] by simp_all
  with div_mult_mod_eq [of t 1000] div_mult_mod_eq [of "t div 1000" 60] div_mult_mod_eq [of "t div 60000" 60]
  show ?thesis by (intro sum) simp_all
qed

lemma read_iso_fields:
  assumes "\<bar>y\<bar> < 1000000" "civil_from_days z = (y, m, d)"
    and "0 \<le> h" "h \<le> 23" "0 \<le> mi" "mi \<le> 59" "0 \<le> sec" "sec \<le> 59" "0 \<le> ms" "ms \<le> 999"
  shows "read_iso ((if 0 \<le> y \<and> y \<le> 9999 then pad 4 y else (if y < 0 then ''-'' else ''+'') @ pad 6 \<bar>y\<bar>) @
      ''-'' @ pad 2 m @ ''-'' @ pad 2 d @ ''T'' @ pad 2 h @ '':'' @ pad 2 mi @ '':'' @ pad 2 sec @ ''.'' @ pad 3 ms @ ''Z'') =
    Some (z * 86400000 + h * 3600000 + mi * 60000 + sec * 1000 + ms)"
  unfolding read_iso_def read_year_text [OF assms(1)]
  using civil_from_days_bounds [OF assms(2)] days_from_civil_from_days [OF assms(2)] assms(2-) by simp

lemma read_iso_toISOString:
  assumes "date_ok ms"
  shows "read_iso (toISOString ms) = Some ms"
proof -
  define z t where "z = ms div 86400000" and "t = ms mod 86400000"
  obtain y m d where civil: "civil_from_days z = (y, m, d)" by (cases "civil_from_days z")
  have t: "0 \<le> t" "t < 86400000" and ms: "ms = z * 86400000 + t" by (simp_all add: z_def t_def)
  have "\<bar>z\<bar> \<le> 100000000" using assms t ms unfolding date_ok_def by linarith
  note year = civil_year_bound [OF civil this]
  have "0 \<le> t div 3600000" "t div 3600000 \<le> 23" using t by auto
  moreover have "0 \<le> x mod 60" "x mod 60 \<le> 59" "0 \<le> x mod 1000" "x mod 1000 \<le> 999" for x :: int by simp_all
  ultimately have "read_iso (toISOString ms) = Some (z * 86400000 + t div 3600000 * 3600000 + t div 60000 mod 60 * 60000 +
      t div 1000 mod 60 * 1000 + t mod 1000)"
    unfolding toISOString_def z_def [symmetric] t_def [symmetric] civil prod.case Let_def
    by (intro read_iso_fields [OF year civil])
  also have "\<dots> = Some ms" using time_parts [of t] by (simp only: ms add.assoc)
  finally show ?thesis .
qed

section \<open>Showing a date\<close>

text \<open>
  The browser: the text of an instant in its locale data and time zone, and what \<open>new Date\<close> makes of other values.
\<close>

record browser =
  br_date_text :: "int \<Rightarrow> string"
  br_other_date :: "js_value \<Rightarrow> int option"

definition new_Date :: "browser \<Rightarrow> js_value \<Rightarrow> int option" where
  "new_Date B v =
     (let clip = (\<lambda>ms. if date_ok ms then Some ms else None) in
      case v of
        JInt n \<Rightarrow> clip n
      | JStr s \<Rightarrow> (case read_iso s of Some ms \<Rightarrow> clip ms | None \<Rightarrow> br_other_date B v)
      | _ \<Rightarrow> br_other_date B v)"

text \<open>\<open>formatDate\<close>; \<open>None\<close> is the \<open>RangeError\<close> of an invalid date.\<close>

definition formatDate :: "browser \<Rightarrow> js_value \<Rightarrow> string option" where
  "formatDate B v = (if js_truthy v then map_option (br_date_text B) (new_Date B v) else Some ''-'')"

text \<open>What a page shows. A page with an invalid date is not shown at all; the server sends none.\<close>

definition shown_date :: "browser \<Rightarrow> js_value \<Rightarrow> string" where
  "shown_date B v = (case formatDate B v of Some t \<Rightarrow> t | None \<Rightarrow> [])"

lemma formatDate_json_date: "date_ok ms \<Longrightarrow> formatDate B (json_date ms) = Some (br_date_text B ms)"
proof -
  assume ok: "date_ok ms"
  have "read_iso [] = None" by (simp add: read_iso_def read_year_def)
  with read_iso_toISOString [OF ok] have "toISOString ms \<noteq> []" by auto
  with ok read_iso_toISOString [OF ok] show ?thesis
    by (simp add: formatDate_def json_date_def js_truthy_def new_Date_def)
qed

lemma shown_json_date: "date_ok ms \<Longrightarrow> shown_date B (json_date ms) = br_date_text B ms"
  by (simp add: shown_date_def formatDate_json_date)

end
