(* ===== verification/Web_Ledger_Page.thy ===== *)
theory Web_Ledger_Page
  imports Web_End_To_End Web_Page_Theorems Listing_Theorems Web_Dates
begin

text \<open>
  The ledger page and the server together: the rows the page shows are the entries the server holds,
  each with what its row in the database says.
\<close>

section \<open>The server's side\<close>

lemma ledger_routed:
  assumes "express_routes (api_express A) ''GET'' url ''/api/wallets'' ''/me/ledger''"
    and other: "\<And>rq. rq_method rq = ''GET'' \<Longrightarrow> rq_url rq = url \<Longrightarrow>
      ex_params (api_express A) ''/api/wallets'' ''/me'' ''GET'' rq = None"
    and rq: "rq_method rq = ''GET''" "rq_url rq = url" "rq_query rq \<noteq> JUndefined" "rq_query rq \<noteq> JNull"
    and auth: "authenticate (token_verify (api_jwt A) (api_secret A) now) (rq_authorization rq) = Inr u"
    and zod: "api_zod A paginationQuery (rq_query rq) = Inr d"
  shows "run_routers A now createRouter rq =
    Inr (Some GetMyLedger, rq\<lparr>rq_user := Some u, rq_params := JObject [], rq_validated := [(''query'', d)]\<rparr>)"
proof -
  have mounted: "ex_mounted (api_express A) p rq = (p = ''/api/wallets'')"
    if "p \<in> {''/health'', ''/api/auth'', ''/api/users'', ''/api/wallets''}" for p
    using that by (intro express_routesD(1) [OF assms(1) rq(1,2)]) (auto simp: createRouter_prefixes)
  let ?rq = "rq\<lparr>rq_user := Some u\<rparr>"
  have "ex_params (api_express A) ''/api/wallets'' ''/me/ledger'' ''GET'' ?rq = Some []"
    "ex_params (api_express A) ''/api/wallets'' ''/me'' ''GET'' ?rq = None"
    using rq by (auto intro: express_routesD(2) [OF assms(1)] other)
  then show ?thesis
    using auth zod rq(3,4)
    by (simp add: createRouter_def wallet_router_def mounted run_middleware_def validate_def validate_source_def
        query_schema_def)
qed

lemma served_ledger:
  assumes env: "quiet E" "db_safe (database w)" "page_ok k l"
    and routes: "express_routes (api_express A) ''GET'' url ''/api/wallets'' ''/me/ledger''"
      "\<And>rq. rq_method rq = ''GET'' \<Longrightarrow> rq_url rq = url \<Longrightarrow>
        ex_params (api_express A) ''/api/wallets'' ''/me'' ''GET'' rq = None"
    and rq: "rq_method rq = ''GET''" "rq_url rq = url" "rq_query rq \<noteq> JUndefined" "rq_query rq \<noteq> JNull"
      "rq_body rq = Inr v"
    and auth: "authenticate (token_verify (api_jwt A) (api_secret A) (clock E (trace w))) (rq_authorization rq) = Inr u"
    and uid: "au_id u = Some uid"
    and d: "api_zod A paginationQuery (rq_query rq) = Inr d" "js_get d ''page'' = JInt k" "js_get d ''limit'' = JInt l"
  shows "\<exists>w'. app E A rq w = (Inr \<lparr>rsp_status = 200,
    rsp_body = PLedger (page_of (map toLedgerEntry (ledger_rows_of_user uid (database w))) k l)\<rparr>, w')"
proof -
  let ?rq = "rq\<lparr>rq_user := Some u, rq_params := JObject [], rq_validated := [(''query'', d)]\<rparr>"
  obtain w' where run: "wallet_getLedger E uid k l w =
      (Inr (page_of (map toLedgerEntry (ledger_rows_of_user uid (database w))) k l), w')"
    using list_endpoints(1) [OF env, of uid] by (metis prod.collapse)
  have "validated ?rq ''query'' = d" by (simp add: validated_def)
  then have "handle E A GetMyLedger ?rq w = ok_json 200 PLedger (wallet_getLedger E uid k l) w"
    using uid d(2,3)
    by (simp add: handle_def wallet_controller_getMyLedger_def req_user_def bigint_param_def with_pagination_def
        js_int_def Let_def)
  with ledger_routed [OF routes rq(1-4) auth d(1)] run show ?thesis
    by (simp add: app_split [OF rq(5)] ok_json_def try_catch_def await_def)
qed

section \<open>The browser's side\<close>

text \<open>What the page shows for a row of the ledger.\<close>

definition ledger_line :: "(int \<Rightarrow> string) \<Rightarrow> ledger_row \<Rightarrow> string list" where
  "ledger_line date_text row =
     [date_text (l_created_at row),
      (case l_entry_type row of OPENING \<Rightarrow> ''Opening'' | DEBIT \<Rightarrow> ''Debit'' | CREDIT \<Rightarrow> ''Credit''),
      (if l_entry_type row = DEBIT then ''-'' else ''+'') @ formatToman (l_amount row),
      formatToman (l_balance_before row), formatToman (l_balance_after row), shortId (l_transaction_id row)]"

lemma js_get_entry [simp]:
  "js_get (json_of_entry e) ''createdAt'' = json_date (entry_createdAt e)"
  "js_get (json_of_entry e) ''entryType'' = JStr (entry_type_name (entry_type e))"
  "js_get (json_of_entry e) ''amount'' = JInt (entry_amount e)"
  "js_get (json_of_entry e) ''balanceBefore'' = JInt (entry_balanceBefore e)"
  "js_get (json_of_entry e) ''balanceAfter'' = JInt (entry_balanceAfter e)"
  "js_get (json_of_entry e) ''transactionId'' = json_option JStr (entry_transactionId e)"
  "js_get (json_of_entry e) ''receiptStatus'' = JUndefined"
  by (simp_all add: json_of_entry_def js_get_def)

lemma shortId_json: "shortId (optional_text (json_option JStr i)) = shortId i"
  by (cases i) (auto simp: json_option_def optional_text_def js_truthy_def shortId_def split: list.split)

lemma ledger_cells_entry:
  "date_ok (l_created_at row) \<Longrightarrow> ledger_cells (shown_date B) (json_of_entry (toLedgerEntry row)) = ledger_line (br_date_text B) row"
  by (cases "l_entry_type row")
    (simp_all add: shown_json_date ledger_cells_def ledger_line_def toLedgerEntry_def signed_def shortId_json entry_type_name_def
      variant_def VARIANTS_def formatToman_value_def)

lemma json_of_entry_object [simp]: "\<not> nullish (json_of_entry e)"
  by (simp add: json_of_entry_def nullish_def)

text \<open>The request of a page of a list, and the state once it is answered.\<close>

definition page_fetch :: "string \<Rightarrow> int \<Rightarrow> 'z web_scheme \<Rightarrow> js_value \<Rightarrow> web_ev" where
  "page_fetch path limit s page = WFetch ''GET'' path (filter (\<lambda>q. \<not> nullish (snd q)) (page_query page limit)) (auth_token s) JUndefined"

definition ledger_fetch :: "'z web_scheme \<Rightarrow> js_value \<Rightarrow> web_ev" where
  "ledger_fetch = page_fetch ''/api/wallets/me/ledger'' 15"

definition awaits_receipt :: "js_value \<Rightarrow> bool" where
  "awaits_receipt v \<longleftrightarrow> js_get v ''receiptStatus'' = JStr ''PENDING''"

lemma some_pending_array:
  "(\<And>x. \<not> nullish (f x)) \<Longrightarrow> some_pending (JArray (map f xs)) s = (Inr (\<exists>x \<in> set xs. awaits_receipt (f x)), s)"
  by (auto simp: some_pending_def awaits_receipt_def list_ex_iff dest!: set_takeWhileD)

text \<open>A list shows the items of the answer, and asks again later while a receipt among them is pending.\<close>

lemma load_page_shows:
  assumes path: "\<And>q. fetchPage page limit q = http_get E path (page_query page limit) q"
    and answer: "fetch_answer E (wb_trace p @ [page_fetch path limit p page]) = Response 200 text (Some (json_of_page f pg))"
    and token: "js_truthy (auth_token p)"
    and meanwhile: "\<And>tr x. paged.pg_error (meanwhile E tr x) = paged.pg_error x"
    and object: "\<And>x. \<not> nullish (f x)"
  shows "\<exists>p'. load_page fetchPage limit (Some page) p = (Inr (), p') \<and> page_items p' = map f (paginated.pg_items pg) \<and>
    paged.pg_error p' = JStr [] \<and>
    ((\<forall>tr x. wb_session (meanwhile E tr x) = wb_session x) \<longrightarrow> wb_session p' = wb_session p) \<and>
    ((\<exists>x \<in> set (paginated.pg_items pg). awaits_receipt (f x)) \<longrightarrow>
       (\<exists>i. pg_refreshTimer p' = Some i \<and> i \<in> set (pg_timers p') \<and> last (wb_trace p') = WTimer ''load'' PENDING_REFRESH_MS))"
proof -
  let ?s = "clear_refresh p\<lparr>pg_loading := True, pg_error := JStr []\<rparr>"
  let ?s1 = "?s\<lparr>wb_trace := wb_trace p @ [page_fetch path limit p page]\<rparr>"
  have s: "wb_trace ?s = wb_trace p" "auth_token ?s = auth_token p" by (simp_all add: clear_refresh_def auth_token_def)
  have "receive E (auth_token p) ?s1 = (Inr (json_of_page f pg), meanwhile E (wb_trace ?s1) ?s1)"
    using receive_answer [of E ?s1 200 "text" "json_of_page f pg" "auth_token p"] answer by simp
  then have "fetchPage page limit ?s = (Inr (json_of_page f pg), meanwhile E (wb_trace ?s1) ?s1)"
    using s token by (simp add: path http_get_def request_emits page_fetch_def)
  moreover have "js_get (json_of_page f pg) ''items'' = JArray (map f (paginated.pg_items pg))" "\<not> nullish (json_of_page f pg)"
    by (simp_all add: json_of_page_def js_get_def nullish_def)
  moreover have "wb_session ?s = wb_session p" by (simp add: clear_refresh_def)
  ultimately show ?thesis
    by (simp add: load_page_def await_def try_finally_def try_catch_def field_def some_pending_array [OF object]
        page_items_def meanwhile)
qed

lemma load_ledger_shows:
  assumes "fetch_answer E (wb_trace p @ [ledger_fetch p page]) = Response 200 text (Some (json_of_page json_of_entry pg))"
    and "js_truthy (auth_token p)"
    and "\<And>tr x. paged.pg_error (meanwhile E tr x) = paged.pg_error x"
  shows "\<exists>p'. load_ledger E (Some page) p = (Inr (), p') \<and> page_items p' = map json_of_entry (paginated.pg_items pg) \<and>
    paged.pg_error p' = JStr []"
proof -
  have path: "walletApi_ledger E page 15 q = http_get E ''/api/wallets/me/ledger'' (page_query page 15) q" for q
    by (simp add: walletApi_ledger_def)
  from load_page_shows [of "walletApi_ledger E" page 15 E "''/api/wallets/me/ledger''" p _ json_of_entry, OF path assms(1) [unfolded ledger_fetch_def]
      assms(2,3) json_of_entry_object]
  show ?thesis unfolding load_ledger_def by blast
qed

text \<open>The request as Express sees it.\<close>

lemma page_request:
  assumes "hw_query W (page_query (JInt k) limit) = kvs" "hw_body W JUndefined = Inr JUndefined" "js_truthy (auth_token p)"
  obtains rq where "http_request_of W (page_fetch path limit p (JInt k)) = Some rq" "rq_method rq = ''GET''"
    "rq_url rq = path @ hw_search W (page_query (JInt k) limit)" "rq_query rq = kvs" "rq_body rq = Inr JUndefined"
    "rq_authorization rq = Some (''Bearer '' @ template_text (auth_token p))"
proof -
  have "filter (\<lambda>q. \<not> nullish (snd q)) (page_query (JInt k) limit) = page_query (JInt k) limit"
    by (simp add: page_query_def nullish_def)
  moreover have "page_query (JInt k) limit \<noteq> []" by (simp add: page_query_def)
  ultimately show ?thesis using assms that by (simp add: page_fetch_def http_request_of_def)
qed

text \<open>A server to try it on: a path is matched up to its query, and numbers are read from texts.\<close>

definition paging_express :: express where
  "paging_express = \<lparr>ex_mounted = (\<lambda>prefix rq. take (length prefix) (rq_url rq) = prefix),
     ex_params = (\<lambda>prefix pattern meth rq.
        if rq_method rq = meth \<and> takeWhile (\<lambda>c. c \<noteq> CHR ''?'') (rq_url rq) = prefix @ (if pattern = ''/'' then [] else pattern)
        then Some [] else None)\<rparr>"

definition coerce_number :: "js_value \<Rightarrow> js_value" where
  "coerce_number v = (case v of JStr t \<Rightarrow> (case js_Number t of Some n \<Rightarrow> JInt n | None \<Rightarrow> v) | _ \<Rightarrow> v)"

definition paging_zod :: zod where
  "paging_zod sch v =
     (if sch = paginationQuery
      then Inr (JObject (map (\<lambda>k. (k, coerce_number (js_get v k))) [''page'', ''limit''])) else demo_zod sch v)"

definition paging_server :: server where
  "paging_server = demo_server\<lparr>sv_api := demo_api\<lparr>api_express := paging_express, api_zod := paging_zod\<rparr>\<rparr>"

definition demo_list :: paged where
  "demo_list = \<lparr>wb_session = JObject [(''token'', JStr (demo_token 1 ''ali'' ''USER''))], wb_authenticated = True,
     wb_watched = JStr (demo_token 1 ''ali'' ''USER''), wb_storage = None, wb_toasts = [], wb_nextToast = 1,
     wb_wallet = JNull, wb_loading = False, wb_activity = 0, wb_status = ''live'', wb_socket = None, wb_trace = [],
     pg_items = JArray [], pg_pagination = initial_pagination 15, pg_loading = False, pg_error = JStr [],
     pg_timers = [], pg_nextTimer = 1, pg_refreshTimer = None\<rparr>"

definition still_env :: "'s web_env" where
  "still_env = \<lparr>fetch_answer = (\<lambda>_. NetworkFailure), meanwhile = (\<lambda>_ s. s), web_clock = (\<lambda>_. 1000),
     decode_json = (\<lambda>_. None)\<rparr>"

lemma paging_server_simps:
  "sv_env paging_server = demo_env" "sv_wire paging_server = demo_wire" "server_at paging_server [] = demo_world"
  "api_jwt (sv_api paging_server) = api_jwt demo_api" "api_secret (sv_api paging_server) = api_secret demo_api"
  "api_express (sv_api paging_server) = paging_express" "api_zod (sv_api paging_server) = paging_zod"
  by (simp_all add: paging_server_def demo_server_def server_at_def)

lemma paging_query:
  "hw_query demo_wire (page_query (JInt 1) 15) = JObject [(''page'', JStr ''1''), (''limit'', JStr ''15'')]"
  "hw_search demo_wire (page_query (JInt 1) 15) = ''?page=1&limit=15&''"
  by (simp_all add: demo_wire_def page_query_def) (code_simp+)

section \<open>Properties\<close>

text \<open>C19: the ledger page shows the ledger. When a user opens page \<open>k\<close> of the ledger, with a token the server
  accepts, the rows of the table are the entries \<open>15 (k - 1)\<close> to \<open>15 k\<close> of that user's ledger as it is
  in the database when the request arrives, newest first, each with its kind, its signed amount, the
  balances before and after it, the transaction it belongs to, and the text the browser has for the very
  instant it was made.\<close>

theorem ledger_page_shows_the_ledger:
  fixes p :: paged
  assumes server: "server_at S (wb_trace p) = w" "quiet (sv_env S)" "db_safe (database w)" "page_ok k 15"
      "\<And>row. row \<in> set (transaction_ledger (database w)) \<Longrightarrow> date_ok (l_created_at row)"
    and session: "bearer (sv_api S) (clock (sv_env S) (trace w)) (auth_token p) u" "au_id u = Some uid"
    and routes: "express_routes (api_express (sv_api S)) ''GET'' (''/api/wallets/me/ledger'' @ hw_search (sv_wire S) (page_query (JInt k) 15))
        ''/api/wallets'' ''/me/ledger''"
      "\<And>rq. rq_method rq = ''GET'' \<Longrightarrow> rq_url rq = ''/api/wallets/me/ledger'' @ hw_search (sv_wire S) (page_query (JInt k) 15) \<Longrightarrow>
        ex_params (api_express (sv_api S)) ''/api/wallets'' ''/me'' ''GET'' rq = None"
    and query: "hw_query (sv_wire S) (page_query (JInt k) 15) = JObject kvs" "api_zod (sv_api S) paginationQuery (JObject kvs) = Inr d"
      "js_get d ''page'' = JInt k" "js_get d ''limit'' = JInt 15" "hw_body (sv_wire S) JUndefined = Inr JUndefined"
    and meanwhile: "\<And>tr x. paged.pg_error (meanwhile E tr x) = paged.pg_error x"
  shows "\<exists>p'. load_ledger (connected S E) (Some (JInt k)) p = (Inr (), p') \<and>
    table_rows (LedgerView (shown_date B) p') = map (ledger_line (br_date_text B)) (slice 15 ((k - 1) * 15) (ledger_rows_of_user uid (database w)))"
proof -
  let ?e = "ledger_fetch p (JInt k)"
  let ?qs = "page_query (JInt k) 15"
  have truthy: "js_truthy (auth_token p)" using session(1) by (simp add: bearer_def)
  obtain rq where rq: "http_request_of (sv_wire S) ?e = Some rq" "rq_method rq = ''GET''"
    "rq_url rq = ''/api/wallets/me/ledger'' @ hw_search (sv_wire S) ?qs" "rq_query rq = JObject kvs"
    "rq_body rq = Inr JUndefined" "rq_authorization rq = Some (''Bearer '' @ template_text (auth_token p))"
    using page_request [OF query(1,5) truthy, of "''/api/wallets/me/ledger''"] unfolding ledger_fetch_def by blast
  have auth: "authenticate (token_verify (api_jwt (sv_api S)) (api_secret (sv_api S)) (clock (sv_env S) (trace w)))
      (rq_authorization rq) = Inr u"
    using session(1) by (simp add: rq(6) bearer_def)
  have obj: "rq_query rq \<noteq> JUndefined" "rq_query rq \<noteq> JNull" by (simp_all add: rq(4))
  let ?pg = "page_of (map toLedgerEntry (ledger_rows_of_user uid (database w))) k 15"
  obtain w' where "app (sv_env S) (sv_api S) rq (server_at S (wb_trace p)) =
      (Inr \<lparr>rsp_status = 200, rsp_body = PLedger ?pg\<rparr>, w')"
    using served_ledger [OF server(2-4) routes rq(2,3) obj rq(5) auth session(2) query(2) [folded rq(4)] query(3,4)]
    by (auto simp: server(1))
  note answer = answer_request(1) [OF rq(1) this]
  have "fetch_answer (connected S E) (wb_trace p @ [?e]) =
      Response 200 (hw_statusText (sv_wire S) 200) (Some (json_of_page json_of_entry ?pg))"
    using answer by (simp add: fetch_result_of_def json_of_payload_def)
  from load_ledger_shows [OF this] session(1) meanwhile obtain p' where
    p': "load_ledger (connected S E) (Some (JInt k)) p = (Inr (), p')"
    "page_items p' = map json_of_entry (paginated.pg_items ?pg)" "paged.pg_error p' = JStr []"
    by (auto simp: bearer_def)
  let ?rows = "slice 15 ((k - 1) * 15) (ledger_rows_of_user uid (database w))"
  have "set ?rows \<subseteq> set (transaction_ledger (database w))"
    by (auto simp: slice_def ledger_rows_of_user_def order_desc_def dest!: in_set_takeD in_set_dropD)
  then have cells: "map (\<lambda>row. ledger_cells (shown_date B) (json_of_entry (toLedgerEntry row))) ?rows =
      map (ledger_line (br_date_text B)) ?rows"
    using server(5) by (intro map_cong refl ledger_cells_entry) auto
  have "table_rows (LedgerView (shown_date B) p') = map (ledger_cells (shown_date B)) (page_items p')"
    using p'(3) by (simp add: rows_LedgerView js_truthy_def)
  also have "\<dots> = map (ledger_line (br_date_text B)) ?rows"
    using cells by (simp add: p'(2) page_of_def Let_def slice_def comp_def flip: take_map drop_map)
  finally show ?thesis using p'(1) by blast
qed

definition demo_browser :: browser where
  "demo_browser = \<lparr>br_date_text = (\<lambda>ms. ''day '' @ js_String (ms div 86400000)), br_other_date = (\<lambda>_. None)\<rparr>"

lemma demo_ledger_rows:
  "map (ledger_line (br_date_text demo_browser)) (slice 15 0 (ledger_rows_of_user 1 demo_db)) =
    [[''day 0'', ''Debit'', ''-'' @ formatToman 6000000, formatToman 20000000, formatToman 14000000, ''t0...''],
     [''day 0'', ''Opening'', ''+'' @ formatToman 20000000, formatToman 0, formatToman 20000000, ''-'']]"
proof -
  have "ledger_rows_of_user 1 demo_db =
      [demo_entry 3 1 (Some ''t0'') DEBIT 6000000 20000000 14000000, demo_entry 1 1 None OPENING 20000000 0 20000000]"
    by (simp add: demo_defs ledger_rows_of_user_def order_desc_def)
  moreover have "br_date_text demo_browser 0 = ''day 0''" unfolding demo_browser_def by code_simp
  ultimately show ?thesis by (simp add: slice_def ledger_line_def demo_entry_def shortId_def)
qed

theorem ledger_page_shows_the_ledger_witness:
  "\<exists>p'. load_ledger (connected paging_server still_env) (Some (JInt 1)) demo_list = (Inr (), p') \<and>
     table_rows (LedgerView (shown_date demo_browser) p') =
       [[''day 0'', ''Debit'', ''-'' @ formatToman 6000000, formatToman 20000000, formatToman 14000000, ''t0...''],
        [''day 0'', ''Opening'', ''+'' @ formatToman 20000000, formatToman 0, formatToman 20000000, ''-'']]"
proof -
  have p: "wb_trace demo_list = []" "auth_token demo_list = JStr (demo_token 1 ''ali'' ''USER'')"
    by (simp_all add: demo_list_def auth_token_def session_defs)
  have server: "server_at paging_server (wb_trace demo_list) = demo_world" "quiet (sv_env paging_server)"
    "db_safe (database demo_world)" "page_ok 1 15"
    "\<And>row. row \<in> set (transaction_ledger (database demo_world)) \<Longrightarrow> date_ok (l_created_at row)"
    by (simp_all add: paging_server_simps p quiet_demo db_safe_demo page_ok_def int8_ok_def)
      (auto simp: date_ok_def demo_defs)
  have session: "bearer (sv_api paging_server) (clock (sv_env paging_server) (trace demo_world)) (auth_token demo_list)
      demo_signed_in" "au_id demo_signed_in = Some 1"
    using demo_bearer by (simp_all add: paging_server_simps p bearer_def)
  let ?url = "''/api/wallets/me/ledger'' @ hw_search (sv_wire paging_server) (page_query (JInt 1) 15)"
  have url: "?url = ''/api/wallets/me/ledger?page=1&limit=15&''" by (simp add: paging_server_simps paging_query)
  have routes: "express_routes (api_express (sv_api paging_server)) ''GET'' ?url ''/api/wallets'' ''/me/ledger''"
    unfolding url by (simp add: express_routes_def paging_server_simps paging_express_def createRouter_def)
  have other: "ex_params (api_express (sv_api paging_server)) ''/api/wallets'' ''/me'' ''GET'' rq = None"
    if "rq_method rq = ''GET''" "rq_url rq = ?url" for rq
    using that unfolding url by (simp add: paging_server_simps paging_express_def)
  have numbers: "js_Number ''1'' = Some 1" "js_Number ''15'' = Some 15" by code_simp+
  have query: "hw_query (sv_wire paging_server) (page_query (JInt 1) 15) =
      JObject [(''page'', JStr ''1''), (''limit'', JStr ''15'')]"
    "api_zod (sv_api paging_server) paginationQuery (JObject [(''page'', JStr ''1''), (''limit'', JStr ''15'')]) =
      Inr (JObject [(''page'', JInt 1), (''limit'', JInt 15)])"
    by (simp_all add: paging_server_simps paging_query paging_zod_def coerce_number_def js_get_def numbers)
  have fields: "js_get (JObject [(''page'', JInt 1), (''limit'', JInt 15)]) ''page'' = JInt 1"
    "js_get (JObject [(''page'', JInt 1), (''limit'', JInt 15)]) ''limit'' = JInt 15"
    "hw_body (sv_wire paging_server) JUndefined = Inr JUndefined"
    by (simp_all add: js_get_def paging_server_simps)
  have still: "paged.pg_error (meanwhile still_env tr x) = paged.pg_error x" for tr x by (simp add: still_env_def)
  from ledger_page_shows_the_ledger [OF server session routes other query fields still, of demo_browser]
  show ?thesis using demo_ledger_rows by simp
qed

end
