(* ===== verification/Web_History_Page.thy ===== *)
theory Web_History_Page
  imports Web_Ledger_Page
begin

text \<open>
  The transactions page and the server together: the rows the page shows are the transactions the user
  may see, each as the user is a party of it, with a link for every receipt that is there and another look
  for every receipt that is being made.
\<close>

section \<open>The server's side\<close>

lemma history_routed:
  assumes "express_routes (api_express A) ''GET'' url ''/api/transactions'' ''/''"
    and rq: "rq_method rq = ''GET''" "rq_url rq = url" "rq_query rq \<noteq> JUndefined" "rq_query rq \<noteq> JNull"
    and auth: "authenticate (token_verify (api_jwt A) (api_secret A) now) (rq_authorization rq) = Inr u"
    and zod: "api_zod A paginationQuery (rq_query rq) = Inr d"
  shows "run_routers A now createRouter rq =
    Inr (Some ListMine, rq\<lparr>rq_user := Some u, rq_params := JObject [], rq_validated := [(''query'', d)]\<rparr>)"
proof -
  have mounted: "ex_mounted (api_express A) p rq = (p = ''/api/transactions'')"
    if "p \<in> {''/health'', ''/api/auth'', ''/api/users'', ''/api/wallets'', ''/api/transfers'', ''/api/transactions''}" for p
    using that by (intro express_routesD(1) [OF assms(1) rq(1,2)]) (auto simp: createRouter_prefixes)
  have "ex_params (api_express A) ''/api/transactions'' ''/'' ''GET'' (rq\<lparr>rq_user := Some u\<rparr>) = Some []"
    using rq by (auto intro: express_routesD(2) [OF assms(1)])
  then show ?thesis
    using auth zod rq(3,4)
    by (simp add: createRouter_def transaction_router_def mounted run_middleware_def validate_def validate_source_def
        query_schema_def)
qed

lemma served_history:
  assumes env: "quiet E" "db_safe (database w)" "page_ok k l"
    and routes: "express_routes (api_express A) ''GET'' url ''/api/transactions'' ''/''"
    and rq: "rq_method rq = ''GET''" "rq_url rq = url" "rq_query rq \<noteq> JUndefined" "rq_query rq \<noteq> JNull"
      "rq_body rq = Inr v"
    and auth: "authenticate (token_verify (api_jwt A) (api_secret A) (clock E (trace w))) (rq_authorization rq) = Inr u"
    and uid: "au_id u = Some uid"
    and d: "api_zod A paginationQuery (rq_query rq) = Inr d" "js_get d ''page'' = JInt k" "js_get d ''limit'' = JInt l"
  shows "\<exists>w'. app E A rq w = (Inr \<lparr>rsp_status = 200,
    rsp_body = PTransactions (page_of (map toTransaction (details_of_user uid (database w))) k l)\<rparr>, w')"
proof -
  let ?rq = "rq\<lparr>rq_user := Some u, rq_params := JObject [], rq_validated := [(''query'', d)]\<rparr>"
  obtain w' where run: "transaction_listForUser E uid k l w =
      (Inr (page_of (map toTransaction (details_of_user uid (database w))) k l), w')"
    using list_endpoints(2) [OF env, of uid] by (metis prod.collapse)
  have "validated ?rq ''query'' = d" by (simp add: validated_def)
  then have "handle E A ListMine ?rq w = ok_json 200 PTransactions (transaction_listForUser E uid k l) w"
    using uid d(2,3)
    by (simp add: handle_def transaction_controller_listMine_def req_user_def bigint_param_def with_pagination_def
        js_int_def Let_def)
  with history_routed [OF routes rq(1-4) auth d(1)] run show ?thesis
    by (simp add: app_split [OF rq(5)] ok_json_def try_catch_def await_def)
qed

section \<open>The browser's side\<close>

text \<open>What the page shows a user for a transaction and its two parties.\<close>

definition receipt_label :: "receipt_status \<Rightarrow> string" where
  "receipt_label s = (case s of NOT_REQUIRED \<Rightarrow> ''No receipt'' | PENDING \<Rightarrow> ''Generating''
     | GENERATED \<Rightarrow> ''Receipt ready Download'' | FAILED \<Rightarrow> ''Receipt failed'')"

definition history_line :: "(int \<Rightarrow> string) \<Rightarrow> int \<Rightarrow> details \<Rightarrow> string list" where
  "history_line date_text uid row = (case row of (t, payer, payee) \<Rightarrow>
     let incoming = (u_id payee = uid); other = (if incoming then payer else payee) in
     [date_text (t_created_at t),
      (if incoming then ''&darr;'' else ''&uarr;'') @ u_full_name other @
        (if incoming then ''Received from @'' else ''Sent to @'') @ u_username other,
      (case t_description t of None \<Rightarrow> ''-'' | Some [] \<Rightarrow> ''-'' | Some s \<Rightarrow> s),
      (if incoming then ''+'' else ''-'') @ formatToman (t_amount t),
      receipt_label (t_receipt_status t), shortId (Some (t_id t))])"

definition receipt_link :: "details \<Rightarrow> string list" where
  "receipt_link row = (case row of (t, _, _) \<Rightarrow>
     case t_receipt_status t of GENERATED \<Rightarrow> (case t_receipt_url t of Some url \<Rightarrow> [url] | None \<Rightarrow> []) | _ \<Rightarrow> [])"

lemma json_of_transaction_object: "\<not> nullish (json_of_transaction T)"
  by (simp add: json_of_transaction_def nullish_def)

lemma transaction_cells_row:
  assumes "date_ok (t_created_at t)"
  shows "transaction_cells (shown_date B) (Some (JInt uid)) (json_of_transaction (toTransaction (t, fu, tu))) =
    history_line (br_date_text B) uid (t, fu, tu)"
  by (cases "t_receipt_status t"; cases "t_description t"; cases "the (t_description t)")
    (auto simp: transaction_cells_def transaction_row_def isIncoming_def sub_def toTransaction_def shown_json_date [OF assms]
      history_line_def Let_def receipt_label_def status_name_def variant_def VARIANTS_def formatToman_value_def
      json_option_def optional_text_def js_truthy_def shortId_def)

lemma receipt_links_row: "receipt_links (json_of_transaction (toTransaction row)) = receipt_link row"
  by (cases "t_receipt_status (fst row)"; cases "t_receipt_url (fst row)")
    (auto simp: receipt_links_def receipt_link_def toTransaction_def status_name_def json_option_def nullish_def split: prod.splits)

lemma awaits_receipt_row: "awaits_receipt (json_of_transaction (toTransaction row)) \<longleftrightarrow> t_receipt_status (fst row) = PENDING"
  by (cases "t_receipt_status (fst row)") (auto simp: awaits_receipt_def toTransaction_def status_name_def split: prod.splits)

lemma rows_TransactionsView:
  "table_rows (TransactionsView F p) =
    (if js_truthy (paged.pg_error p) then [] else map (transaction_cells F (Some (my_id p))) (page_items p))"
proof -
  have "table_rows (refresh_button p) = []" by (simp add: refresh_button_def button_def)
  then show ?thesis by (simp add: TransactionsView_def rows_list_body rows_TransactionTable)
qed

lemma hrefs_TransactionsView:
  "hrefs (TransactionsView F p) = (if js_truthy (paged.pg_error p) then [] else concat (map receipt_links (page_items p)))"
proof -
  have "hrefs (refresh_button p) = []" "concat (map hrefs (PaginationBar q)) = []" for q
    by (auto simp: refresh_button_def button_def PaginationBar_def shown_if_def split: js_value.split)
  then show ?thesis
    by (auto simp: TransactionsView_def list_body_def hrefs_TransactionTable shown_if_def)
qed

definition history_fetch :: "'z web_scheme \<Rightarrow> js_value \<Rightarrow> web_ev" where
  "history_fetch = page_fetch ''/api/transactions'' 10"

text \<open>A page with a receipt under way looks again on its own.\<close>

definition looks_again :: "paged \<Rightarrow> bool" where
  "looks_again p \<longleftrightarrow> (\<exists>i. pg_refreshTimer p = Some i \<and> i \<in> set (pg_timers p) \<and>
     last (wb_trace p) = WTimer ''load'' PENDING_REFRESH_MS)"

lemma load_transactions_shows:
  assumes "fetch_answer E (wb_trace p @ [history_fetch p page]) = Response 200 text (Some (json_of_page json_of_transaction pg))"
    and "js_truthy (auth_token p)"
    and "\<And>tr x. paged.pg_error (meanwhile E tr x) = paged.pg_error x" "\<And>tr x. wb_session (meanwhile E tr x) = wb_session x"
  shows "\<exists>p'. load_transactions E (Some page) p = (Inr (), p') \<and>
    page_items p' = map json_of_transaction (paginated.pg_items pg) \<and> paged.pg_error p' = JStr [] \<and> my_id p' = my_id p \<and>
    ((\<exists>T \<in> set (paginated.pg_items pg). awaits_receipt (json_of_transaction T)) \<longrightarrow> looks_again p')"
proof -
  have path: "transactionApi_list E page 10 q = http_get E ''/api/transactions'' (page_query page 10) q" for q
    by (simp add: transactionApi_list_def)
  from load_page_shows [of "transactionApi_list E" page 10 E "''/api/transactions''" p _ json_of_transaction, OF path
      assms(1) [unfolded history_fetch_def] assms(2,3) json_of_transaction_object] assms(4)
  show ?thesis unfolding load_transactions_def looks_again_def my_id_def session_field_def by auto
qed

lemma details_of_user_transactions: "row \<in> set (details_of_user uid d) \<Longrightarrow> fst row \<in> set (transactions d)"
  by (auto simp: details_of_user_def ordered_details_def order_desc_def List.map_filter_def join_details_def split: option.splits)

lemma history_newest_first:
  "sorted_wrt (\<lambda>x y. tx_createdAt y \<le> tx_createdAt x) (map toTransaction (details_of_user uid d))"
  using sorted_order_desc [of "t_created_at \<circ> fst"]
  by (auto simp: details_of_user_def ordered_details_def intro!: sorted_wrt_toTransaction)

section \<open>Property\<close>

text \<open>C18: the transactions page shows the user's history. When a user opens page \<open>k\<close>, with a token the server
  accepts, the rows of the table are the transactions \<open>10 (k - 1)\<close> to \<open>10 k\<close> of that user as they
  are in the database when the request arrives, newest first: each with the text of its instant, the other party and
  the direction of the money, its description, the signed amount, the state of its receipt and its id. The links are those
  of the receipts that are there, and the page looks again by itself when one of its receipts is being made.
  For a user who is no administrator, all pages together hold exactly what \<open>canView\<close> grants. No fault occurs and no other
  session acts while the request is served.\<close>

theorem transactions_page_shows_the_history:
  fixes p :: paged
  assumes server: "server_at S (wb_trace p) = w" "quiet (sv_env S)" "db_ok (database w)" "db_safe (database w)" "page_ok k 10"
      "\<And>t. t \<in> set (transactions (database w)) \<Longrightarrow> date_ok (t_created_at t)"
    and session: "bearer (sv_api S) (clock (sv_env S) (trace w)) (auth_token p) u" "au_id u = Some uid" "my_id p = JInt uid"
      "wallet_of (database w) uid \<noteq> None"
    and routes: "express_routes (api_express (sv_api S)) ''GET'' (''/api/transactions'' @ hw_search (sv_wire S) (page_query (JInt k) 10))
        ''/api/transactions'' ''/''"
    and query: "hw_query (sv_wire S) (page_query (JInt k) 10) = JObject kvs" "api_zod (sv_api S) paginationQuery (JObject kvs) = Inr d"
      "js_get d ''page'' = JInt k" "js_get d ''limit'' = JInt 10" "hw_body (sv_wire S) JUndefined = Inr JUndefined"
    and meanwhile: "\<And>tr x. paged.pg_error (meanwhile E tr x) = paged.pg_error x" "\<And>tr x. wb_session (meanwhile E tr x) = wb_session x"
  shows "\<exists>p' rows. rows = slice 10 ((k - 1) * 10) (details_of_user uid (database w)) \<and>
    load_transactions (connected S E) (Some (JInt k)) p = (Inr (), p') \<and>
    table_rows (TransactionsView (shown_date B) p') = map (history_line (br_date_text B) uid) rows \<and>
    hrefs (TransactionsView (shown_date B) p') = concat (map receipt_link rows) \<and>
    ((\<exists>row \<in> set rows. t_receipt_status (fst row) = PENDING) \<longrightarrow> looks_again p') \<and>
    sorted_wrt (\<lambda>x y. tx_createdAt y \<le> tx_createdAt x) (map toTransaction (details_of_user uid (database w))) \<and>
    (au_role u \<noteq> ROLE_ADMIN \<longrightarrow> set (map toTransaction (details_of_user uid (database w))) =
      {T \<in> set (map toTransaction (ordered_details (database w) (transactions (database w)))). canView T u})"
proof -
  let ?e = "history_fetch p (JInt k)" and ?d = "database w"
  have truthy: "js_truthy (auth_token p)" using session(1) by (simp add: bearer_def)
  obtain rq where rq: "http_request_of (sv_wire S) ?e = Some rq" "rq_method rq = ''GET''"
    "rq_url rq = ''/api/transactions'' @ hw_search (sv_wire S) (page_query (JInt k) 10)" "rq_query rq = JObject kvs"
    "rq_body rq = Inr JUndefined" "rq_authorization rq = Some (''Bearer '' @ template_text (auth_token p))"
    using page_request [OF query(1,5) truthy, of "''/api/transactions''"] unfolding history_fetch_def by blast
  have auth: "authenticate (token_verify (api_jwt (sv_api S)) (api_secret (sv_api S)) (clock (sv_env S) (trace w)))
      (rq_authorization rq) = Inr u"
    using session(1) by (simp add: rq(6) bearer_def)
  have obj: "rq_query rq \<noteq> JUndefined" "rq_query rq \<noteq> JNull" by (simp_all add: rq(4))
  let ?pg = "page_of (map toTransaction (details_of_user uid ?d)) k 10"
  let ?rows = "slice 10 ((k - 1) * 10) (details_of_user uid ?d)"
  have pg: "paginated.pg_items ?pg = map toTransaction ?rows"
    by (simp add: page_of_def Let_def slice_def flip: take_map drop_map)
  obtain w' where "app (sv_env S) (sv_api S) rq (server_at S (wb_trace p)) =
      (Inr \<lparr>rsp_status = 200, rsp_body = PTransactions ?pg\<rparr>, w')"
    using served_history [OF server(2,4,5) routes rq(2,3) obj rq(5) auth session(2) query(2) [folded rq(4)] query(3,4)]
    by (auto simp: server(1))
  from answer_request(1) [OF rq(1) this]
  have "fetch_answer (connected S E) (wb_trace p @ [?e]) =
      Response 200 (hw_statusText (sv_wire S) 200) (Some (json_of_page json_of_transaction ?pg))"
    by (simp add: fetch_result_of_def json_of_payload_def)
  from load_transactions_shows [OF this truthy] meanwhile obtain p' where
    p': "load_transactions (connected S E) (Some (JInt k)) p = (Inr (), p')"
    "page_items p' = map json_of_transaction (paginated.pg_items ?pg)" "paged.pg_error p' = JStr []" "my_id p' = JInt uid"
    "(\<exists>T \<in> set (paginated.pg_items ?pg). awaits_receipt (json_of_transaction T)) \<longrightarrow> looks_again p'"
    by (auto simp: session(3))
  have "set ?rows \<subseteq> set (details_of_user uid ?d)" by (auto simp: slice_def dest: in_set_takeD in_set_dropD)
  then have "transaction_cells (shown_date B) (Some (JInt uid)) (json_of_transaction (toTransaction row)) =
      history_line (br_date_text B) uid row" if "row \<in> set ?rows" for row
    using that server(6) details_of_user_transactions [of row uid ?d]
    by (cases row) (auto intro!: transaction_cells_row)
  then have "table_rows (TransactionsView (shown_date B) p') = map (history_line (br_date_text B) uid) ?rows"
    using p'(3) by (simp add: rows_TransactionsView p'(2,4) pg js_truthy_def)
  moreover have "hrefs (TransactionsView (shown_date B) p') = concat (map receipt_link ?rows)"
    using p'(3) by (simp add: hrefs_TransactionsView p'(2) pg js_truthy_def receipt_links_row comp_def)
  moreover have "(\<exists>row \<in> set ?rows. t_receipt_status (fst row) = PENDING) \<longrightarrow> looks_again p'"
    using p'(5) by (simp add: pg awaits_receipt_row)
  moreover note p'(1) history_newest_first list_for_user_is_what_the_user_may_see [OF server(3) session(4,2), folded ROLE_ADMIN_def]
  ultimately show ?thesis by blast
qed

definition history_list :: paged where
  "history_list = demo_list\<lparr>wb_session := JObject [(''token'', JStr (demo_token 1 ''ali'' ''USER'')),
     (''user'', JObject [(''id'', JInt 1)])]\<rparr>"

lemma demo_history:
  "details_of_user 1 demo_db = [(demo_tx, demo_user 1 ''ali'' ''Ali Ahmadi'', demo_user 2 ''sara'' ''Sara Rezaei'')]"
  by (simp add: demo_defs wallet_of_def details_of_user_def ordered_details_def List.map_filter_def join_details_def
      owner_of_wallet_def wallet_by_id_def order_desc_def)

lemma demo_history_line:
  "map (history_line (br_date_text demo_browser) 1) (slice 10 0 (details_of_user 1 demo_db)) =
    [[''day 0'', ''&uarr;Sara RezaeiSent to @sara'', ''-'', ''-'' @ formatToman 6000000, ''Generating'', ''t0...'']]"
proof -
  have "br_date_text demo_browser 0 = ''day 0''" unfolding demo_browser_def by code_simp
  then show ?thesis
    by (simp add: demo_history slice_def history_line_def demo_tx_def demo_user_def receipt_label_def shortId_def)
qed

theorem transactions_page_shows_the_history_witness:
  "\<exists>p'. load_transactions (connected paging_server still_env) (Some (JInt 1)) history_list = (Inr (), p') \<and>
     table_rows (TransactionsView (shown_date demo_browser) p') =
       [[''day 0'', ''&uarr;Sara RezaeiSent to @sara'', ''-'', ''-'' @ formatToman 6000000, ''Generating'', ''t0...'']] \<and>
     hrefs (TransactionsView (shown_date demo_browser) p') = [] \<and> looks_again p'"
proof -
  have p: "wb_trace history_list = []" "auth_token history_list = JStr (demo_token 1 ''ali'' ''USER'')"
    "my_id history_list = JInt 1"
    by (simp_all add: history_list_def demo_list_def auth_token_def my_id_def session_field_def session_defs session_user_def)
  have server: "server_at paging_server (wb_trace history_list) = demo_world" "quiet (sv_env paging_server)"
    "db_ok (database demo_world)" "db_safe (database demo_world)" "page_ok 1 10"
    "\<And>t. t \<in> set (transactions (database demo_world)) \<Longrightarrow> date_ok (t_created_at t)"
    by (simp_all add: paging_server_simps p quiet_demo db_ok_demo db_safe_demo page_ok_def int8_ok_def)
      (auto simp: date_ok_def demo_defs)
  have session: "bearer (sv_api paging_server) (clock (sv_env paging_server) (trace demo_world)) (auth_token history_list)
      demo_signed_in" "au_id demo_signed_in = Some 1" "my_id history_list = JInt 1" "wallet_of (database demo_world) 1 \<noteq> None"
    using demo_bearer by (simp_all add: paging_server_simps p bearer_def) (simp add: demo_defs wallet_of_def)
  have query: "hw_query demo_wire (page_query (JInt 1) 10) = JObject [(''page'', JStr ''1''), (''limit'', JStr ''10'')]"
    "hw_search demo_wire (page_query (JInt 1) 10) = ''?page=1&limit=10&''"
    by (simp_all add: demo_wire_def page_query_def) (code_simp+)
  have numbers: "js_Number ''1'' = Some 1" "js_Number ''10'' = Some 10" by code_simp+
  have routes: "express_routes (api_express (sv_api paging_server)) ''GET''
      (''/api/transactions'' @ hw_search (sv_wire paging_server) (page_query (JInt 1) 10)) ''/api/transactions'' ''/''"
    by (simp add: express_routes_def paging_server_simps paging_express_def createRouter_def query)
  have fields: "hw_query (sv_wire paging_server) (page_query (JInt 1) 10) =
      JObject [(''page'', JStr ''1''), (''limit'', JStr ''10'')]"
    "api_zod (sv_api paging_server) paginationQuery (JObject [(''page'', JStr ''1''), (''limit'', JStr ''10'')]) =
      Inr (JObject [(''page'', JInt 1), (''limit'', JInt 10)])"
    "js_get (JObject [(''page'', JInt 1), (''limit'', JInt 10)]) ''page'' = JInt 1"
    "js_get (JObject [(''page'', JInt 1), (''limit'', JInt 10)]) ''limit'' = JInt 10"
    "hw_body (sv_wire paging_server) JUndefined = Inr JUndefined"
    by (simp_all add: paging_server_simps query paging_zod_def coerce_number_def js_get_def numbers)
  have still: "paged.pg_error (meanwhile still_env tr x) = paged.pg_error x" "wb_session (meanwhile still_env tr x) = wb_session x"
    for tr and x :: paged by (simp_all add: still_env_def)
  have pending: "(\<exists>row \<in> set (slice 10 0 (details_of_user 1 demo_db)). t_receipt_status (fst row) = PENDING)"
    "concat (map receipt_link (slice 10 0 (details_of_user 1 demo_db))) = []"
    by (simp_all add: demo_history slice_def demo_tx_def receipt_link_def)
  from transactions_page_shows_the_history [OF server session routes fields still, of demo_browser]
  show ?thesis using demo_history_line pending by auto
qed

end
