(* ===== verification/Web_Sign_In.thy ===== *)
theory Web_Sign_In
  imports Web_End_To_End
begin

text \<open>
  The sign-in page and the server together: what pressing the button leads to, for every username and
  password typed, and for how long the session it opens is good on both sides.
\<close>

section \<open>The server's side\<close>

text \<open>\<open>zod\<close> on the login schema: the username is trimmed and lowered, the password kept.\<close>

definition login_documented :: "zod \<Rightarrow> bool" where
  "login_documented Z \<longleftrightarrow> (\<forall>name password.
     conforms username (JStr (toLowerCase (js_trim name))) \<longrightarrow> password \<noteq> [] \<longrightarrow> length password \<le> 72 \<longrightarrow>
     (\<exists>d. Z loginBody (JObject [(''username'', JStr name), (''password'', JStr password)]) = Inr d \<and>
        js_get d ''username'' = JStr (toLowerCase (js_trim name)) \<and> js_get d ''password'' = JStr password))"

lemma login_routed:
  assumes "express_routes (api_express A) ''POST'' ''/api/auth/login'' ''/api/auth'' ''/login''"
    and other: "\<And>rq. rq_method rq = ''POST'' \<Longrightarrow> rq_url rq = ''/api/auth/login'' \<Longrightarrow>
      ex_params (api_express A) ''/api/auth'' ''/register'' ''POST'' rq = None"
    and rq: "rq_method rq = ''POST''" "rq_url rq = ''/api/auth/login''" "rq_body rq = Inr v" "v \<noteq> JUndefined" "v \<noteq> JNull"
    and zod: "api_zod A loginBody v = Inr d"
  shows "run_routers A now createRouter rq =
    Inr (Some Login, rq\<lparr>rq_params := JObject [], rq_validated := [(''body'', d)]\<rparr>)"
proof -
  note routes = express_routesD [OF assms(1) rq(1,2)]
  have mounted: "ex_mounted (api_express A) p rq = (p = ''/api/auth'')" if "p \<in> {''/health'', ''/api/auth''}" for p
    using that by (intro routes(1)) (auto simp: createRouter_prefixes)
  show ?thesis
    using zod rq(3-5) routes(2) other [OF rq(1,2)]
    by (simp add: createRouter_def auth_router_def mounted run_middleware_def validate_def validate_source_def
        body_schema_def request_body_def)
qed

text \<open>The user of a name, and what a login with a password gives.\<close>

definition user_named :: "string \<Rightarrow> db \<Rightarrow> user_row option" where
  "user_named name d = find (\<lambda>u. u_username u = name) (users d)"

definition accepted :: "env \<Rightarrow> string \<Rightarrow> string \<Rightarrow> db \<Rightarrow> user_row option" where
  "accepted E name password d = (case user_named name d of
     None \<Rightarrow> None
   | Some u \<Rightarrow> if bcrypt_compare E password (u_password_hash u) then Some u else None)"

text \<open>The moment the token is made.\<close>

definition login_moment :: "env \<Rightarrow> world \<Rightarrow> user_row \<Rightarrow> int" where
  "login_moment E w u = clock E (trace w @ [EvQuery ''users.findByUsername'', EvCompare (u_password_hash u)])"

lemma auth_login_quiet:
  assumes "quiet E" "user_ids_safe (database w)"
  shows "\<exists>w'. tables (database w') = tables (database w) \<and>
    auth_login E J secret expiresIn timing_safe_hash name password w =
      (case accepted E name password (database w) of
         None \<Rightarrow> (Inl invalid_credentials, w')
       | Some u \<Rightarrow> (Inr \<lparr>lr_accessToken = token_sign J secret expiresIn (login_moment E w u) (toUser u),
           lr_tokenType = ''Bearer'', lr_expiresIn = expiresIn, lr_user = toPublicUser (toUser u)\<rparr>, w'))"
proof -
  let ?w1 = "after_read E ''users.findByUsername'' w"
  have found: "users_findByUsername E name Pool w = (Inr (map_option toUser (user_named name (database w))), ?w1)"
  proof (cases "user_named name (database w)")
    case (Some u)
    then have "isSafeInteger (u_id u)" using assms(2) by (auto simp: user_named_def user_ids_safe_def dest!: find_SomeD)
    with Some show ?thesis
      by (simp add: users_findByUsername_def await_def query_quiet_read [OF assms(1)] optional_row_def parse_int8_def
          user_named_def at_query_def)
  qed (simp add: users_findByUsername_def await_def query_quiet_read [OF assms(1)] optional_row_def user_named_def at_query_def)
  show ?thesis
    unfolding login_outcome [OF found]
    by (cases "user_named name (database w)")
      (auto simp: accepted_def login_moment_def toUser_def Let_def split: option.splits)
qed

lemma errorHandler_credentials:
  "errorHandler invalid_credentials w = (Inr \<lparr>rsp_status = 401,
     rsp_body = PError ''INVALID_CREDENTIALS'' ''Invalid username or password'' None\<rparr>, w)"
proof -
  have "refusal invalid_credentials"
    by (simp add: invalid_credentials_def unauthorized_def refusal_AppError mapped_code_iff)
  from errorHandler_refusal [OF this] show ?thesis
    by (simp add: invalid_credentials_def unauthorized_def AppError_def error_code_def)
qed

lemma served_login:
  assumes env: "quiet E" "user_ids_safe (database w)" and zod: "login_documented (api_zod A)"
    and routes: "express_routes (api_express A) ''POST'' ''/api/auth/login'' ''/api/auth'' ''/login''"
      "\<And>rq. rq_method rq = ''POST'' \<Longrightarrow> rq_url rq = ''/api/auth/login'' \<Longrightarrow>
        ex_params (api_express A) ''/api/auth'' ''/register'' ''POST'' rq = None"
    and rq: "rq_method rq = ''POST''" "rq_url rq = ''/api/auth/login''"
      "rq_body rq = Inr (JObject [(''username'', JStr typed), (''password'', JStr password)])"
    and name: "conforms username (JStr (toLowerCase (js_trim typed)))" "password \<noteq> []" "length password \<le> 72"
  shows "\<exists>w'. tables (database w') = tables (database w) \<and>
    app E A rq w = (case accepted E (toLowerCase (js_trim typed)) password (database w) of
      None \<Rightarrow> (Inr \<lparr>rsp_status = 401,
        rsp_body = PError ''INVALID_CREDENTIALS'' ''Invalid username or password'' None\<rparr>, w')
    | Some u \<Rightarrow> (Inr \<lparr>rsp_status = 200, rsp_body = PLogin
        \<lparr>lr_accessToken = token_sign (api_jwt A) (api_secret A) (api_expiresIn A) (login_moment E w u) (toUser u),
          lr_tokenType = ''Bearer'', lr_expiresIn = api_expiresIn A, lr_user = toPublicUser (toUser u)\<rparr>\<rparr>, w'))"
proof -
  let ?name = "toLowerCase (js_trim typed)"
  from zod name obtain d where
    d: "api_zod A loginBody (JObject [(''username'', JStr typed), (''password'', JStr password)]) = Inr d"
    "js_get d ''username'' = JStr ?name" "js_get d ''password'' = JStr password"
    unfolding login_documented_def by blast
  from login_routed [OF routes rq _ _ d(1)] d(2,3)
  have "app E A rq w = try_catch (ok_json 200 PLogin (auth_login E (api_jwt A) (api_secret A) (api_expiresIn A)
      (api_timing_safe_hash A) ?name password)) errorHandler w"
    by (simp add: app_split [OF rq(3)] handle_def auth_controller_login_def validated_def js_text_def)
  moreover obtain w' where "tables (database w') = tables (database w)"
    "auth_login E (api_jwt A) (api_secret A) (api_expiresIn A) (api_timing_safe_hash A) ?name password w =
      (case accepted E ?name password (database w) of
         None \<Rightarrow> (Inl invalid_credentials, w')
       | Some u \<Rightarrow> (Inr \<lparr>lr_accessToken = token_sign (api_jwt A) (api_secret A) (api_expiresIn A) (login_moment E w u) (toUser u),
           lr_tokenType = ''Bearer'', lr_expiresIn = api_expiresIn A, lr_user = toPublicUser (toUser u)\<rparr>, w'))"
    using auth_login_quiet [OF env] by blast
  ultimately show ?thesis
    by (cases "accepted E ?name password (database w)")
      (auto simp: ok_json_def try_catch_def await_def errorHandler_credentials)
qed

section \<open>The browser's side\<close>

definition login_credentials :: "login_view \<Rightarrow> js_value" where
  "login_credentials s = JObject [(''username'', JStr (js_trim (lv_username s))), (''password'', JStr (lv_password s))]"

definition login_fetch :: "login_view \<Rightarrow> web_ev" where
  "login_fetch s = WFetch ''POST'' ''/api/auth/login'' [] JUndefined (login_credentials s)"

text \<open>The state once the request is answered.\<close>

definition login_answered :: "login_view web_env \<Rightarrow> login_view \<Rightarrow> login_view" where
  "login_answered E s = meanwhile E (wb_trace s @ [login_fetch s])
     (s\<lparr>lv_error := JStr [], lv_submitting := True, wb_trace := wb_trace s @ [login_fetch s]\<rparr>)"

lemma login_submit_asks:
  assumes "\<not> js_truthy (auth_token s)"
    and "receive E (auth_token s) (s\<lparr>lv_error := JStr [], lv_submitting := True, wb_trace := wb_trace s @ [login_fetch s]\<rparr>) =
      (r, t)"
  shows "final (login_submit E redirect) s = (case r of
      Inl err \<Rightarrow> t\<lparr>lv_error := we_message err, lv_submitting := False\<rparr>
    | Inr v \<Rightarrow> (case try_catch
        (await (field v ''accessToken'') (\<lambda>accessToken.
         await (field v ''user'') (\<lambda>profile.
         await (persist E (JObject [(''token'', accessToken), (''user'', profile)])) (\<lambda>_.
         await flush_watch (\<lambda>_.
         emit (WReplace (case redirect of None \<Rightarrow> ''/'' | Some [] \<Rightarrow> ''/'' | Some p \<Rightarrow> p)))))))
        (\<lambda>err. modify (\<lambda>s. s\<lparr>lv_error := we_message err\<rparr>)) t of (_, t') \<Rightarrow> t'\<lparr>lv_submitting := False\<rparr>))"
proof -
  let ?s = "s\<lparr>lv_error := JStr [], lv_submitting := True\<rparr>"
  have token: "auth_token ?s = auth_token s" by (simp add: auth_token_def)
  have "authApi_login E (login_credentials s) ?s = (r, t)"
    using assms by (simp add: authApi_login_def http_post_def request_emits token login_fetch_def)
  moreover have "login_credentials ?s = login_credentials s" by (simp add: login_credentials_def)
  moreover note login_credentials_def [of ?s, symmetric]
  ultimately show ?thesis
    by (cases r)
      (simp_all add: login_submit_def auth_store_login_def await_assoc try_finally_def try_catch_def split: prod.split sum.split)
qed

lemma login_refused:
  assumes "\<not> js_truthy (auth_token s)"
    and "fetch_answer E (wb_trace s @ [login_fetch s]) = Response 401 text (Some (json_of_error code msg None))"
  shows "final (login_submit E redirect) s = (login_answered E s)\<lparr>lv_error := JStr msg, lv_submitting := False\<rparr>"
proof -
  have "\<not> nullish (json_of_error code msg None)" by (simp add: nullish_def json_of_error_def)
  then have "receive E (auth_token s) (s\<lparr>lv_error := JStr [], lv_submitting := True, wb_trace := wb_trace s @ [login_fetch s]\<rparr>) =
      (Inl (ApiError 401 (JStr code) (JStr msg) JUndefined), login_answered E s)"
    using assms
    by (simp add: receive_def await_def Let_def js_get_error or_else_def nullish_def js_get_Cons login_answered_def)
  from login_submit_asks [OF assms(1) this] show ?thesis by (simp add: ApiError_def)
qed

text \<open>The session a login opens in the browser.\<close>

definition opened :: "string \<Rightarrow> js_value \<Rightarrow> 'z web_scheme \<Rightarrow> bool" where
  "opened token profile s \<longleftrightarrow>
     wb_session s = JObject [(''token'', JStr token), (''user'', profile)] \<and> wb_storage s = Some (wb_session s) \<and>
     wb_socket s = Some (JStr token)"

text \<open>The state \<open>login\<close> of the store leaves: the session is kept and stored, the socket connects anew.\<close>

definition signed_in :: "'z web_scheme web_env \<Rightarrow> login_response \<Rightarrow> 'z web_scheme \<Rightarrow> 'z web_scheme" where
  "signed_in E l m = (let token = JStr (lr_accessToken l);
       session = JObject [(''token'', token), (''user'', json_of_public_user (lr_user l))] in
     m\<lparr>wb_session := session, wb_storage := Some session, wb_authenticated := live_token E token (web_clock E (wb_trace m)),
       wb_watched := token, wb_status := ''connecting'', wb_socket := Some token,
       wb_trace := wb_trace m @ (if wb_socket m \<noteq> None then [WDisconnect] else []) @ [WConnect token, WSpawn ''wallet.refresh'']\<rparr>)"

lemma signed_in_opened: "opened (lr_accessToken l) (json_of_public_user (lr_user l)) (signed_in E l m)"
  "wb_authenticated (signed_in E l m) = live_token E (JStr (lr_accessToken l)) (web_clock E (wb_trace m))"
  by (simp_all add: opened_def signed_in_def Let_def)

lemma store_login_opens:
  assumes "lr_accessToken l \<noteq> []" "\<not> js_truthy (wb_watched m)" "\<not> js_truthy (auth_token m)"
  shows "await (field (json_of_login l) ''accessToken'') (\<lambda>accessToken.
     await (field (json_of_login l) ''user'') (\<lambda>profile.
     await (persist E (JObject [(''token'', accessToken), (''user'', profile)])) (\<lambda>_.
     await flush_watch k))) m = k () (signed_in E l m)"
proof -
  let ?t = "JStr (lr_accessToken l)"
  have get: "js_get (json_of_login l) ''accessToken'' = ?t" "js_get (json_of_login l) ''user'' = json_of_public_user (lr_user l)"
    "\<And>k v. field (json_of_login l) k v = (Inr (js_get (json_of_login l) k), v)"
    by (simp_all add: json_of_login_def js_get_Cons)
  have token: "js_truthy ?t" "?t \<noteq> auth_token m" "?t \<noteq> wb_watched m"
  proof -
    show "js_truthy ?t" using assms(1) by (simp add: js_truthy_def)
    with assms(2,3) show "?t \<noteq> auth_token m" "?t \<noteq> wb_watched m" by metis+
  qed
  then show ?thesis
    by (simp add: get await_def persist_def flush_watch_def on_token_change_def rt_connect_def rt_disconnect_def emit_def
        signed_in_def session_token_def auth_token_def or_else_def nullish_def js_get_Cons js_truthy_def Let_def)
qed

lemma login_accepted:
  assumes "\<not> js_truthy (auth_token s)"
    and "fetch_answer E (wb_trace s @ [login_fetch s]) = Response 200 text (Some (json_of_login l))"
    and "lr_accessToken l \<noteq> []" "\<not> js_truthy (wb_watched (login_answered E s))" "\<not> js_truthy (auth_token (login_answered E s))"
    and "lv_error (login_answered E s) = JStr []"
  shows "let s' = final (login_submit E redirect) s in
    opened (lr_accessToken l) (json_of_public_user (lr_user l)) s' \<and> \<not> lv_submitting s' \<and> lv_error s' = JStr [] \<and>
    wb_authenticated s' = live_token E (JStr (lr_accessToken l)) (web_clock E (wb_trace (login_answered E s))) \<and>
    last (wb_trace s') = WReplace (case redirect of None \<Rightarrow> ''/'' | Some [] \<Rightarrow> ''/'' | Some p \<Rightarrow> p)"
proof -
  let ?m = "login_answered E s"
  have r: "receive E (auth_token s) (s\<lparr>lv_error := JStr [], lv_submitting := True, wb_trace := wb_trace s @ [login_fetch s]\<rparr>) =
      (Inr (json_of_login l), ?m)"
    using receive_answer [of E "s\<lparr>lv_error := JStr [], lv_submitting := True, wb_trace := wb_trace s @ [login_fetch s]\<rparr>"
        200 "text" "json_of_login l" "auth_token s"] assms(2)
    by (simp add: login_answered_def)
  have "final (login_submit E redirect) s = (signed_in E l ?m)
      \<lparr>wb_trace := wb_trace (signed_in E l ?m) @ [WReplace (case redirect of None \<Rightarrow> ''/'' | Some [] \<Rightarrow> ''/'' | Some p \<Rightarrow> p)],
       lv_submitting := False\<rparr>"
    unfolding login_submit_asks [OF assms(1) r] sum.case try_catch_def store_login_opens [OF assms(3-5)]
    by (simp add: emit_def)
  then show ?thesis
    using signed_in_opened [where E = E and l = l and m = ?m] assms(6) by (simp add: opened_def) (simp add: signed_in_def Let_def)
qed

section \<open>How long a session is good\<close>

text \<open>What a token of \<open>jsonwebtoken\<close> looks like to \<open>atob\<close> and \<open>JSON.parse\<close>: its expiry can be read.\<close>

definition jwt_readable :: "'s web_env \<Rightarrow> jwt \<Rightarrow> (string \<Rightarrow> int) \<Rightarrow> bool" where
  "jwt_readable E J lifetime \<longleftrightarrow> (\<forall>role name secret sub expiresIn now.
     decodeExpiry E (JStr (jwt_sign J role name secret sub expiresIn now)) = Some ((now div 1000 + lifetime expiresIn) * 1000))"

text \<open>On both sides a token is good until the second of its expiry.\<close>

definition good_until :: "'s web_env \<Rightarrow> api \<Rightarrow> string \<Rightarrow> int \<Rightarrow> user_row \<Rightarrow> bool" where
  "good_until E A token expiry r \<longleftrightarrow> (\<forall>now.
     live_token E (JStr token) now = (now div 1000 < expiry) \<and>
     (\<forall>v. bearer A now (JStr token) v \<longleftrightarrow> now div 1000 < expiry \<and>
        v = \<lparr>au_id = Some (u_id r), au_role = role_name (u_role r), au_username = u_username r, au_expiresAt = expiry * 1000\<rparr>))"

lemma signed_token_good_until:
  assumes "jwt_documented (api_jwt A) lifetime" "jwt_text (api_jwt A)" "jwt_readable E (api_jwt A) lifetime"
  shows "good_until E A (token_sign (api_jwt A) (api_secret A) (api_expiresIn A) now (toUser r))
    (now div 1000 + lifetime (api_expiresIn A)) r"
proof -
  let ?token = "token_sign (api_jwt A) (api_secret A) (api_expiresIn A) now (toUser r)"
  let ?expiry = "now div 1000 + lifetime (api_expiresIn A)"
  have truthy: "js_truthy (JStr ?token)" using assms(2) by (simp add: token_sign_def jwt_text_def js_truthy_def)
  have "decodeExpiry E (JStr ?token) = Some (?expiry * 1000)"
    using assms(3) by (simp add: token_sign_def jwt_readable_def)
  then have "live_token E (JStr ?token) n = (n div 1000 < ?expiry)" for n
    using truthy by (auto simp: live_token_def later_than_def)
  moreover have "bearer A n (JStr ?token) v \<longleftrightarrow> n div 1000 < ?expiry \<and> v = \<lparr>au_id = Some (u_id r),
      au_role = role_name (u_role r), au_username = u_username r, au_expiresAt = ?expiry * 1000\<rparr>" for n v
    using truthy unfolding bearer_def template_text.simps signed_token_authenticates [OF assms(1,2)]
    by (auto simp: toUser_def Let_def)
  ultimately show ?thesis by (simp add: good_until_def)
qed

lemma decodeExpiry_connected: "decodeExpiry (connected S E) v = decodeExpiry E v"
  by (auto simp: decodeExpiry_def split: js_value.split list.split)

section \<open>Both sides together\<close>

text \<open>From the sign-in page to a session. A visitor without a session presses the button, with
  any username and any password of the lengths the API admits. When the server has a user of that name
  (trimmed, in lower case) whose stored hash bcrypt accepts the password for, the browser holds, stores and
  connects its socket with a token and that user's public data, goes on to the page it was asked
  for, and counts as signed in; the token authenticates as that user, and as no one else, and the
  browser counts it as live, exactly until the second it expires. In every other case the page says
  that username or password is wrong, the same for an unknown name, and there is no session. No table of the
  server changes.\<close>

lemma signing_in_opens_a_session:
  fixes s :: login_view
  assumes typed: "conforms username (JStr name)" "name = toLowerCase (js_trim (js_trim (lv_username s)))"
      "lv_password s \<noteq> []" "length (lv_password s) \<le> 72"
    and visitor: "\<not> js_truthy (auth_token s)" "wb_watched s = auth_token s"
    and server: "server_at S (wb_trace s) = w" "quiet (sv_env S)" "db_safe (database w)"
    and outside: "login_documented (api_zod (sv_api S))"
      "express_routes (api_express (sv_api S)) ''POST'' ''/api/auth/login'' ''/api/auth'' ''/login''"
      "\<And>rq. rq_method rq = ''POST'' \<Longrightarrow> rq_url rq = ''/api/auth/login'' \<Longrightarrow>
        ex_params (api_express (sv_api S)) ''/api/auth'' ''/register'' ''POST'' rq = None"
      "hw_body (sv_wire S) (login_credentials s) = Inr (json_copy (login_credentials s))"
    and tokens: "jwt_documented (api_jwt (sv_api S)) lifetime" "jwt_text (api_jwt (sv_api S))"
      "jwt_readable E (api_jwt (sv_api S)) lifetime"
    and meanwhile: "\<And>tr x. wb_session (meanwhile E tr x) = wb_session x"
      "\<And>tr x. wb_watched (meanwhile E tr x) = wb_watched x" "\<And>tr x. lv_error (meanwhile E tr x) = lv_error x"
  shows "\<exists>s' w'. final (login_submit (connected S E) redirect) s = s' \<and>
    served S (wb_trace s @ [login_fetch s]) = w' \<and> tables (database w') = tables (database w) \<and>
    (case accepted (sv_env S) name (lv_password s) (database w) of
       None \<Rightarrow> lv_error s' = JStr ''Invalid username or password'' \<and> wb_session s' = wb_session s
     | Some r \<Rightarrow> (\<exists>token expiry.
         expiry = login_moment (sv_env S) w r div 1000 + lifetime (api_expiresIn (sv_api S)) \<and>
         opened token (json_of_public_user (toPublicUser (toUser r))) s' \<and> lv_error s' = JStr [] \<and>
         good_until E (sv_api S) token expiry r \<and>
         ((\<forall>tr. web_clock E tr div 1000 < expiry) \<longrightarrow> wb_authenticated s') \<and>
         last (wb_trace s') = WReplace (case redirect of None \<Rightarrow> ''/'' | Some [] \<Rightarrow> ''/'' | Some p \<Rightarrow> p)))"
proof -
  let ?e = "login_fetch s" and ?E = "connected S E"
  let ?body = "JObject [(''username'', JStr (js_trim (lv_username s))), (''password'', JStr (lv_password s))]"
  have copy: "json_copy (login_credentials s) = ?body" by (simp add: login_credentials_def)
  obtain rq where rq: "http_request_of (sv_wire S) ?e = Some rq" "rq_method rq = ''POST''"
    "rq_url rq = ''/api/auth/login''" "rq_body rq = Inr ?body"
    using outside(4) copy by (simp add: login_fetch_def http_request_of_def)
  note served = served_login [OF server(2) db_safe_user_ids [OF server(3)] outside(1-3) rq(2-4) typed(1) [unfolded typed(2)] typed(3,4),
      folded typed(2), folded server(1)]
  note kept = meanwhile login_answered_def
  show ?thesis
  proof (cases "accepted (sv_env S) name (lv_password s) (database w)")
    case None
    with served server(1) obtain w' where w': "tables (database w') = tables (database w)"
      "app (sv_env S) (sv_api S) rq (server_at S (wb_trace s)) = (Inr \<lparr>rsp_status = 401,
         rsp_body = PError ''INVALID_CREDENTIALS'' ''Invalid username or password'' None\<rparr>, w')" by auto
    note answer = answer_request [OF rq(1) w'(2)]
    from login_refused [of s ?E "hw_statusText (sv_wire S) 401" "''INVALID_CREDENTIALS''"
        "''Invalid username or password''" redirect] visitor(1) answer(1)
    show ?thesis using None w'(1) answer(2) by (simp add: fetch_result_of_def json_of_payload_def kept)
  next
    case (Some r)
    let ?token = "token_sign (api_jwt (sv_api S)) (api_secret (sv_api S)) (api_expiresIn (sv_api S))
      (login_moment (sv_env S) w r) (toUser r)"
    let ?l = "\<lparr>lr_accessToken = ?token, lr_tokenType = ''Bearer'', lr_expiresIn = api_expiresIn (sv_api S),
      lr_user = toPublicUser (toUser r)\<rparr>"
    from Some served server(1) obtain w' where w': "tables (database w') = tables (database w)"
      "app (sv_env S) (sv_api S) rq (server_at S (wb_trace s)) = (Inr \<lparr>rsp_status = 200, rsp_body = PLogin ?l\<rparr>, w')" by auto
    note answer = answer_request [OF rq(1) w'(2)]
    have fetched: "fetch_answer ?E (wb_trace s @ [?e]) = Response 200 (hw_statusText (sv_wire S) 200) (Some (json_of_login ?l))"
      using answer(1) by (simp add: fetch_result_of_def json_of_payload_def)
    have "lr_accessToken ?l \<noteq> []" using tokens(2) by (simp add: token_sign_def jwt_text_def)
    moreover have "\<not> js_truthy (wb_watched (login_answered ?E s))" "\<not> js_truthy (auth_token (login_answered ?E s))"
      "lv_error (login_answered ?E s) = JStr []"
      using visitor by (simp_all add: kept auth_token_def)
    ultimately have opens: "lv_error (final (login_submit ?E redirect) s) = JStr []"
      "opened ?token (json_of_public_user (toPublicUser (toUser r))) (final (login_submit ?E redirect) s)"
      "wb_authenticated (final (login_submit ?E redirect) s) = live_token ?E (JStr ?token) (web_clock ?E (wb_trace (login_answered ?E s)))"
      "last (wb_trace (final (login_submit ?E redirect) s)) =
        WReplace (case redirect of None \<Rightarrow> ''/'' | Some [] \<Rightarrow> ''/'' | Some p \<Rightarrow> p)"
      using login_accepted [OF visitor(1) fetched, of redirect] by (simp_all add: Let_def)
    have good: "good_until E (sv_api S) ?token
        (login_moment (sv_env S) w r div 1000 + lifetime (api_expiresIn (sv_api S))) r"
      by (rule signed_token_good_until [OF tokens])
    have live: "live_token ?E = live_token E" by (simp add: live_token_def decodeExpiry_connected fun_eq_iff)
    from opens good w'(1) answer(2) Some show ?thesis
      by (simp add: opened_def live) (auto simp: good_until_def)
  qed
qed


text \<open>A server to try it on. Its tokens are those of the demo with a second part, the expiry; its
  \<open>zod\<close> trims and lowers the username.\<close>

definition dotted_jwt :: jwt where
  "dotted_jwt = demo_jwt\<lparr>jwt_sign := \<lambda>role name secret sub expiresIn now.
     jwt_sign demo_jwt role name secret sub expiresIn now @ ''.'' @ enc_text (js_String (now div 1000 + 3600))\<rparr>"

definition login_zod :: zod where
  "login_zod sch v = (if sch = loginBody
     then demo_zod sch (JObject [(''username'', JStr (toLowerCase (js_trim (js_text (js_get v ''username''))))),
       (''password'', js_get v ''password'')])
     else demo_zod sch v)"

definition login_server :: server where
  "login_server = demo_server\<lparr>sv_api := demo_api\<lparr>api_jwt := dotted_jwt, api_zod := login_zod\<rparr>\<rparr>"

definition reading_env :: "'s web_env" where
  "reading_env = \<lparr>fetch_answer = (\<lambda>_. NetworkFailure), meanwhile = (\<lambda>_ s. s), web_clock = (\<lambda>_. 600000),
     decode_json = (\<lambda>t. map_option (\<lambda>n. JObject [(''exp'', JInt n)]) (js_Number (fst (dec_text 0 t))))\<rparr>"

definition visitor_page :: login_view where
  "visitor_page = \<lparr>wb_session = JNull, wb_authenticated = False, wb_watched = JNull, wb_storage = None, wb_toasts = [],
     wb_nextToast = 1, wb_wallet = JNull, wb_loading = False, wb_activity = 0, wb_status = ''offline'', wb_socket = None,
     wb_trace = [], lv_username = '' Ali'', lv_password = ''ali'', lv_error = JStr [], lv_submitting = False\<rparr>"

lemma enc_text_chars: "set (enc_text s) \<subseteq> {CHR ''0'', CHR ''1'', CHR ''2''}"
  by (auto simp: enc_text_def)

lemma split_dots_word: "CHR ''.'' \<notin> set xs \<Longrightarrow> split_dots acc (xs @ ys) = split_dots (rev xs @ acc) ys"
  by (induction xs arbitrary: acc) auto

lemma split_dots_last: "CHR ''.'' \<notin> set xs \<Longrightarrow> split_dots acc xs = [rev acc @ xs]"
  by (induction xs arbitrary: acc) auto

lemma dotted_jwt_documented: "jwt_documented dotted_jwt (\<lambda>_. 3600)"
  by (simp add: jwt_documented_def dotted_jwt_def demo_jwt_def dec_enc Let_def)

lemma dotted_jwt_text: "jwt_text dotted_jwt"
  using demo_jwt_text enc_text_word by (simp add: jwt_text_def dotted_jwt_def js_space_def)

lemma dotted_jwt_readable: "jwt_readable reading_env dotted_jwt (\<lambda>_. 3600)"
proof -
  have "CHR ''.'' \<notin> set (enc_text x)" "map from_base64url (enc_text x) = enc_text x" for x
    using enc_text_chars [of x] by (auto simp: from_base64url_def intro!: map_idI)
  then show ?thesis
    using dec_enc [of _ "[]"]
    by (simp add: jwt_readable_def decodeExpiry_def dotted_jwt_def split_dots_word split_dots_last reading_env_def
        nullish_def expiry_ms_def js_get_Cons demo_jwt_def)
qed

lemma login_zod_documented: "login_documented login_zod"
proof -
  have "conforms loginBody (JObject [(''username'', JStr name), (''password'', JStr password)])"
    if "conforms username (JStr name)" "password \<noteq> []" "length password \<le> 72" for name password
    using that by (auto simp: loginBody_def js_get_Cons Suc_le_eq)
  then show ?thesis
    by (simp add: login_documented_def login_zod_def demo_zod_def js_get_Cons js_text_def)
qed

end
