(* ===== verification/Web_Notify.thy ===== *)
theory Web_Notify
  imports Socket_Theorems Web_Sign_In
begin

text \<open>
  The socket of the browser and the socket server together: the token of a session opens the socket of
  its user, and a transfer is announced on every page its recipient has open, and on no other.
\<close>

section \<open>Events\<close>

text \<open>What the listeners of \<open>src/frontend/src/stores/realtime.js\<close> make of an event of the server, by its
  name; there is no listener for another one.\<close>

definition client_event_of :: "socket_event \<Rightarrow> client_event option" where
  "client_event_of e = (case e of
     SessionReady uid expiresAt \<Rightarrow> Some OnSessionReady
   | SessionExpired \<Rightarrow> Some OnSessionExpired
   | RoomEvent name n \<Rightarrow> if name = ''transfer:received'' then Some (OnTransferReceived n) else None)"

definition on_server_event :: "'z web_scheme web_env \<Rightarrow> socket_event \<Rightarrow> ('z web_scheme, unit) web_eff" where
  "on_server_event E e = (case client_event_of e of Some c \<Rightarrow> on_socket_event E c | None \<Rightarrow> ret ())"

text \<open>\<open>io({ auth: { token } })\<close>\<close>

definition socket_handshake :: "js_value \<Rightarrow> handshake" where
  "socket_handshake token = \<lparr>hs_auth_token = token, hs_authorization = None\<rparr>"

text \<open>A token the API accepts opens a socket of the same user.\<close>

lemma session_opens_its_socket:
  assumes "jwt_documented (api_jwt A) lifetime" "jwt_text (api_jwt A)"
    and "token = token_sign (api_jwt A) (api_secret A) (api_expiresIn A) made user"
  shows "authenticateSocket (token_verify (api_jwt A) (api_secret A) now) (socket_handshake (JStr token)) = Inr u \<longleftrightarrow>
    bearer A now (JStr token) u"
proof -
  have truthy: "js_truthy (JStr token)" using assms(2,3) by (simp add: token_sign_def jwt_text_def js_truthy_def)
  have "authenticate (token_verify (api_jwt A) (api_secret A) now) (Some (''Bearer '' @ token)) =
      token_verify (api_jwt A) (api_secret A) now token"
    unfolding assms(3) signed_token_authenticates [OF assms(1,2)] token_round_trip [OF assms(1)] ..
  then show ?thesis
    using truthy
    by (auto simp: authenticateSocket_def extractSocketToken_def socket_handshake_def verify_value_def bearer_def Let_def
        split: sum.splits)
qed

section \<open>The announcement\<close>

text \<open>A page that announces an amount from a sender: one more message, and the wallet fetched again.\<close>

definition announced :: "int \<Rightarrow> party \<Rightarrow> string option \<Rightarrow> 'z web_scheme \<Rightarrow> 'z web_scheme \<Rightarrow> bool" where
  "announced a sender description p p' \<longleftrightarrow>
     wb_toasts p' = wb_toasts p @ [\<lparr>to_id = wb_nextToast p, to_title = ''+ '' @ formatToman a,
       to_message = ''Received from '' @ p_fullName sender @
         (case description of None \<Rightarrow> [] | Some d \<Rightarrow> if d = [] then [] else '' '' @ [CHR 0xB7] @ '' '' @ d),
       to_type = ''success''\<rparr>] \<and>
     wb_activity p' = wb_activity p + 1 \<and> last (wb_trace p') = WSpawn ''wallet.refresh''"

lemma transfer_event_announces:
  assumes "wb_socket p \<noteq> None"
  shows "announced (tx_amount T) (tx_from T) (tx_description T) p
    (final (on_server_event E (RoomEvent TRANSFER_RECEIVED (notification_of T))) p)"
  using assms
  by (simp add: on_server_event_def client_event_of_def TRANSFER_RECEIVED_def on_socket_event_def notification_of_def
      await_def push_toast_def markActivity_def emit_def announced_def split: option.split list.split)

section \<open>Property\<close>

text \<open>C29: a transfer is announced to its recipient and to no one else: when a transfer has been answered, the
  calls it made, given to the socket server in any reachable state, send one event to each open session
  of the user who received the money and nothing to any other session, and the user of a session is the
  one a verified token named when the socket connected; on every page whose socket is open, the event
  shows one more message, with the amount sent and the name of the sender, and fetches the wallet again.\<close>

theorem transfer_is_announced_to_its_recipient:
  fixes p :: "'z web_scheme" and F :: "'z web_scheme web_env"
  assumes "io_reachable verify lag st" and "0 \<le> lag"
    and "quiet E" and "db_ok (database w)" and "db_safe (database w)" and "isSafeInteger a"
    and "transfer_service E th f t (Some a) ds w = (Inr (Some T), w')" and "trace w' = trace w @ es"
  shows "io_sent (deliver_all es st) = io_sent st @
      map (\<lambda>s. (s_id s, io_now st, RoomEvent TRANSFER_RECEIVED (notification_of T))) (sessions_of t st) \<and>
    (\<forall>s \<in> set (sessions_of t st). au_id (s_user s) = Some t \<and>
       (\<exists>t0 token. t0 \<le> s_connectedAt s \<and> verify t0 token = Inr (s_user s))) \<and>
    p_userId (tx_from T) = f \<and> p_userId (tx_to T) = t \<and>
    (wb_socket p \<noteq> None \<longrightarrow>
       announced a (tx_from T) (tx_description T) p
         (final (on_server_event F (RoomEvent TRANSFER_RECEIVED (notification_of T))) p))"
proof -
  obtain tid st' d' where out: "transfer_outcome f t (Some a) ds th (at_query E ''CALL transfer_funds'' w) = (Inr (tid, st'), d')"
    using transfer_service_failure [OF assms(3,4), where f = f and t = t and amount = "Some a" and ds = ds and th = th] assms(7)
    by (cases "transfer_outcome f t (Some a) ds th (at_query E ''CALL transfer_funds'' w)"; cases "fst (transfer_outcome f t (Some a) ds th (at_query E ''CALL transfer_funds'' w))") fastforce+
  from transfer_service_success [OF assms(3-6) out] assms(7)
  have T: "tx_amount T = a" "p_userId (tx_from T) = f" "p_userId (tx_to T) = t" by auto
  with transfer_event_announces [of p T F] notifications_reach_the_recipient_only [OF assms] show ?thesis by simp
qed

text \<open>The page of the second user of the demo.\<close>

definition waiting_page :: login_view where
  "waiting_page = visitor_page\<lparr>wb_socket := Some (JStr ''token'')\<rparr>"

theorem transfer_is_announced_to_its_recipient_witness:
  "\<exists>T. announced 6000000 (tx_from T) (tx_description T) waiting_page
     (final (on_server_event reading_env (RoomEvent TRANSFER_RECEIVED (notification_of T))) waiting_page) \<and>
   p_userId (tx_from T) = 1 \<and> p_userId (tx_to T) = 2"
proof -
  have a: "isSafeInteger 6000000" by (simp add: isSafeInteger_def MAX_SAFE_INTEGER_def)
  obtain T w' es where run: "transfer_service demo_env 5000000 1 2 (Some 6000000) None demo_world = (Inr (Some T), w')"
    "trace w' = trace demo_world @ es" using demo_transfer_trace by blast
  have "wb_socket waiting_page \<noteq> None" by (simp add: waiting_page_def)
  with transfer_is_announced_to_its_recipient [OF demo_io_reachable _ demo_safe_args a run, of waiting_page reading_env]
  show ?thesis by auto
qed

end
