(* ===== verification/Registration.thy ===== *)
theory Registration
  imports Access_Theorems
begin

text \<open>
  Registration on every branch: with input the API lets through, the username decides. A taken one is a
  conflict; a free one always gets its account, in any whole database.
\<close>

section \<open>The two inserts\<close>

definition new_user :: "string \<Rightarrow> string \<Rightarrow> string \<Rightarrow> db \<Rightarrow> user_row" where
  "new_user name hash full_name d = \<lparr>u_id = users_seq d, u_username = name, u_password_hash = hash,
     u_full_name = full_name, u_role = USER, u_created_at = now_ts d, u_updated_at = now_ts d\<rparr>"

text \<open>What a registration asks of its input.\<close>

definition account_ok :: "string \<Rightarrow> string \<Rightarrow> bool" where
  "account_ok name full_name \<longleftrightarrow>
     username_format name \<and> length full_name \<le> 100 \<and> (\<exists>c \<in> set full_name. c \<noteq> CHR '' '')"

lemma trimmed_not_blank:
  assumes "js_trim s = s" "s \<noteq> []"
  shows "\<exists>c \<in> set s. c \<noteq> CHR '' ''"
proof (rule ccontr)
  assume "\<not> ?thesis"
  moreover have "js_space (CHR '' '')" by (simp add: js_space_def)
  ultimately have "\<forall>c \<in> set s. js_space c" by metis
  then have "dropWhile js_space s = []" by (simp only: dropWhile_eq_Nil_conv)
  then have "js_trim s = []" unfolding js_trim_def by (simp only: rev.simps dropWhile.simps)
  with assms show False by simp
qed

lemma insert_user_new:
  assumes "db_ok d" "account_ok name full_name" "name \<notin> u_username ` set (users d)"
  shows "insert_user name hash full_name USER d =
    (Inr (new_user name hash full_name d), d\<lparr>users_seq := users_seq d + 1, users := users d @ [new_user name hash full_name d]\<rparr>)"
proof -
  have "users_seq d \<notin> u_id ` set (users d)" using assms(1) by (auto simp: db_ok_def wf_users_def)
  moreover have "varchar 50 name = Inr name" "varchar 100 full_name = Inr full_name"
    using assms(2) by (simp_all add: account_ok_def varchar_def username_format_def)
  ultimately show ?thesis
    using assms(2,3)
    by (simp add: insert_user_def lift_check_def account_ok_def users_check_def guard_not_def new_user_def Let_def)
qed

text \<open>A wallet for a user who is in the table and has none.\<close>

definition new_wallet :: "int \<Rightarrow> int \<Rightarrow> db \<Rightarrow> wallet_row" where
  "new_wallet uid b d = \<lparr>w_id = wallets_seq d, w_user_id = uid, w_balance = b, w_created_at = now_ts d,
     w_updated_at = now_ts d\<rparr>"

lemma insert_wallet_new:
  assumes fresh: "wallets_seq d \<notin> w_id ` set (wallets d)" "ledger_seq d \<notin> l_id ` set (transaction_ledger d)"
    and user: "uid \<in> u_id ` set (users d)" "uid \<notin> w_user_id ` set (wallets d)"
    and b: "0 \<le> b" "int8_ok b"
  shows "\<exists>d'. insert_wallet uid b d = (Inr (new_wallet uid b d), d')"
proof (cases "0 < b")
  case True
  then have "ledger_check \<lparr>l_id = ledger_seq d, l_wallet_id = wallets_seq d, l_transaction_id = None,
      l_entry_type = OPENING, l_amount = b, l_balance_before = 0, l_balance_after = b, l_created_at = now_ts d\<rparr>"
    by (simp add: ledger_check_def)
  with True show ?thesis
    using fresh user b
    by (simp add: insert_wallet_def fn_wallet_balance_ledger_insert_def insert_ledger_def wallets_check_def guard_not_def
        new_wallet_def await_def Let_def)
next
  case False
  then show ?thesis
    using fresh user b
    by (simp add: insert_wallet_def fn_wallet_balance_ledger_insert_def wallets_check_def guard_not_def new_wallet_def
        await_def Let_def)
qed

section \<open>The transaction\<close>

lemma create_calm:
  assumes "calm E" "open_tx w = Some (d0, False)" "stmt (database w) = (Inr row, d')" "list_all isSafeInteger (ints row)"
  shows "await (query E Client lbl stmt) (\<lambda>row. await (parse_int8s (ints row)) (\<lambda>_. ret (f row))) w =
    (Inr (f row), w\<lparr>trace := trace w @ [EvQuery lbl], database := d', open_tx := Some (d0, False)\<rparr>)"
  using assms by (simp add: await_def client_query_calm parse_int8s_safe)

lemma register_work_new:
  assumes env: "calm E" and tx: "open_tx w = Some (d0, False)" and ok: "db_ok (database w)"
    and input: "account_ok name full_name" "name \<notin> u_username ` set (users (database w))"
    and b: "0 \<le> b" "isSafeInteger b"
    and ids: "isSafeInteger (users_seq (database w))" "isSafeInteger (wallets_seq (database w))"
  shows "\<exists>r w'. register_work E b USER name hash full_name w = (Inr r, w') \<and>
    reg_user r = toPublicUser (toUser (new_user name hash full_name (database w)))"
proof -
  let ?d = "database w" and ?u = "new_user name hash full_name (database w)"
  let ?d1 = "?d\<lparr>users_seq := users_seq ?d + 1, users := users ?d @ [?u]\<rparr>"
  let ?w1 = "w\<lparr>trace := trace w @ [EvQuery ''users.create''], database := ?d1, open_tx := Some (d0, False)\<rparr>"
  let ?x = "new_wallet (u_id ?u) b ?d1"
  have "users_create E name hash full_name USER Client w = (Inr (toUser ?u), ?w1)"
    unfolding users_create_def using ids(1)
    by (intro create_calm [OF env tx] insert_user_new [OF ok input]) (simp add: new_user_def)
  moreover have "\<exists>d'. insert_wallet (u_id ?u) b ?d1 = (Inr ?x, d')"
  proof (rule insert_wallet_new)
    show "u_id ?u \<notin> w_user_id ` set (wallets ?d1)"
      using ok unfolding db_ok_def wf_wallets_def wf_users_def new_user_def by force
    show "int8_ok b" using b(2) by (auto simp: isSafeInteger_def MAX_SAFE_INTEGER_def int8_ok_def)
  qed (use ok b(1) in \<open>auto simp: db_ok_def wf_wallets_def wf_ledger_def new_user_def\<close>)
  then obtain d' where "insert_wallet (u_id ?u) b (database ?w1) = (Inr ?x, d')" by auto
  moreover have "list_all isSafeInteger (wallet_int8s ?x)"
    using ids b by (simp add: wallet_int8s_def new_wallet_def new_user_def)
  moreover have "user_id (toUser ?u) = u_id ?u" by (simp add: toUser_def)
  ultimately have "\<exists>v. wallets_create E (user_id (toUser ?u)) b Client ?w1 = (Inr (toWallet ?x), v)"
    unfolding wallets_create_def by (intro exI) (simp only:, rule create_calm [OF env], simp_all)
  with \<open>users_create E name hash full_name USER Client w = _\<close> show ?thesis by (auto simp: register_work_def await_def)
qed

section \<open>The service\<close>

text \<open>The answer and the database afterwards, for input that is well-formed and a hash that \<open>bcrypt\<close> gives.\<close>

lemma public_id: "pu_id (toPublicUser (toUser u)) = u_id u"
  by (simp add: toPublicUser_def toUser_def)

text \<open>What \<open>bcrypt\<close> promises of a password: it can be hashed, and the hash accepts it.\<close>

definition hashes :: "env \<Rightarrow> string \<Rightarrow> bool" where
  "hashes E password \<longleftrightarrow> (\<forall>tr. case bcrypt_hash E (tr @ [EvHash password BCRYPT_ROUNDS]) of
     Inl _ \<Rightarrow> False | Inr h \<Rightarrow> bcrypt_compare E password h)"

text \<open>The database before and after: a user and their wallet more, and nothing else but the sequences.\<close>

definition account_opened :: "env \<Rightarrow> int \<Rightarrow> string \<Rightarrow> string \<Rightarrow> string \<Rightarrow> db \<Rightarrow> user_row \<Rightarrow> db \<Rightarrow> bool" where
  "account_opened E b name password full_name d u d' \<longleftrightarrow>
     u_id u = users_seq d \<and> u_username u = name \<and> u_full_name u = full_name \<and> u_role u = USER \<and>
     bcrypt_compare E password (u_password_hash u) \<and>
     users d' = users d @ [u] \<and> u_id u \<notin> u_id ` set (users d) \<and> transactions d' = transactions d \<and>
     bank_of d' = (bank_of d)(u_id u \<mapsto> b)"

lemma find_append: "find P (xs @ ys) = (case find P xs of None \<Rightarrow> find P ys | Some x \<Rightarrow> Some x)"
  by (induction xs) simp_all

lemma registered_account:
  assumes "registered d b USER name h full_name r d'" "account_ok name full_name" "pu_id (reg_user r) = users_seq d"
    "bcrypt_compare E password h" "wf_wallets d"
  shows "\<exists>u. account_opened E b name password full_name d u d'"
proof -
  have len: "length name \<le> 50" "length full_name \<le> 100"
    using assms(2) by (simp_all add: account_ok_def username_format_def)
  from assms(1) obtain u w where uw: "users d' = users d @ [u]" "wallets d' = wallets d @ [w]" "transactions d' = transactions d"
    "varchar 50 name = Inr (u_username u)" "varchar 100 full_name = Inr (u_full_name u)"
    "u_password_hash u = h" "u_role u = USER" "u_id u \<notin> u_id ` set (users d)" "w_user_id w = u_id u" "w_balance w = b"
    "r = \<lparr>reg_user = toPublicUser (toUser u), reg_wallet_id = w_id w, reg_wallet_balance = b\<rparr>"
    unfolding registered_def by blast
  then have "u_username u = name" "u_full_name u = full_name" using len by (auto simp: varchar_def)
  moreover have "u_id u = users_seq d" using assms(3) uw(11) by (simp add: public_id)
  moreover have "u_id u \<notin> w_user_id ` set (wallets d)" using assms(5) uw(8) by (auto simp: wf_wallets_def)
  then have "find (\<lambda>w. w_user_id w = u_id u) (wallets d) = None" by (force simp: find_None_iff)
  then have "bank_of d' = (bank_of d)(u_id u \<mapsto> b)"
    using uw(2,9,10) by (simp add: bank_of_def wallet_of_def find_append fun_eq_iff split: option.split)
  ultimately show ?thesis using uw assms(4) unfolding account_opened_def by blast
qed

lemma auth_register_outcome:
  assumes env: "quiet E" and w: "db_ok (database w)" "open_tx w = None" "user_ids_safe (database w)"
    and input: "account_ok name full_name"
    and b: "0 \<le> b" "isSafeInteger b"
    and ids: "isSafeInteger (users_seq (database w))" "isSafeInteger (wallets_seq (database w))"
    and hash: "hashes E password"
  shows "\<exists>w'. if name \<in> u_username ` set (users (database w))
    then auth_register E b name password full_name w = (Inl (conflict ''USERNAME_TAKEN'' ''Username is already taken''), w') \<and>
      tables (database w') = tables (database w)
    else (\<exists>r u. auth_register E b name password full_name w = (Inr r, w') \<and> db_ok (database w') \<and>
      account_opened E b name password full_name (database w) u (database w'))"
proof -
  let ?lbl = "''users.findByUsername''"
  let ?w1 = "after_read E ?lbl w"
  show ?thesis
  proof (cases "name \<in> u_username ` set (users (database w))")
    case True
    then obtain u where u: "find (\<lambda>u. u_username u = name) (users (database w)) = Some u"
      by (cases "find (\<lambda>u. u_username u = name) (users (database w))") (auto simp: find_None_iff)
    then have "isSafeInteger (u_id u)" using w(3) by (auto simp: user_ids_safe_def dest!: find_SomeD)
    with u have "users_findByUsername E name Pool w = (Inr (Some (toUser u)), ?w1)"
      by (simp add: users_findByUsername_def await_def query_quiet_read [OF env] optional_row_def parse_int8_def at_query_def)
    with True show ?thesis by (simp add: auth_register_split await_def guard_not_def)
  next
    case False
    then have "find (\<lambda>u. u_username u = name) (users (database w)) = None" by (auto simp: find_None_iff)
    then have found: "users_findByUsername E name Pool w = (Inr None, ?w1)"
      by (simp add: users_findByUsername_def await_def query_quiet_read [OF env] optional_row_def at_query_def)
    obtain h where h: "bcrypt_hash E (trace ?w1 @ [EvHash password BCRYPT_ROUNDS]) = Inr h" "bcrypt_compare E password h"
      using hash [unfolded hashes_def, THEN spec, of "trace ?w1"]
      by (cases "bcrypt_hash E (trace ?w1 @ [EvHash password BCRYPT_ROUNDS])") simp_all
    let ?w2 = "?w1\<lparr>trace := trace ?w1 @ [EvHash password BCRYPT_ROUNDS]\<rparr>"
    note calm = quiet_calm [OF env]
    have d: "begin_db E ?w2 = (database ?w2)\<lparr>now_ts := clock E (trace ?w2 @ [EvConnect, EvBegin]),
        next_uuid := gen_uuid E (trace ?w2 @ [EvConnect, EvBegin])\<rparr>"
      using env by (simp add: begin_db_def session_start_def quiet_def)
    have t: "users (begin_db E ?w2) = users (database w)" "users_seq (begin_db E ?w2) = users_seq (database w)"
      "wallets_seq (begin_db E ?w2) = wallets_seq (database w)" "db_ok (begin_db E ?w2)"
      using w(1) unfolding d by (simp_all add: after_read_def at_query_def whole.commit) (simp_all add: commit_db_def)
    have o: "open_tx (begun E ?w2) = Some (begin_db E ?w2, False)" "database (begun E ?w2) = begin_db E ?w2"
      by (simp_all add: begun_def)
    obtain r v where work: "register_work E b USER name h full_name (begun E ?w2) = (Inr r, v)"
      "reg_user r = toPublicUser (toUser (new_user name h full_name (begin_db E ?w2)))"
      using register_work_new [OF calm o(1) _ input _ b, of h] o(2) t False ids by auto
    obtain w' where tx: "withTransaction E (register_work E b USER name h full_name) ?w2 = (Inr r, w')"
      using work(1) by (simp add: withTransaction_calm [OF calm])
    from register_tx_quiet [OF env tx]
    have reg: "registered (database ?w2) b USER name h full_name r (database w')" "open_tx w' = None" by simp_all
    have "tables (database ?w2) = tables (database w)" by simp
    then have "registered (database w) b USER name h full_name r (database w')"
      by (intro registered_tables [OF reg(1)]) simp_all
    moreover have "pu_id (reg_user r) = users_seq (database w)"
      by (simp only: work(2) public_id) (simp only: new_user_def user_row.simps t)
    ultimately obtain u where u: "account_opened E b name password full_name (database w) u (database w')"
      using registered_account [OF _ input _ h(2)] w(1) unfolding db_ok_def by blast
    have run: "auth_register E b name password full_name w = (Inr r, w')"
      using found h tx by (simp add: auth_register_split await_def guard_not_def call_def Let_def)
    have "others_keep db_ok E" using env by (auto simp: quiet_def others_keep_def db_ok_def)
    from keepsE [OF integrity.keeps_auth_register [OF this] _ run] w(1,2) have "db_ok (database w')"
      by (simp add: idle_inv_def)
    with u run show ?thesis using False by auto
  qed
qed

end
