(* ===== verification/Web_Sign_Up.thy ===== *)
theory Web_Sign_Up
  imports Web_Sign_In Registration
begin

text \<open>
  The registration page and the server together: what pressing the button does to the accounts of the
  server, and the session that follows without another form to fill in.
\<close>

section \<open>The server's side\<close>

text \<open>\<open>zod\<close> on the registration schema: name and username trimmed, the username lowered.\<close>

definition register_documented :: "zod \<Rightarrow> bool" where
  "register_documented Z \<longleftrightarrow> (\<forall>full name password.
     conforms username (JStr (toLowerCase (js_trim name))) \<longrightarrow> 8 \<le> length password \<longrightarrow> length password \<le> 72 \<longrightarrow>
     js_trim full \<noteq> [] \<longrightarrow> length (js_trim full) \<le> 100 \<longrightarrow>
     (\<exists>d. Z registerBody (JObject [(''fullName'', JStr full), (''username'', JStr name), (''password'', JStr password)]) = Inr d \<and>
        js_get d ''username'' = JStr (toLowerCase (js_trim name)) \<and> js_get d ''password'' = JStr password \<and>
        js_get d ''fullName'' = JStr (js_trim full)))"

lemma register_routed:
  assumes "express_routes (api_express A) ''POST'' ''/api/auth/register'' ''/api/auth'' ''/register''"
    and rq: "rq_method rq = ''POST''" "rq_url rq = ''/api/auth/register''" "rq_body rq = Inr v" "v \<noteq> JUndefined" "v \<noteq> JNull"
    and zod: "api_zod A registerBody v = Inr d"
  shows "run_routers A now createRouter rq =
    Inr (Some Register, rq\<lparr>rq_params := JObject [], rq_validated := [(''body'', d)]\<rparr>)"
proof -
  note routes = express_routesD [OF assms(1) rq(1,2)]
  have mounted: "ex_mounted (api_express A) p rq = (p = ''/api/auth'')" if "p \<in> {''/health'', ''/api/auth''}" for p
    using that by (intro routes(1)) (auto simp: createRouter_prefixes)
  show ?thesis
    using zod rq(3-5) routes(2)
    by (simp add: createRouter_def auth_router_def mounted run_middleware_def validate_def validate_source_def
        body_schema_def request_body_def)
qed

lemma conforms_account_ok:
  assumes "conforms username (JStr name)" "js_trim full = full" "full \<noteq> []" "length full \<le> 100"
  shows "account_ok name full"
  using assms trimmed_not_blank [OF assms(2,3)] by (simp add: username_def account_ok_def)

lemma errorHandler_taken:
  "errorHandler (conflict ''USERNAME_TAKEN'' ''Username is already taken'') w = (Inr \<lparr>rsp_status = 409,
     rsp_body = PError ''USERNAME_TAKEN'' ''Username is already taken'' None\<rparr>, w)"
proof -
  let ?e = "conflict ''USERNAME_TAKEN'' ''Username is already taken''"
  have "translate_error ?e = ?e"
    unfolding translate_error_def
    by (subst mapDatabaseError_unmapped) (simp_all add: conflict_def AppError_def mapped_code_iff)
  then show ?thesis by (simp add: errorHandler_def) (simp add: conflict_def AppError_def error_code_def)
qed

text \<open>A database a registration finds room in: whole, between transactions, its next ids readable.\<close>

definition registers :: "env \<Rightarrow> world \<Rightarrow> bool" where
  "registers E w \<longleftrightarrow> quiet E \<and> db_ok (database w) \<and> open_tx w = None \<and> user_ids_safe (database w) \<and>
     isSafeInteger (users_seq (database w)) \<and> isSafeInteger (wallets_seq (database w))"

lemma served_register:
  assumes at: "registers E w" and b: "0 \<le> api_initialBalance A" "isSafeInteger (api_initialBalance A)"
    and hash: "hashes E password" and zod: "register_documented (api_zod A)"
    and routes: "express_routes (api_express A) ''POST'' ''/api/auth/register'' ''/api/auth'' ''/register''"
    and rq: "rq_method rq = ''POST''" "rq_url rq = ''/api/auth/register''"
      "rq_body rq = Inr (JObject [(''fullName'', JStr full), (''username'', JStr typed), (''password'', JStr password)])"
    and input: "conforms username (JStr (toLowerCase (js_trim typed)))" "8 \<le> length password" "length password \<le> 72"
      "js_trim full \<noteq> []" "length (js_trim full) \<le> 100"
  shows "\<exists>w'. if toLowerCase (js_trim typed) \<in> u_username ` set (users (database w))
    then app E A rq w = (Inr \<lparr>rsp_status = 409,
        rsp_body = PError ''USERNAME_TAKEN'' ''Username is already taken'' None\<rparr>, w') \<and> tables (database w') = tables (database w)
    else (\<exists>r u. app E A rq w = (Inr \<lparr>rsp_status = 201, rsp_body = PRegistration r\<rparr>, w') \<and> db_ok (database w') \<and>
      account_opened E (api_initialBalance A) (toLowerCase (js_trim typed)) password (js_trim full) (database w) u (database w'))"
proof -
  let ?name = "toLowerCase (js_trim typed)" and ?full = "js_trim full"
  from zod input obtain d where
    d: "api_zod A registerBody (JObject [(''fullName'', JStr full), (''username'', JStr typed), (''password'', JStr password)]) = Inr d"
    "js_get d ''username'' = JStr ?name" "js_get d ''password'' = JStr password" "js_get d ''fullName'' = JStr ?full"
    unfolding register_documented_def by blast
  from register_routed [OF routes rq _ _ d(1)] d(2-4)
  have app: "app E A rq w = try_catch (ok_json 201 PRegistration (auth_register E (api_initialBalance A) ?name password ?full))
      errorHandler w"
    by (simp add: app_split [OF rq(3)] handle_def auth_controller_register_def validated_def js_text_def)
  have "account_ok ?name ?full" using input by (intro conforms_account_ok js_trim_idem)
  then obtain w' where "if ?name \<in> u_username ` set (users (database w))
    then auth_register E (api_initialBalance A) ?name password ?full w =
        (Inl (conflict ''USERNAME_TAKEN'' ''Username is already taken''), w') \<and> tables (database w') = tables (database w)
    else (\<exists>r u. auth_register E (api_initialBalance A) ?name password ?full w = (Inr r, w') \<and> db_ok (database w') \<and>
      account_opened E (api_initialBalance A) ?name password ?full (database w) u (database w'))"
    using auth_register_outcome [OF _ _ _ _ _ b _ _ hash] at unfolding registers_def by blast
  then show ?thesis
    by (auto simp: app ok_json_def try_catch_def await_def errorHandler_taken split: if_splits intro!: exI [of _ w'])
qed

text \<open>The login that follows, at the server with the account.\<close>

definition login_result :: "env \<Rightarrow> api \<Rightarrow> world \<Rightarrow> user_row \<Rightarrow> login_response" where
  "login_result E A w u = \<lparr>lr_accessToken = token_sign (api_jwt A) (api_secret A) (api_expiresIn A) (login_moment E w u) (toUser u),
     lr_tokenType = ''Bearer'', lr_expiresIn = api_expiresIn A, lr_user = toPublicUser (toUser u)\<rparr>"

lemma opened_account_accepted:
  assumes "account_opened E b name password full d u d'" "name \<notin> u_username ` set (users d)"
  shows "accepted E name password d' = Some u"
proof -
  have "find (\<lambda>u. u_username u = name) (users d) = None" using assms(2) by (force simp: find_None_iff)
  with assms(1) show ?thesis by (simp add: account_opened_def accepted_def user_named_def find_append)
qed

lemma served_first_login:
  assumes at: "registers E w" "account_opened E b (toLowerCase (js_trim typed)) password full (database w) u (database w1)"
      "toLowerCase (js_trim typed) \<notin> u_username ` set (users (database w))"
    and zod: "login_documented (api_zod A)"
    and routes: "express_routes (api_express A) ''POST'' ''/api/auth/login'' ''/api/auth'' ''/login''"
      "\<And>rq. rq_method rq = ''POST'' \<Longrightarrow> rq_url rq = ''/api/auth/login'' \<Longrightarrow>
        ex_params (api_express A) ''/api/auth'' ''/register'' ''POST'' rq = None"
    and rq: "rq_method rq = ''POST''" "rq_url rq = ''/api/auth/login''"
      "rq_body rq = Inr (JObject [(''username'', JStr typed), (''password'', JStr password)])"
    and name: "conforms username (JStr (toLowerCase (js_trim typed)))" "8 \<le> length password" "length password \<le> 72"
  shows "\<exists>w2. tables (database w2) = tables (database w1) \<and>
    app E A rq w1 = (Inr \<lparr>rsp_status = 200, rsp_body = PLogin (login_result E A w1 u)\<rparr>, w2)"
proof -
  have "user_ids_safe (database w1)" "quiet E"
    using at(1,2) by (simp_all add: user_ids_safe_def account_opened_def registers_def)
  moreover have "password \<noteq> []" using name(2) by auto
  ultimately have "\<exists>w2. tables (database w2) = tables (database w1) \<and>
    app E A rq w1 = (case accepted E (toLowerCase (js_trim typed)) password (database w1) of
      None \<Rightarrow> (Inr \<lparr>rsp_status = 401,
        rsp_body = PError ''INVALID_CREDENTIALS'' ''Invalid username or password'' None\<rparr>, w2)
    | Some u \<Rightarrow> (Inr \<lparr>rsp_status = 200, rsp_body = PLogin (login_result E A w1 u)\<rparr>, w2))"
    unfolding login_result_def by (intro served_login zod routes rq name)
  then show ?thesis unfolding opened_account_accepted [OF at(2,3)] option.case .
qed

section \<open>The browser's side\<close>

definition register_payload :: "register_view \<Rightarrow> js_value" where
  "register_payload s = JObject [(''fullName'', JStr (js_trim (rv_fullName s))),
     (''username'', JStr (js_trim (rv_username s))), (''password'', JStr (rv_password s))]"

definition first_credentials :: "register_view \<Rightarrow> js_value" where
  "first_credentials s = JObject [(''username'', JStr (js_trim (rv_username s))), (''password'', JStr (rv_password s))]"

definition register_fetch :: "register_view \<Rightarrow> web_ev" where
  "register_fetch s = WFetch ''POST'' ''/api/auth/register'' [] JUndefined (register_payload s)"

definition first_login :: "register_view \<Rightarrow> web_ev" where
  "first_login s = WFetch ''POST'' ''/api/auth/login'' [] JUndefined (first_credentials s)"

definition registering :: "register_view \<Rightarrow> web_ev list \<Rightarrow> register_view" where
  "registering s es = s\<lparr>rv_error := JStr [], rv_fieldErrors := [], rv_submitting := True, wb_trace := wb_trace s @ es\<rparr>"

lemma auth_token_registering [simp]: "auth_token (registering s es) = auth_token s" "wb_trace (registering s es) = wb_trace s @ es"
  by (simp_all add: registering_def auth_token_def)

lemma register_submit_asks:
  assumes "\<not> js_truthy (auth_token s)"
    and "receive E (auth_token s) (registering s [register_fetch s]) = (Inl err, t)"
    and "we_details err = JUndefined"
  shows "final (register_submit E) s = t\<lparr>rv_error := we_message err, rv_fieldErrors := [], rv_submitting := False\<rparr>"
proof -
  let ?s = "registering s []"
  have "authApi_register E (register_payload s) ?s = (Inl err, t)"
    using assms by (simp add: authApi_register_def http_post_def request_emits registering_def register_fetch_def auth_token_def)
  then show ?thesis
    using assms(3)
    by (simp add: register_submit_def auth_store_register_def register_payload_def registering_def try_finally_def
        try_catch_def await_def field_errors_def or_else_def nullish_def)
qed

lemma register_refused:
  assumes "\<not> js_truthy (auth_token s)" "\<And>tr x. meanwhile E tr x = x"
    and "fetch_answer E (wb_trace s @ [register_fetch s]) = Response 409 text (Some (json_of_error code msg None))"
  shows "final (register_submit E) s = s\<lparr>rv_error := JStr msg, rv_fieldErrors := [], rv_submitting := False,
    wb_trace := wb_trace s @ [register_fetch s]\<rparr>"
proof -
  have "\<not> nullish (json_of_error code msg None)" by (simp add: nullish_def json_of_error_def)
  then have "receive E (auth_token s) (registering s [register_fetch s]) =
      (Inl (ApiError 409 (JStr code) (JStr msg) JUndefined), registering s [register_fetch s])"
    using assms by (simp add: receive_def await_def Let_def js_get_error or_else_def nullish_def js_get_Cons)
  from register_submit_asks [OF assms(1) this] show ?thesis by (simp add: ApiError_def registering_def)
qed

lemma register_accepted:
  assumes "\<not> js_truthy (auth_token s)" "\<not> js_truthy (wb_watched s)" "\<And>tr x. meanwhile E tr x = x"
    and r: "fetch_answer E (wb_trace s @ [register_fetch s]) = Response 201 text (Some v)"
    and l: "fetch_answer E (wb_trace s @ [register_fetch s, first_login s]) = Response 200 text' (Some (json_of_login l))"
      "lr_accessToken l \<noteq> []"
  shows "final (register_submit E) s = (let t = signed_in E l (registering s [register_fetch s, first_login s]) in
    t\<lparr>wb_trace := wb_trace t @ [WReplace ''/''], rv_submitting := False\<rparr>)"
proof -
  let ?s = "registering s []" and ?s1 = "registering s [register_fetch s]"
    and ?s2 = "registering s [register_fetch s, first_login s]"
  have "receive E (auth_token s) ?s1 = (Inr v, ?s1)"
    using receive_answer [of E ?s1 201 "text" v] r assms(3) by simp
  then have "authApi_register E (register_payload s) ?s = (Inr v, ?s1)"
    using assms(1) by (simp add: authApi_register_def http_post_def request_emits registering_def register_fetch_def auth_token_def)
  moreover have "receive E (auth_token s) ?s2 = (Inr (json_of_login l), ?s2)"
    using receive_answer [of E ?s2 200 "text'" "json_of_login l"] l(1) assms(3) by simp
  then have "authApi_login E (first_credentials s) ?s1 = (Inr (json_of_login l), ?s2)"
    using assms(1) by (simp add: authApi_login_def http_post_def request_emits registering_def first_login_def auth_token_def)
  moreover have "\<not> js_truthy (wb_watched ?s2)" "\<not> js_truthy (auth_token ?s2)"
    using assms(1,2) by (simp_all add: registering_def auth_token_def)
  note opens = store_login_opens [OF l(2) this]
  have "js_get (register_payload s) ''username'' = JStr (js_trim (rv_username s))"
    "js_get (register_payload s) ''password'' = JStr (rv_password s)"
    by (simp_all add: register_payload_def js_get_Cons)
  ultimately have "await (auth_store_register E (register_payload s)) (\<lambda>_. emit (WReplace ''/'')) ?s =
      emit (WReplace ''/'') (signed_in E l ?s2)"
    by (simp add: auth_store_register_def auth_store_login_def await_assoc first_credentials_def [symmetric] opens)
  moreover have "register_payload ?s = register_payload s" by (simp add: register_payload_def registering_def)
  ultimately show ?thesis
    by (simp add: register_submit_def try_finally_def try_catch_def emit_def Let_def
        register_payload_def [symmetric] registering_def)
qed

lemma register_session:
  assumes "\<not> js_truthy (auth_token s)" "\<not> js_truthy (wb_watched s)" "\<And>tr x. meanwhile E tr x = x"
    and "fetch_answer E (wb_trace s @ [register_fetch s]) = Response 201 text (Some v)"
    and "fetch_answer E (wb_trace s @ [register_fetch s, first_login s]) = Response 200 text' (Some (json_of_login l))"
    and "lr_accessToken l \<noteq> []"
  shows "let s' = final (register_submit E) s in
    opened (lr_accessToken l) (json_of_public_user (lr_user l)) s' \<and> \<not> rv_submitting s' \<and> rv_error s' = JStr [] \<and>
    wb_authenticated s' = live_token E (JStr (lr_accessToken l)) (web_clock E (wb_trace s @ [register_fetch s, first_login s])) \<and>
    last (wb_trace s') = WReplace ''/''"
  unfolding register_accepted [OF assms] by (simp add: Let_def signed_in_def opened_def registering_def)

section \<open>Property\<close>

text \<open>What a registration leads to: no account and a message, or one account and a session of it.\<close>

definition name_taken :: "register_view \<Rightarrow> register_view \<Rightarrow> bool" where
  "name_taken s s' \<longleftrightarrow> rv_error s' = JStr ''Username is already taken'' \<and> rv_fieldErrors s' = [] \<and>
     wb_session s' = wb_session s"

definition account_session ::
  "register_view web_env \<Rightarrow> server \<Rightarrow> (string \<Rightarrow> int) \<Rightarrow> world \<Rightarrow> user_row \<Rightarrow> register_view \<Rightarrow> bool" where
  "account_session E S lifetime w u s' \<longleftrightarrow> (\<exists>token expiry.
     expiry = login_moment (sv_env S) w u div 1000 + lifetime (api_expiresIn (sv_api S)) \<and>
     opened token (json_of_public_user (toPublicUser (toUser u))) s' \<and> good_until E (sv_api S) token expiry u \<and>
     ((\<forall>tr. web_clock E tr div 1000 < expiry) \<longrightarrow> wb_authenticated s')) \<and>
     rv_error s' = JStr [] \<and> last (wb_trace s') = WReplace ''/''"

lemma first_session:
  assumes "\<not> js_truthy (auth_token s)" "\<not> js_truthy (wb_watched s)" "\<And>tr x. meanwhile E tr x = x"
    and tokens: "jwt_documented (api_jwt (sv_api S)) lifetime" "jwt_text (api_jwt (sv_api S))"
      "jwt_readable E (api_jwt (sv_api S)) lifetime"
    and answers: "answer_of S (wb_trace s @ [register_fetch s]) = Response 201 text (Some v)"
      "answer_of S (wb_trace s @ [register_fetch s, first_login s]) =
        Response 200 text' (Some (json_of_login (login_result (sv_env S) (sv_api S) w u)))"
  shows "account_session E S lifetime w u (final (register_submit (connected S E)) s)"
    "\<not> rv_submitting (final (register_submit (connected S E)) s)"
proof -
  let ?r = "login_result (sv_env S) (sv_api S) w u" and ?s = "final (register_submit (connected S E)) s"
  have "lr_accessToken ?r \<noteq> []" using tokens(2) by (simp add: login_result_def token_sign_def jwt_text_def)
  note session = register_session [of s "connected S E", OF assms(1,2) _ _ _ this]
  have s: "opened (lr_accessToken ?r) (json_of_public_user (toPublicUser (toUser u))) ?s" "\<not> rv_submitting ?s"
    "rv_error ?s = JStr []" "last (wb_trace ?s) = WReplace ''/''"
    "wb_authenticated ?s = live_token (connected S E) (JStr (lr_accessToken ?r))
       (web_clock E (wb_trace s @ [register_fetch s, first_login s]))"
    using session assms(3) answers by (simp_all add: Let_def opened_def login_result_def)
  have good: "good_until E (sv_api S) (lr_accessToken ?r) (login_moment (sv_env S) w u div 1000 +
      lifetime (api_expiresIn (sv_api S))) u"
    using signed_token_good_until [OF tokens] by (simp add: login_result_def)
  have "live_token (connected S E) = live_token E" by (simp add: live_token_def decodeExpiry_connected fun_eq_iff)
  with s good show "account_session E S lifetime w u ?s" "\<not> rv_submitting ?s"
    by (auto simp: account_session_def good_until_def intro!: exI [of _ "lr_accessToken ?r"])
qed

text \<open>C22: from the registration page to a session, in one press of the button, with any input the API
  admits, no one else acting between the two requests. When the username (trimmed, in lower case) belongs to a user, the page
  says so, there is no session, and no table of the server changes. Otherwise the server has exactly one
  user more, of role \<open>USER\<close>, under that name, with exactly one wallet of the initial balance, no other
  balance changed and the books whole; and the browser holds, stores and connects its socket with a token that
  authenticates as that user, and as no one else, until it expires, and goes on to the dashboard.\<close>

theorem registering_opens_an_account:
  fixes s :: register_view
  assumes typed: "name = toLowerCase (js_trim (js_trim (rv_username s)))" "full = js_trim (js_trim (rv_fullName s))"
      "conforms username (JStr name)" "full \<noteq> []" "length full \<le> 100"
      "8 \<le> length (rv_password s)" "length (rv_password s) \<le> 72"
    and visitor: "\<not> js_truthy (auth_token s)" "\<not> js_truthy (wb_watched s)"
    and server: "server_at S (wb_trace s) = w" "registers (sv_env S) w" "hashes (sv_env S) (rv_password s)"
      "\<And>v. sv_others S (wb_trace s @ [register_fetch s]) v = v"
    and b: "0 \<le> api_initialBalance (sv_api S)" "isSafeInteger (api_initialBalance (sv_api S))"
    and outside: "register_documented (api_zod (sv_api S))" "login_documented (api_zod (sv_api S))"
      "express_routes (api_express (sv_api S)) ''POST'' ''/api/auth/register'' ''/api/auth'' ''/register''"
      "express_routes (api_express (sv_api S)) ''POST'' ''/api/auth/login'' ''/api/auth'' ''/login''"
      "\<And>rq. rq_method rq = ''POST'' \<Longrightarrow> rq_url rq = ''/api/auth/login'' \<Longrightarrow>
        ex_params (api_express (sv_api S)) ''/api/auth'' ''/register'' ''POST'' rq = None"
      "\<And>v. v \<in> {register_payload s, first_credentials s} \<Longrightarrow> hw_body (sv_wire S) v = Inr (json_copy v)"
    and tokens: "jwt_documented (api_jwt (sv_api S)) lifetime" "jwt_text (api_jwt (sv_api S))"
      "jwt_readable E (api_jwt (sv_api S)) lifetime"
    and meanwhile: "\<And>tr x. meanwhile E tr x = x"
  shows "\<exists>s' w1. final (register_submit (connected S E)) s = s' \<and> \<not> rv_submitting s' \<and>
    served S (wb_trace s @ [register_fetch s]) = w1 \<and>
    (if name \<in> u_username ` set (users (database w)) then name_taken s s' \<and> tables (database w1) = tables (database w)
     else (\<exists>u. account_opened (sv_env S) (api_initialBalance (sv_api S)) name (rv_password s) full (database w) u (database w1) \<and>
       db_ok (database w1) \<and>
       tables (database (served S (wb_trace s @ [register_fetch s, first_login s]))) = tables (database w1) \<and>
       account_session E S lifetime w1 u s'))"
proof -
  let ?e = "register_fetch s" and ?l = "first_login s" and ?E = "connected S E" and ?A = "sv_api S"
  let ?b = "JObject [(''fullName'', JStr (js_trim (rv_fullName s))), (''username'', JStr (js_trim (rv_username s))),
      (''password'', JStr (rv_password s))]"
  let ?c = "JObject [(''username'', JStr (js_trim (rv_username s))), (''password'', JStr (rv_password s))]"
  have copy: "hw_body (sv_wire S) (register_payload s) = Inr ?b" "hw_body (sv_wire S) (first_credentials s) = Inr ?c"
    using outside(6) by (simp_all add: register_payload_def first_credentials_def)
  obtain rq where rq: "http_request_of (sv_wire S) ?e = Some rq" "rq_method rq = ''POST''"
    "rq_url rq = ''/api/auth/register''" "rq_body rq = Inr ?b"
    using copy by (simp add: register_fetch_def http_request_of_def)
  obtain rl where rl: "http_request_of (sv_wire S) ?l = Some rl" "rq_method rl = ''POST''"
    "rq_url rl = ''/api/auth/login''" "rq_body rl = Inr ?c"
    using copy by (simp add: first_login_def http_request_of_def)
  note served = served_register [OF server(2) b server(3) outside(1,3) rq(2-4) typed(3) [unfolded typed(1)] typed(6,7)
      typed(4,5) [unfolded typed(2)], folded typed(1,2), folded server(1)]
  show ?thesis
  proof (cases "name \<in> u_username ` set (users (database w))")
    case True
    with served server(1) obtain w1 where w1: "tables (database w1) = tables (database w)"
      "app (sv_env S) ?A rq (server_at S (wb_trace s)) = (Inr \<lparr>rsp_status = 409,
         rsp_body = PError ''USERNAME_TAKEN'' ''Username is already taken'' None\<rparr>, w1)" by auto
    note answer = answer_request [OF rq(1) w1(2)]
    from register_refused [of s ?E "hw_statusText (sv_wire S) 409" "''USERNAME_TAKEN''" "''Username is already taken''"]
      visitor(1) answer(1) meanwhile
    show ?thesis using True w1(1) answer(2) by (simp add: fetch_result_of_def json_of_payload_def name_taken_def)
  next
    case False
    with served server(1) obtain w1 r u where w1:
      "app (sv_env S) ?A rq (server_at S (wb_trace s)) = (Inr \<lparr>rsp_status = 201, rsp_body = PRegistration r\<rparr>, w1)"
      "db_ok (database w1)"
      "account_opened (sv_env S) (api_initialBalance ?A) name (rv_password s) full (database w) u (database w1)" by auto
    note answer = answer_request [OF rq(1) w1(1)]
    have at: "server_at S (wb_trace s @ [?e]) = w1" using answer(2) server(4) by (simp add: server_at_def)
    from served_first_login [OF server(2) w1(3) [unfolded typed(1)] False [unfolded typed(1)] outside(2,4,5) rl(2-4)
        typed(3) [unfolded typed(1)] typed(6,7)]
    obtain w2 where w2: "tables (database w2) = tables (database w1)"
      "app (sv_env S) ?A rl w1 = (Inr \<lparr>rsp_status = 200, rsp_body = PLogin (login_result (sv_env S) ?A w1 u)\<rparr>, w2)"
      by blast
    note answer2 = answer_request [where tr = "wb_trace s @ [?e]", OF rl(1), unfolded at, OF w2(2)]
    have session: "account_session E S lifetime w1 u (final (register_submit ?E) s)" "\<not> rv_submitting (final (register_submit ?E) s)"
      using first_session [OF visitor meanwhile tokens, where w = w1 and u = u] answer(1) answer2(1)
      by (simp_all add: fetch_result_of_def json_of_payload_def)
    have "tables (database (served S (wb_trace s @ [?e, ?l]))) = tables (database w1)" using w2(1) answer2(2) by simp
    with session w1(2,3) answer(2) show ?thesis unfolding if_not_P [OF False] by blast
  qed
qed

text \<open>A server to try it on, and a page filled in by someone new to it.\<close>

definition sign_up_zod :: zod where
  "sign_up_zod sch v = (if sch = registerBody
     then demo_zod sch (JObject [(''username'', JStr (toLowerCase (js_trim (js_text (js_get v ''username''))))),
       (''password'', js_get v ''password''), (''fullName'', JStr (js_trim (js_text (js_get v ''fullName''))))])
     else login_zod sch v)"

definition sign_up_env :: env where
  "sign_up_env = demo_env\<lparr>bcrypt_hash := (\<lambda>tr. case last tr of EvHash password _ \<Rightarrow> Inr (CHR ''h'' # password) | _ \<Rightarrow> Inr [])\<rparr>"

definition sign_up_server :: server where
  "sign_up_server = demo_server\<lparr>sv_env := sign_up_env, sv_api := demo_api\<lparr>api_jwt := dotted_jwt, api_zod := sign_up_zod\<rparr>\<rparr>"

definition newcomer_page :: register_view where
  "newcomer_page = \<lparr>wb_session = JNull, wb_authenticated = False, wb_watched = JNull, wb_storage = None, wb_toasts = [],
     wb_nextToast = 1, wb_wallet = JNull, wb_loading = False, wb_activity = 0, wb_status = ''offline'', wb_socket = None,
     wb_trace = [], rv_fullName = ''Reza Karimi '', rv_username = ''Reza'', rv_password = ''secret123'', rv_error = JStr [],
     rv_fieldErrors = [], rv_submitting = False\<rparr>"

lemma sign_up_zod_documented: "register_documented sign_up_zod" "login_documented sign_up_zod"
proof -
  have "conforms registerBody (JObject [(''username'', JStr name), (''password'', JStr password), (''fullName'', JStr full)])"
    if "conforms username (JStr name)" "8 \<le> length password" "length password \<le> 72" "js_trim full = full" "full \<noteq> []"
      "length full \<le> 100" for name password full
    using that by (auto simp: registerBody_def js_get_Cons Suc_le_eq)
  then show "register_documented sign_up_zod"
    by (simp add: register_documented_def sign_up_zod_def demo_zod_def js_get_Cons js_text_def js_trim_idem)
  have "loginBody \<noteq> registerBody" by (simp add: loginBody_def registerBody_def)
  then show "login_documented sign_up_zod"
    using login_zod_documented by (simp add: login_documented_def sign_up_zod_def)
qed

lemma registers_demo: "registers sign_up_env demo_world" "hashes sign_up_env password"
proof -
  show "registers sign_up_env demo_world"
    using quiet_demo db_ok_demo db_safe_user_ids [OF db_safe_demo]
    by (simp add: registers_def sign_up_env_def quiet_def demo_world_def) (simp add: demo_db_def isSafeInteger_def MAX_SAFE_INTEGER_def)
qed (simp add: hashes_def sign_up_env_def demo_env_def)

theorem registering_opens_an_account_witness:
  "\<exists>u w1. served sign_up_server [register_fetch newcomer_page] = w1 \<and>
     account_opened sign_up_env 10000000 ''reza'' ''secret123'' ''Reza Karimi'' demo_db u (database w1) \<and>
     account_session reading_env sign_up_server (\<lambda>_. 3600) w1 u
       (final (register_submit (connected sign_up_server reading_env)) newcomer_page)"
proof -
  let ?A = "sv_api sign_up_server"
  have texts: "toLowerCase (js_trim (js_trim (rv_username newcomer_page))) = ''reza''"
    "js_trim (js_trim (rv_fullName newcomer_page)) = ''Reza Karimi''"
    unfolding newcomer_page_def by code_simp+
  have typed: "''reza'' = toLowerCase (js_trim (js_trim (rv_username newcomer_page)))"
    "''Reza Karimi'' = js_trim (js_trim (rv_fullName newcomer_page))"
    "conforms username (JStr ''reza'')" "''Reza Karimi'' \<noteq> []" "length ''Reza Karimi'' \<le> 100"
    "8 \<le> length (rv_password newcomer_page)" "length (rv_password newcomer_page) \<le> 72"
  proof -
    show "conforms username (JStr ''reza'')" by code_simp
  qed (simp_all add: texts, simp_all add: newcomer_page_def)
  have visitor: "\<not> js_truthy (auth_token newcomer_page)" "\<not> js_truthy (wb_watched newcomer_page)"
    by (simp_all add: newcomer_page_def auth_token_def session_token_def js_get_def or_else_def nullish_def js_truthy_def)
  have server: "server_at sign_up_server (wb_trace newcomer_page) = demo_world" "registers (sv_env sign_up_server) demo_world"
    "hashes (sv_env sign_up_server) (rv_password newcomer_page)"
    "\<And>v. sv_others sign_up_server (wb_trace newcomer_page @ [register_fetch newcomer_page]) v = v"
    using registers_demo by (simp_all add: newcomer_page_def sign_up_server_def demo_server_def server_at_def)
  have b: "0 \<le> api_initialBalance ?A" "isSafeInteger (api_initialBalance ?A)"
    by (simp_all add: sign_up_server_def demo_api_def isSafeInteger_def MAX_SAFE_INTEGER_def)
  have outside: "register_documented (api_zod ?A)" "login_documented (api_zod ?A)"
    "express_routes (api_express ?A) ''POST'' ''/api/auth/register'' ''/api/auth'' ''/register''"
    "express_routes (api_express ?A) ''POST'' ''/api/auth/login'' ''/api/auth'' ''/login''"
    "\<And>rq. rq_method rq = ''POST'' \<Longrightarrow> rq_url rq = ''/api/auth/login'' \<Longrightarrow>
      ex_params (api_express ?A) ''/api/auth'' ''/register'' ''POST'' rq = None"
    "\<And>v. v \<in> {register_payload newcomer_page, first_credentials newcomer_page} \<Longrightarrow>
      hw_body (sv_wire sign_up_server) v = Inr (json_copy v)"
    using sign_up_zod_documented
    by (simp_all add: sign_up_server_def express_routes_def demo_api_def demo_express_def createRouter_def demo_server_def
        demo_wire_def)
  have tokens: "jwt_documented (api_jwt ?A) (\<lambda>_. 3600)" "jwt_text (api_jwt ?A)"
    "jwt_readable reading_env (api_jwt ?A) (\<lambda>_. 3600)"
    using dotted_jwt_documented dotted_jwt_text dotted_jwt_readable by (simp_all add: sign_up_server_def)
  have calm: "meanwhile reading_env tr x = x" for tr and x :: register_view by (simp add: reading_env_def)
  have free: "''reza'' \<notin> u_username ` set (users (database demo_world))" by (simp add: demo_defs)
  from registering_opens_an_account [OF typed visitor server b outside tokens calm, unfolded if_not_P [OF free]]
  show ?thesis by (auto simp: newcomer_page_def sign_up_server_def demo_server_def demo_api_def)
qed

end
