(* ===== verification/Web_Journey.thy ===== *)
theory Web_Journey
  imports Web_Sign_In
begin

text \<open>
  From the address bar to the page: the application opened by \<open>src/frontend/src/main.js\<close>, the guard of the router, the
  sign-in page, the server, and the navigation that follows.
\<close>

section \<open>Opening the application\<close>

text \<open>\<open>createApp(App).use(createPinia()).use(router).mount('#app')\<close>: the application starts, and the router goes to the
  location of the browser.\<close>

definition open_app ::
  "'z web_scheme web_env \<Rightarrow> router_env \<Rightarrow> string \<Rightarrow> 'z web_scheme \<Rightarrow> 'z web_scheme \<times> location option" where
  "open_app E R path s = (let s' = final (start_app E) s in (s', navigate R (wb_authenticated s') (isAdmin s') (ByPath path)))"

text \<open>Someone without a live session in the storage.\<close>

definition signed_out_start :: "'z web_scheme web_env \<Rightarrow> 'z web_scheme \<Rightarrow> bool" where
  "signed_out_start E s \<longleftrightarrow> wb_socket s = None \<and> loadSession E (wb_storage s) (web_clock E (wb_trace s)) = JNull"

lemma start_app_signed_out:
  fixes s :: login_view
  assumes "signed_out_start E s"
  defines "t \<equiv> final (start_app E) s"
  shows "wb_session t = JNull" "wb_watched t = JNull" "\<not> wb_authenticated t" "\<not> isAdmin t" "auth_token t = JNull"
    "wb_trace t = wb_trace s"
  using assms(1)
  by (simp_all add: t_def signed_out_start_def start_app_def on_token_change_def rt_disconnect_def reset_wallet_def
      session_token_def js_get_def or_else_def nullish_def js_truthy_def live_token_def isAdmin_def session_user_def
      auth_token_def Let_def)

text \<open>Where an event of the page sends the router.\<close>

definition goes_to :: "web_ev \<Rightarrow> target option" where
  "goes_to e = (case e of WReplace p \<Rightarrow> Some (ByPath p) | WPush name \<Rightarrow> Some (ByName name None) | _ \<Rightarrow> None)"

section \<open>The way back from the sign-in page\<close>

lemma opened_admin:
  assumes "opened token (json_of_public_user (toPublicUser (toUser u))) s"
  shows "isAdmin s \<longleftrightarrow> u_role u = ADMIN"
  using assms
  by (cases "u_role u")
    (simp_all add: opened_def isAdmin_def session_user_def json_of_public_user_def toPublicUser_def toUser_def role_name_def
      js_get_Cons or_else_def nullish_def)

lemma visitor_is_sent_to_sign_in:
  assumes "matches_routes R" "match_path R p = r" "rt_requiresAuth r"
  shows "navigate R False False (ByPath p) = Some \<lparr>to_route = guest_route ''/login'' ''login'',
    to_fullPath = (if p = ''/'' then ''/login'' else with_query R ''/login'' p),
    to_query_redirect = (if p = ''/'' then None else Some p)\<rparr>"
proof -
  have "r \<in> set routes" using matches_routes_mem [OF assms(1), of p] assms(2) by simp
  with navigate_to [of R "ByPath p" "\<lparr>to_route = r, to_fullPath = p, to_query_redirect = query_redirect R p\<rparr>" False False]
    protected_route [of r] assms show ?thesis by (simp add: resolve_def permitted_def navigate_login)
qed

lemma member_arrives:
  assumes "matches_routes R" "match_path R p = r" "rt_requiresAuth r"
  shows "\<exists>l. navigate R True admin (ByPath p) = Some l \<and>
    (if rt_requiresAdmin r \<and> \<not> admin then to_route l = user_route ''/'' ''dashboard'' False
     else to_route l = r \<and> to_fullPath l = p)"
proof -
  have "r \<in> set routes" using matches_routes_mem [OF assms(1), of p] assms(2) by simp
  with navigate_to [of R "ByPath p" "\<lparr>to_route = r, to_fullPath = p, to_query_redirect = query_redirect R p\<rparr>" True admin]
    protected_route [of r] assms show ?thesis by (auto simp: resolve_def permitted_def navigate_dashboard)
qed

section \<open>Property\<close>

text \<open>Who has arrived: the session of a user, and the page that was asked for, or the dashboard when the page is for
  administrators and the user is none.\<close>

definition arrived ::
  "login_view web_env \<Rightarrow> server \<Rightarrow> router_env \<Rightarrow> string \<Rightarrow> user_row \<Rightarrow> int \<Rightarrow> login_view \<Rightarrow> bool" where
  "arrived E S R path u expiry s \<longleftrightarrow>
     (\<exists>token. opened token (json_of_public_user (toPublicUser (toUser u))) s \<and> good_until E (sv_api S) token expiry u) \<and>
     lv_error s = JStr [] \<and>
     ((\<forall>tr. web_clock E tr div 1000 < expiry) \<longrightarrow> wb_authenticated s \<and>
       (\<exists>t l. goes_to (last (wb_trace s)) = Some t \<and> navigate R (wb_authenticated s) (isAdmin s) t = Some l \<and>
          (if rt_requiresAdmin (match_path R path) \<and> u_role u \<noteq> ADMIN
           then to_route l = user_route ''/'' ''dashboard'' False
           else to_route l = match_path R path \<and> to_fullPath l = path)))"

text \<open>C24: from the address bar to the page. A visitor without a live session opens a protected page. The router shows the
  sign-in page, which remembers the page asked for. The visitor types any username and any password of the lengths the API
  admits, and presses the button. When the server has a user of that name (trimmed, in lower case) whose stored hash
  bcrypt accepts the password for, the browser holds, stores and connects its socket with a token and that user's
  public data; the token authenticates as that user, and as no one else, and the test the browser puts to it (\<open>live_token\<close>) holds, exactly until
  the second it expires; and the navigation ends on the page asked for, or on the dashboard for a page of the
  administrators when the user is none. In every other case the page says that username or password is wrong, the
  same for an unknown name, there is no session, and the page asked for still leads to the sign-in page. No table of the
  server changes.\<close>

theorem visitor_signs_in_and_arrives:
  fixes s0 :: login_view
  assumes start: "signed_out_start E s0" "open_app E R path s0 = (s1, Some l)"
    and page: "matches_routes R" "rt_requiresAuth (match_path R path)" "path \<noteq> []"
    and typed: "s = s1\<lparr>lv_username := typed, lv_password := password\<rparr>" "conforms username (JStr name)"
      "name = toLowerCase (js_trim (js_trim typed))" "password \<noteq> []" "length password \<le> 72"
    and server: "server_at S (wb_trace s0) = w" "quiet (sv_env S)" "db_safe (database w)"
    and outside: "login_documented (api_zod (sv_api S))"
      "express_routes (api_express (sv_api S)) ''POST'' ''/api/auth/login'' ''/api/auth'' ''/login''"
      "\<And>rq. rq_method rq = ''POST'' \<Longrightarrow> rq_url rq = ''/api/auth/login'' \<Longrightarrow>
        ex_params (api_express (sv_api S)) ''/api/auth'' ''/register'' ''POST'' rq = None"
      "hw_body (sv_wire S) (login_credentials s) = Inr (json_copy (login_credentials s))"
    and tokens: "jwt_documented (api_jwt (sv_api S)) lifetime" "jwt_text (api_jwt (sv_api S))"
      "jwt_readable E (api_jwt (sv_api S)) lifetime"
    and meanwhile: "\<And>tr x. wb_session (meanwhile E tr x) = wb_session x"
      "\<And>tr x. wb_watched (meanwhile E tr x) = wb_watched x" "\<And>tr x. lv_error (meanwhile E tr x) = lv_error x"
  shows "rt_name (to_route l) = Some ''login'' \<and>
    (\<exists>s'. final (login_submit (connected S E) (to_query_redirect l)) s = s' \<and>
      tables (database (served S (wb_trace s @ [login_fetch s]))) = tables (database w) \<and>
      (case accepted (sv_env S) name password (database w) of
         None \<Rightarrow> lv_error s' = JStr ''Invalid username or password'' \<and> wb_session s' = JNull \<and>
           navigate R False (isAdmin s') (ByPath path) = Some l
       | Some u \<Rightarrow> arrived E S R path u (login_moment (sv_env S) w u div 1000 + lifetime (api_expiresIn (sv_api S))) s'))"
proof -
  note out = start_app_signed_out [OF start(1)]
  have s1: "s1 = final (start_app E) s0" and l: "navigate R False False (ByPath path) = Some l"
    using start(2) out(3,4) by (auto simp: open_app_def Let_def)
  note login = visitor_is_sent_to_sign_in [OF page(1) refl page(2)]
  have redirect: "(case to_query_redirect l of None \<Rightarrow> ''/'' | Some [] \<Rightarrow> ''/'' | Some p \<Rightarrow> p) = path"
    using l login page(3) by (auto split: list.split)
  have fields: "lv_username s = typed" "lv_password s = password" "wb_trace s = wb_trace s0" "wb_session s = JNull"
    "auth_token s = JNull" "wb_watched s = JNull"
    using out by (simp_all add: typed(1) s1 auth_token_def)
  have visitor: "\<not> js_truthy (auth_token s)" "wb_watched s = auth_token s" by (simp_all add: fields js_truthy_def)
  let ?s' = "final (login_submit (connected S E) (to_query_redirect l)) s"
  obtain s' w' where s': "?s' = s'" and w': "served S (wb_trace s @ [login_fetch s]) = w'" "tables (database w') = tables (database w)"
    and outcome: "case accepted (sv_env S) name password (database w) of
       None \<Rightarrow> lv_error s' = JStr ''Invalid username or password'' \<and> wb_session s' = wb_session s
     | Some r \<Rightarrow> (\<exists>token expiry.
         expiry = login_moment (sv_env S) w r div 1000 + lifetime (api_expiresIn (sv_api S)) \<and>
         opened token (json_of_public_user (toPublicUser (toUser r))) s' \<and> lv_error s' = JStr [] \<and>
         good_until E (sv_api S) token expiry r \<and>
         ((\<forall>tr. web_clock E tr div 1000 < expiry) \<longrightarrow> wb_authenticated s') \<and>
         last (wb_trace s') = WReplace (case to_query_redirect l of None \<Rightarrow> ''/'' | Some [] \<Rightarrow> ''/'' | Some p \<Rightarrow> p))"
    using signing_in_opens_a_session [OF typed(2) typed(3) [folded fields(1)] typed(4,5) [folded fields(2)] visitor
        server(1) [folded fields(3)] server(2,3) outside tokens meanwhile, of "to_query_redirect l"]
    by (auto simp: fields)
  have "rt_name (to_route l) = Some ''login''" using l login by (auto simp: guest_route_def)
  moreover have "case accepted (sv_env S) name password (database w) of
      None \<Rightarrow> lv_error s' = JStr ''Invalid username or password'' \<and> wb_session s' = JNull \<and>
        navigate R False (isAdmin s') (ByPath path) = Some l
    | Some u \<Rightarrow> arrived E S R path u (login_moment (sv_env S) w u div 1000 + lifetime (api_expiresIn (sv_api S))) s'"
  proof (cases "accepted (sv_env S) name password (database w)")
    case None
    with outcome have "wb_session s' = JNull" by (simp add: fields)
    then have "\<not> isAdmin s'" by (simp add: isAdmin_def session_user_def js_get_def or_else_def nullish_def)
    with None outcome l show ?thesis by (simp add: fields)
  next
    case (Some u)
    let ?expiry = "login_moment (sv_env S) w u div 1000 + lifetime (api_expiresIn (sv_api S))"
    from Some outcome obtain token where session: "opened token (json_of_public_user (toPublicUser (toUser u))) s'"
      "good_until E (sv_api S) token ?expiry u" "lv_error s' = JStr []"
      "(\<forall>tr. web_clock E tr div 1000 < ?expiry) \<longrightarrow> wb_authenticated s'" "last (wb_trace s') = WReplace path"
      by (auto simp: redirect)
    obtain l' where "navigate R True (isAdmin s') (ByPath path) = Some l'"
      "if rt_requiresAdmin (match_path R path) \<and> u_role u \<noteq> ADMIN then to_route l' = user_route ''/'' ''dashboard'' False
       else to_route l' = match_path R path \<and> to_fullPath l' = path"
      using member_arrives [OF page(1) refl page(2), of "isAdmin s'"] unfolding opened_admin [OF session(1)] by blast
    with Some session show ?thesis unfolding arrived_def goes_to_def by auto
  qed
  ultimately show ?thesis using s' w' by blast
qed

lemma visitor_page_opens:
  "signed_out_start reading_env visitor_page"
  "open_app reading_env plain_router ''/ledger'' visitor_page = (visitor_page,
     Some \<lparr>to_route = guest_route ''/login'' ''login'', to_fullPath = with_query plain_router ''/login'' ''/ledger'',
       to_query_redirect = Some ''/ledger''\<rparr>)"
proof -
  show out: "signed_out_start reading_env visitor_page"
    by (simp add: signed_out_start_def visitor_page_def loadSession_def)
  have "match_path plain_router ''/ledger'' = user_route ''/ledger'' ''ledger'' False"
    by (simp add: plain_router_def route_defs)
  from visitor_is_sent_to_sign_in [OF plain_router_matches this] start_app_signed_out(3,4) [OF out]
  show "open_app reading_env plain_router ''/ledger'' visitor_page = (visitor_page,
     Some \<lparr>to_route = guest_route ''/login'' ''login'', to_fullPath = with_query plain_router ''/login'' ''/ledger'',
       to_query_redirect = Some ''/ledger''\<rparr>)"
    by (simp add: open_app_def Let_def user_route_def)
      (simp add: start_app_def loadSession_def visitor_page_def on_token_change_def rt_disconnect_def reset_wallet_def
        session_token_def js_get_def or_else_def nullish_def js_truthy_def live_token_def)
qed

theorem visitor_signs_in_and_arrives_witness:
  "arrived reading_env login_server plain_router ''/ledger'' (demo_user 1 ''ali'' ''Ali Ahmadi'') 4100
     (final (login_submit (connected login_server reading_env) (Some ''/ledger'')) visitor_page)"
proof -
  have name: "toLowerCase (js_trim (js_trim '' Ali'')) = ''ali''" by code_simp
  have page: "matches_routes plain_router" "rt_requiresAuth (match_path plain_router ''/ledger'')" "''/ledger'' \<noteq> []"
    using plain_router_matches by (simp_all add: plain_router_def route_defs)
  have typed: "visitor_page = visitor_page\<lparr>lv_username := '' Ali'', lv_password := ''ali''\<rparr>"
    "conforms username (JStr ''ali'')" "''ali'' = toLowerCase (js_trim (js_trim '' Ali''))" "''ali'' \<noteq> []" "length ''ali'' \<le> 72"
  proof -
    show "conforms username (JStr ''ali'')" by code_simp
  qed (simp_all add: name, simp_all add: visitor_page_def)
  have server: "server_at login_server (wb_trace visitor_page) = demo_world" "quiet (sv_env login_server)"
    "db_safe (database demo_world)"
    by (simp_all add: visitor_page_def login_server_def demo_server_def server_at_def quiet_demo db_safe_demo)
  have outside: "login_documented (api_zod (sv_api login_server))"
    "express_routes (api_express (sv_api login_server)) ''POST'' ''/api/auth/login'' ''/api/auth'' ''/login''"
    "\<And>rq. rq_method rq = ''POST'' \<Longrightarrow> rq_url rq = ''/api/auth/login'' \<Longrightarrow>
      ex_params (api_express (sv_api login_server)) ''/api/auth'' ''/register'' ''POST'' rq = None"
    "hw_body (sv_wire login_server) (login_credentials visitor_page) = Inr (json_copy (login_credentials visitor_page))"
    using login_zod_documented
    by (simp_all add: login_server_def express_routes_def demo_api_def demo_express_def createRouter_def demo_server_def
        demo_wire_def)
  have tokens: "jwt_documented (api_jwt (sv_api login_server)) (\<lambda>_. 3600)" "jwt_text (api_jwt (sv_api login_server))"
    "jwt_readable reading_env (api_jwt (sv_api login_server)) (\<lambda>_. 3600)"
    using dotted_jwt_documented dotted_jwt_text dotted_jwt_readable by (simp_all add: login_server_def)
  have calm: "wb_session (meanwhile reading_env tr x) = wb_session x" "wb_watched (meanwhile reading_env tr x) = wb_watched x"
    "lv_error (meanwhile reading_env tr x) = lv_error x" for tr and x :: login_view by (simp_all add: reading_env_def)
  have acc: "accepted (sv_env login_server) ''ali'' ''ali'' (database demo_world) = Some (demo_user 1 ''ali'' ''Ali Ahmadi'')"
    by (simp add: accepted_def user_named_def login_server_def demo_server_def demo_env_def demo_defs)
  have moment: "login_moment (sv_env login_server) demo_world (demo_user 1 ''ali'' ''Ali Ahmadi'') = 500000"
    by (simp add: login_moment_def login_server_def demo_server_def demo_env_def)
  from visitor_signs_in_and_arrives [OF visitor_page_opens page typed server outside tokens calm, unfolded acc option.case moment]
  show ?thesis by auto
qed

end
