(* ===== verification/Web_Polling.thy ===== *)
theory Web_Polling
  imports Web_Form_Theorems
begin

text \<open>
  How often the form asks for a receipt, however its handlers overlap. \<open>submit\<close> and the callback of
  \<open>pollReceipt\<close> (\<open>src/frontend/src/components/TransferForm.vue\<close>) are cut where they await the
  server: a handler runs until its request is out, and goes on, in the state the page then has, when it is
  answered. Between the two any other handler may run, also the button and other polls, in any order. The
  handlers that neither send these requests nor set these timers are run as a whole.
\<close>

section \<open>Handlers in flight\<close>

text \<open>The state of the page when the request of a handler is out.\<close>

definition sent_token :: "tform \<Rightarrow> js_value" where
  "sent_token s = (if js_truthy (auth_token s) then auth_token s else JUndefined)"

definition submit_sent :: "tform \<Rightarrow> tform" where
  "submit_sent s =
     (let s1 = clearTimeout (tf_pollTimer s) (s\<lparr>tf_error := JStr [], tf_submitting := True\<rparr>) in
      s1\<lparr>wb_trace := wb_trace s1 @ [WFetch ''POST'' ''/api/transfers'' [] (sent_token s1) (transfer_payload s1)]\<rparr>)"

definition poll_sent :: "js_value \<Rightarrow> tform \<Rightarrow> tform" where
  "poll_sent transactionId s = s\<lparr>wb_trace := wb_trace s @
     [WFetch ''GET'' (''/api/transactions/'' @ template_text transactionId) [] (sent_token s) JUndefined]\<rparr>"

text \<open>A handler that waits for its answer, with the state in which it began.\<close>

datatype in_flight = SubmitSent tform | PollSent js_value nat tform

text \<open>It goes on in the state \<open>s'\<close>: \<open>meanwhile\<close> puts the page there.\<close>

definition resume :: "tform web_env \<Rightarrow> in_flight \<Rightarrow> tform \<Rightarrow> tform" where
  "resume E h s' = (case h of
     SubmitSent s \<Rightarrow> final (submit (E\<lparr>meanwhile := \<lambda>_ _. s'\<rparr>)) s
   | PollSent transactionId attempt s \<Rightarrow> final (poll_fired (E\<lparr>meanwhile := \<lambda>_ _. s'\<rparr>) transactionId attempt) s)"

text \<open>The two parts make up the handler, with what happens \<open>meanwhile\<close> between them.\<close>

lemma persist_env:
  fixes E E' :: "tform web_env"
  assumes "web_clock E' = web_clock E" "decode_json E' = decode_json E"
  shows "persist E' v = persist E v"
  unfolding persist_def live_token_def decodeExpiry_def assms by (rule refl)

lemma endSession_env:
  fixes E E' :: "tform web_env"
  assumes "web_clock E' = web_clock E" "decode_json E' = decode_json E"
  shows "endSession E' m = endSession E m"
  unfolding endSession_def logout_def persist_env [OF assms] by (rule refl)

text \<open>The same answer, in the state another handler has left.\<close>

lemma receive_env:
  fixes E E' :: "tform web_env"
  assumes "web_clock E' = web_clock E" "decode_json E' = decode_json E"
    and "fetch_answer E' (wb_trace s') = fetch_answer E (wb_trace s)"
    and "meanwhile E' (wb_trace s') s' = meanwhile E (wb_trace s) s"
  shows "receive E' token s' = receive E token s"
  unfolding receive_def endSession_env [OF assms(1,2)] using assms by simp

text \<open>What a handler does with what it receives.\<close>

definition poll_rest :: "js_value \<Rightarrow> nat \<Rightarrow> (tform, js_value) web_eff \<Rightarrow> (tform, unit) web_eff" where
  "poll_rest transactionId attempt answer =
     try_catch
       (await answer (\<lambda>tx.
        await (get_state (\<lambda>s. js_get (tf_result s) ''id'')) (\<lambda>shown.
        if shown \<noteq> transactionId then ret ()
        else
          await (modify (\<lambda>s. s\<lparr>tf_result := tx\<rparr>)) (\<lambda>_.
          await (field tx ''receiptStatus'') (\<lambda>status.
          if status = JStr ''PENDING'' \<and> attempt < RECEIPT_POLL_LIMIT
          then pollReceipt transactionId (attempt + 1)
          else if status = JStr ''GENERATED'' then markActivity else ret ())))))
       (\<lambda>_. if attempt < RECEIPT_POLL_LIMIT then pollReceipt transactionId (attempt + 1) else ret ())"

definition submit_rest :: "(tform, js_value) web_eff \<Rightarrow> (tform, unit) web_eff" where
  "submit_rest answer =
     await (try_finally
       (try_catch
         (await answer (\<lambda>tx.
          await (modify (\<lambda>s. s\<lparr>tf_result := tx\<rparr>)) (\<lambda>_.
          await (field tx ''amount'') (\<lambda>sent.
          await (field tx ''to'') (\<lambda>to.
          await (field to ''fullName'') (\<lambda>name.
          await (push_toast ''success'' ''Transfer completed''
                   (formatToman_value sent @ '' sent to '' @ template_text name) 5000) (\<lambda>_.
          await markActivity (\<lambda>_.
          await (if js_get tx ''receiptStatus'' = JStr ''PENDING'' then pollReceipt (js_get tx ''id'') 0 else ret ()) (\<lambda>_.
          modify (\<lambda>s. s\<lparr>tf_username := [], tf_amountInput := [], tf_description := []\<rparr>))))))))))
         (\<lambda>err. modify (\<lambda>s. s\<lparr>tf_error := we_message err\<rparr>)))
       (modify (\<lambda>s. s\<lparr>tf_submitting := False\<rparr>))) (\<lambda>_.
     modify watch_username)"

lemma poll_parts: "poll_fired E transactionId attempt s =
    poll_rest transactionId attempt (receive E (auth_token s)) (poll_sent transactionId s)"
  by (simp add: poll_fired_def transactionApi_get_def http_get_def request_emits try_catch_def await_def
      poll_rest_def poll_sent_def sent_token_def)

lemma submit_parts: "canSubmit s \<Longrightarrow> submit E s =
    submit_rest (receive E (auth_token s)) (submit_sent s)"
  by (simp add: submit_def submit_body_def transferApi_create_def http_post_def request_emits try_catch_def
      try_finally_def await_def submit_rest_def submit_sent_def sent_token_def Let_def clearTimeout_def auth_token_def)

text \<open>Nothing but the answer and the state it arrives in counts.\<close>

lemma poll_rest_env: "m s = m' s' \<Longrightarrow> poll_rest i k m s = poll_rest i k m' s'"
  by (simp add: poll_rest_def try_catch_def await_def)

lemma submit_rest_env: "m s = m' s' \<Longrightarrow> submit_rest m s = submit_rest m' s'"
  by (simp add: submit_rest_def try_catch_def try_finally_def await_def)

text \<open>So a handler is its two parts, whatever happens between them.\<close>

lemma submit_resumed:
  "canSubmit s \<Longrightarrow> final (submit E) s =
     resume E (SubmitSent s) (meanwhile E (wb_trace (submit_sent s)) (submit_sent s))"
  unfolding resume_def in_flight.case submit_parts
  by (rule arg_cong [of _ _ snd], rule submit_rest_env, rule receive_env) simp_all

lemma poll_resumed:
  "final (poll_fired E i k) s =
     resume E (PollSent i k s) (meanwhile E (wb_trace (poll_sent i s)) (poll_sent i s))"
  unfolding resume_def in_flight.case poll_parts
  by (rule arg_cong [of _ _ snd], rule poll_rest_env, rule receive_env) simp_all

section \<open>The page\<close>

text \<open>
  The state of the page and the handlers in flight. An event runs a handler, up to the point where it
  waits if it is the button or a poll, or brings the answer for the handler at a position. Each event has
  its own environment, for the answer it brings.
\<close>

type_synonym page_state = "tform \<times> in_flight list"

datatype page_event = Runs "tform web_env" client_act | Answered "tform web_env" nat

text \<open>Nothing happens while a handler that is run as a whole waits.\<close>

definition alone :: "tform web_env \<Rightarrow> tform web_env" where
  "alone E = E\<lparr>meanwhile := \<lambda>_ s. s\<rparr>"

fun page_step :: "page_event \<Rightarrow> page_state \<Rightarrow> page_state" where
  "page_step (Runs E Submit) (s, fs) = (if canSubmit s then (submit_sent s, fs @ [SubmitSent s]) else (s, fs))"
| "page_step (Runs E (TimerFires i)) (s, fs) = (case map_of (tf_timers s) i of
     Some (PollTimer transactionId attempt) \<Rightarrow>
       (let s1 = s\<lparr>tf_timers := filter (\<lambda>x. fst x \<noteq> i) (tf_timers s)\<rparr> in
        (poll_sent transactionId s1, fs @ [PollSent transactionId attempt s1]))
   | _ \<Rightarrow> (final (fire (alone E) i) s, fs))"
| "page_step (Runs E a) (s, fs) = (final (client_handler (alone E) a) s, fs)"
| "page_step (Answered E j) (s, fs) =
     (if j < length fs then (resume E (fs ! j) s, take j fs @ drop (Suc j) fs) else (s, fs))"

definition page_run :: "page_event list \<Rightarrow> tform \<Rightarrow> page_state" where
  "page_run es s = fold page_step es (s, [])"

definition presses :: "page_event list \<Rightarrow> nat" where
  "presses es = length (filter (\<lambda>e. case e of Runs E a \<Rightarrow> a = Submit | Answered E j \<Rightarrow> False) es)"

section \<open>What a handler may still ask for\<close>

lemma costs_poll_rest:
  assumes "costs 0 m"
  shows "costs (RECEIPT_POLL_LIMIT - k) (poll_rest i k m)"
proof -
  have again: "costs (RECEIPT_POLL_LIMIT - k) (if k < RECEIPT_POLL_LIMIT then pollReceipt i (k + 1) else ret ())"
    by (cases "k < RECEIPT_POLL_LIMIT") (auto intro!: costs_pollReceipt costs_intros)
  show ?thesis
    unfolding poll_rest_def
    by (rule costs_try_catch [OF _ again])
      (intro costs_await [OF assms] costs_intros costs_poll_again costs_modify, simp)
qed

lemma costs_submit_rest:
  assumes "costs 0 m"
  shows "costs (1 + RECEIPT_POLL_LIMIT) (submit_rest m)"
  unfolding submit_rest_def
  by (intro costs_then_modify costs_intros costs_modify costs_pollReceipt assms) (auto simp: all_polls_watch)

text \<open>The requests a handler in flight may still lead to.\<close>

definition owed :: "in_flight \<Rightarrow> nat" where
  "owed h = (case h of SubmitSent s \<Rightarrow> 1 + RECEIPT_POLL_LIMIT | PollSent _ k _ \<Rightarrow> RECEIPT_POLL_LIMIT - k)"

definition possible :: "in_flight \<Rightarrow> bool" where
  "possible h = (case h of SubmitSent s \<Rightarrow> canSubmit s | PollSent _ _ _ \<Rightarrow> True)"

lemma resume_bound:
  assumes "possible h"
  shows "all_polls (resume E h s') \<le> all_polls s' + owed h"
proof -
  define E0 where "E0 = (\<lambda>s :: tform. E\<lparr>meanwhile := \<lambda>_ s. s, fetch_answer := \<lambda>_. fetch_answer E (wb_trace s)\<rparr>)"
  have env: "receive (E\<lparr>meanwhile := \<lambda>_ _. s'\<rparr>) token s = receive (E0 s) token s'" for token s
    by (rule receive_env) (simp_all add: E0_def)
  have cost: "costs 0 (receive (E0 s) token)" for s token
    by (rule costs_receive) (simp add: E0_def)
  show ?thesis
  proof (cases h)
    case (SubmitSent s)
    with assms have "canSubmit s" by (simp add: possible_def)
    then have "resume E h s' = final (submit_rest (receive (E0 (submit_sent s)) (auth_token s))) s'"
      unfolding SubmitSent resume_def in_flight.case
      by (subst submit_parts) (assumption, rule arg_cong [of _ _ snd], rule submit_rest_env, rule env)
    then show ?thesis using costs_bound [OF costs_submit_rest [OF cost]] by (simp add: SubmitSent owed_def)
  next
    case (PollSent i k s)
    have "resume E h s' = final (poll_rest i k (receive (E0 (poll_sent i s)) (auth_token s))) s'"
      unfolding PollSent resume_def in_flight.case poll_parts
      by (rule arg_cong [of _ _ snd], rule poll_rest_env, rule env)
    then show ?thesis using costs_bound [OF costs_poll_rest [OF cost]] by (simp add: PollSent owed_def)
  qed
qed

text \<open>All the requests that have been made or may still come of the timers and handlers there are.\<close>

definition page_polls :: "page_state \<Rightarrow> nat" where
  "page_polls p = all_polls (fst p) + sum_list (map owed (snd p))"

lemma submit_sent_bound: "all_polls (submit_sent s) \<le> all_polls s"
  using all_polls_clear [of "tf_pollTimer s" "s\<lparr>tf_error := JStr [], tf_submitting := True\<rparr>"]
  by (simp add: submit_sent_def Let_def all_polls_event is_poll_def)

lemma poll_sent_bound: "all_polls (poll_sent i s) \<le> all_polls s + 1"
  by (simp add: poll_sent_def all_polls_event)

lemma alone_meanwhile: "all_polls (meanwhile (alone E) tr s) \<le> all_polls s"
  by (simp add: alone_def)

lemma whole_handler_bound:
  "a \<noteq> Submit \<Longrightarrow> all_polls (final (client_handler (alone E) a) s) \<le> all_polls s"
  using handler_bound [of "alone E" a s] alone_meanwhile by simp

lemma timer_step_bound:
  assumes "map_of (tf_timers s) i = Some (PollTimer transactionId attempt)"
  shows "all_polls (poll_sent transactionId (s\<lparr>tf_timers := filter (\<lambda>x. fst x \<noteq> i) (tf_timers s)\<rparr>)) +
    (RECEIPT_POLL_LIMIT - attempt) \<le> all_polls s"
proof -
  let ?s1 = "s\<lparr>tf_timers := filter (\<lambda>x. fst x \<noteq> i) (tf_timers s)\<rparr>"
  have "all_polls ?s1 + timer_polls (PollTimer transactionId attempt) \<le> all_polls s"
    using all_polls_removed [OF assms] by (simp add: all_polls_def polls_def pending_polls_def)
  then show ?thesis using poll_sent_bound [of transactionId ?s1] by simp
qed

lemma sum_list_remove:
  fixes f :: "'a \<Rightarrow> nat"
  shows "j < length xs \<Longrightarrow> sum_list (map f (take j xs @ drop (Suc j) xs)) + f (xs ! j) = sum_list (map f xs)"
  by (subst (3) id_take_nth_drop [of j xs]) simp_all

lemma page_step_bound:
  assumes "\<forall>h \<in> set (snd p). possible h"
  shows "(\<forall>h \<in> set (snd (page_step e p)). possible h) \<and>
    page_polls (page_step e p) \<le> page_polls p + 31 * presses [e]"
proof -
  obtain s fs where p: "p = (s, fs)" by (rule prod.exhaust)
  show ?thesis
  proof (cases e)
    case (Runs E a)
    consider "a = Submit" | i where "a = TimerFires i" | "a \<noteq> Submit" "\<And>i. a \<noteq> TimerFires i" by blast
    then show ?thesis
    proof cases
      case 1
      then show ?thesis
        using assms submit_sent_bound [of s]
        by (auto simp: p Runs page_polls_def presses_def possible_def owed_def RECEIPT_POLL_LIMIT_def)
    next
      case (2 i)
      have "all_polls (final (fire (alone E) i) s) \<le> all_polls s" by (rule fire_bound [OF alone_meanwhile])
      then show ?thesis
        using assms timer_step_bound [of s i]
        by (auto simp: p Runs 2 page_polls_def presses_def possible_def owed_def Let_def
            split: option.split form_timer.split)
    next
      case 3
      then have "page_step e p = (final (client_handler (alone E) a) s, fs)" by (cases a) (auto simp: p Runs)
      then show ?thesis using assms whole_handler_bound [OF 3(1), of E s] by (simp add: p page_polls_def)
    qed
  next
    case (Answered E j)
    show ?thesis
    proof (cases "j < length fs")
      case True
      then have "possible (fs ! j)" using assms by (simp add: p)
      from resume_bound [OF this, of E s] sum_list_remove [OF True, of owed]
      have "page_polls (page_step e p) \<le> page_polls p" using True by (simp add: p Answered page_polls_def)
      moreover have "set (snd (page_step e p)) \<subseteq> set (snd p)"
        using True by (auto simp: p Answered dest: in_set_takeD in_set_dropD)
      ultimately show ?thesis using assms by auto
    qed (use assms in \<open>simp add: p Answered\<close>)
  qed
qed

lemma page_run_bound:
  "\<forall>h \<in> set (snd p). possible h \<Longrightarrow> page_polls (fold page_step es p) \<le> page_polls p + 31 * presses es"
proof (induction es arbitrary: p)
  case (Cons e es)
  have "presses (e # es) = presses [e] + presses es" by (simp add: presses_def)
  with page_step_bound [OF Cons.prems, of e] Cons.IH [of "page_step e p"] show ?case by simp
qed (simp add: presses_def)

section \<open>Property\<close>

text \<open>C32: the polling for receipts is bounded, however the handlers overlap. Starting with no request in flight, in any sequence of events (presses
  of the button also while earlier transfers or polls wait for their answer, answers in any order and of any
  kind, timers, and all other handlers of the page), the requests for a transaction made are at most those
  made before, those of the timers that were set, and 31 for each press of the button.\<close>

theorem receipt_polling_is_bounded:
  "polls (fst (page_run es s)) \<le> polls s + pending_polls s + 31 * presses es"
  using page_run_bound [of "(s, [])" es] by (simp add: page_run_def page_polls_def all_polls_def)

end
