(* ===== verification/Spec2Isabelle.thy ===== *)
theory Spec2Isabelle
  imports Docs Listing_Theorems Seed_Theorems Socket_Theorems Processes Locking Web_History_Page Web_Notify Web_Sign_Up Web_Journey Web_Polling
begin

text \<open>
  A digital wallet. Users sign in, hold a wallet with a balance in Toman, send money to each other and
  read their history; a transfer above a threshold gets a receipt, made in the background. The service is
  an Express application over PostgreSQL with a stored procedure for transfers, a BullMQ queue and worker
  for receipts, MinIO as object store and Socket.io for notifications; the frontend is a Vue application.
  This development models the service, its database and the logic of the frontend, and proves what
  makes them correct. Paths below are relative to \<open>src/\<close>.

  \<^bold>\<open>Effects.\<close> \<open>Prelude\<close> gives the type \<open>('e, 's, 'a) eff\<close> of a computation that reads and leaves a state
  \<open>'s\<close> and raises an \<open>'e\<close> or returns an \<open>'a\<close>, with the \<open>await\<close>, \<open>try/catch\<close> and \<open>try/finally\<close> of the
  code. An exception does not undo what was done before it. \<open>keeps I m\<close> says that a computation keeps an
  invariant on both exits; the rules in \<open>keeps_intros\<close> carry it through a handler. SQL statements are
  effects on the record \<open>db\<close>; services and controllers are effects on a \<open>world\<close>: the database, the
  transaction that is open on the client, and the trace of all calls to the outside. Every answer of
  the outside (faults included) is read off an \<open>env\<close>, a function of the trace; other sessions may change the
  database before any statement, and a hypothesis such as \<open>others_keep\<close> says what they keep. \<open>quiet\<close>
  environments have no fault and no other session.

  \<^bold>\<open>Database.\<close>
  \<^item> \<open>Schema\<close>: the tables, checks, sequences and triggers of \<open>db/migrations/001\<close> and \<open>002\<close>, one function
    per statement the program sends; a statement on its own is atomic (\<open>autocommit\<close>).
  \<^item> \<open>Integrity\<close>: \<open>db_ok\<close>, the integrity of the database (keys, checks, every balance the sum of its
    ledger, double entry, balances equal the money issued), and the locales \<open>db_invariant\<close> and
    \<open>invariant_statement\<close> for statements that keep a property.
  \<^item> \<open>Transfer_Funds\<close>, \<open>Transfer_Theorems\<close>: \<open>transfer_funds\<close> of \<open>003\<close>, statement by statement; its result on
    every branch, and its refinement of an abstract bank.
  \<^item> \<open>Locking\<close>: transfers that run at the same time, with the row locks of \<open>ORDER BY id FOR UPDATE\<close>, as a
    step relation. They have the effect of a serial order, and never deadlock; the measure \<open>lock_weight\<close>
    bounds the steps of a run.
  \<^item> \<open>Migrations\<close>: \<open>src/db/migrator.js\<close> over any database, with faults at every call.

  \<^bold>\<open>Service.\<close>
  \<^item> \<open>Errors\<close>, \<open>Js_Text\<close>, \<open>Validation\<close>, \<open>Config\<close>: thrown values and their mapping, the string and number
    functions of JavaScript the code uses, the \<open>zod\<close> schemas as data with the middleware that runs them, and
    the configuration made of the environment (\<open>src/lib\<close>, \<open>src/validators\<close>, \<open>src/middlewares\<close>,
    \<open>src/config\<close>).
  \<^item> \<open>World\<close>, \<open>Repositories\<close>, \<open>Pagination\<close>: calls, transactions (\<open>src/db/pool.js\<close>), every method of
    \<open>src/repositories\<close>, pages. The locale \<open>program_invariant\<close> carries an invariant through all of them,
    \<open>paged_source\<close> states once what a list endpoint answers.
  \<^item> \<open>Access\<close>, \<open>Services\<close>, \<open>Receipts\<close>, \<open>Seeder\<close>: tokens, authentication and roles, the services of
    \<open>src/services\<close>, the receipt pipeline of \<open>src/workers\<close>, \<open>src/queues\<close> and \<open>src/storage\<close>, the seeder. The
    locale \<open>token_verifier\<close> is the interface between tokens and their clients.
  \<^item> \<open>Http_Api\<close>: routers, middlewares, controllers and the error handler; \<open>Docs\<close>: the documentation pages and
    preflight requests around them, so that the whole is composed as \<open>src/app.js\<close> does.
  \<^item> \<open>System\<close>: the service as a step relation over requests, receipt jobs, failed jobs, recovery rounds and
    seeding, in any order and any environment; the locale \<open>evolution\<close> gives properties of two states.
  \<^item> \<open>Sockets\<close>: handshake, rooms, the timer that ends a session, delivery (\<open>src/sockets/index.js\<close>).
  \<^item> \<open>Receipt_Lifecycle\<close>: the attempts of a receipt job, to its end, with the handlers of the worker. BullMQ is the
    parameter \<open>bullmq\<close> (what adding a job does, when a job is run again); attempts come in any order, and
    attempts of other jobs act between the statements of one (\<open>beside\<close>). What a recovery round leaves, also of the
    receipts whose ended job the queue still keeps.
  \<^item> \<open>Processes\<close>: what \<open>src/server.js\<close>, \<open>src/worker.js\<close> and \<open>src/scripts/migrate.js\<close> create from the configuration (pool,
    Redis, logger, queue, clients of the object store) and do, in order; any constructor may raise. Server and
    worker work on the same queue and bucket.
  \<^item> \<open>Lifecycle\<close>: both shutdowns as a machine over signals and settled calls; a handler runs up to its next \<open>await\<close>.

  \<^bold>\<open>Frontend\<close> (\<open>frontend/src\<close>).
  \<^item> \<open>Web_Text\<close>: \<open>utils/format.js\<close> and the badges. Digits that exceed \<open>2 ^ 53\<close> are rounded as doubles are.
  \<^item> \<open>Web_Dates\<close>: \<open>formatDate\<close>, and that a timestamp of the server, sent as the text of \<open>toISOString\<close>, is read back as
    the same instant, for every instant a \<open>Date\<close> can hold.
  \<^item> \<open>Web_Client\<close>: the state of the page and what acts on it: \<open>api/\<close>, the stores, \<open>App.vue\<close>. A watcher runs
    after the handler that changed what it watches; while a request is awaited, other handlers may change
    the state (\<open>meanwhile\<close>).
  \<^item> \<open>Web_Router\<close>: routes, guard, and navigation as a partial function with a proof that it returns.
  \<^item> \<open>Web_Transfer\<close>, \<open>Web_Views\<close>: the transfer form with its timers, paged lists, sign-in, registration,
    and the text of the tables.
  \<^item> \<open>Web_Nodes\<close>, \<open>Web_Pages\<close>, \<open>Web_Screens\<close>: the templates of the components and pages as functions from the state
    to trees of nodes, and what is read off a tree: its text, its links, and its controls that can be used, where a form
    is submitted only when its fields satisfy \<open>required\<close>, \<open>minlength\<close> and \<open>maxlength\<close>.
  \<^item> \<open>Web_Theorems\<close>, \<open>Web_Form_Theorems\<close>, \<open>Web_Page_Theorems\<close>: the session of the browser, rejected tokens, the
    transfer that is sent, and the controls and links of every page. \<open>Web_Polling\<close>: the handlers of the form cut where
    they wait for the server and resumed in any order, and the bound on polling however they overlap.

  \<^bold>\<open>Browser and server.\<close> \<open>Web_Wire\<close> connects the two models: the JSON of every response, what a \<open>fetch\<close> is to Express,
  and the server as the browser's environment (\<open>connected\<close>). The server answers the requests of this browser one
  after the other; before each of them the rest of the world acts on it in any way (\<open>sv_others\<close>). Seven theories
  compose what was proved on either side: \<open>Web_Sign_In\<close> (signing in), \<open>Web_Journey\<close> (from opening the application at a
  protected page, as \<open>main.js\<close> does, over the sign-in page to that page), \<open>Web_Sign_Up\<close> (a registration and the
  session after it), \<open>Web_End_To_End\<close> (pressing the button of the transfer form; the balance after a refresh),
  \<open>Web_Ledger_Page\<close> and \<open>Web_History_Page\<close> (the rows of the ledger and of the transactions page) and \<open>Web_Notify\<close>
  (the socket: a transfer is announced on the pages of its recipient). What a registration does to the database is in \<open>Registration\<close>.

  The theories \<open>..._Theorems\<close>, \<open>Locking\<close>, \<open>Migrations\<close>, \<open>Receipt_Lifecycle\<close>, \<open>Lifecycle\<close>, \<open>Processes\<close>, \<open>Web_Router\<close>, \<open>Web_Polling\<close> and those seven
  hold the properties (C1 to C40), those with hypotheses each with a witness on the concrete data of \<open>Demo\<close>: a small database, environment and
  set of tokens.

  \<^bold>\<open>Parameters.\<close> Code outside the repository is a parameter: \<open>jsonwebtoken\<close> (sound when the locale's
  laws or \<open>jwt_documented\<close> hold), \<open>bcrypt\<close>, \<open>zod\<close> (\<open>zod_sound\<close>: data let through conforms to its schema),
  BullMQ (\<open>bullmq_documented\<close>: an id it holds is not added again, a job is retried up to its attempts), MinIO, Socket.io, the path matching of Express (\<open>express_routes\<close>) and of the router of the frontend
  (\<open>matches_routes\<close>), \<open>cors\<close>, Swagger UI, YAML, \<open>fetch\<close>, base64 and JSON texts. Each hypothesis on one of them is discharged in a witness by a concrete function.

  \<^bold>\<open>Bounds.\<close> \<open>BIGINT\<close> values are integers with the range check of the database written out; numbers of
  JavaScript are integers with the safe-integer test of the code. Characters are code units below 256; the
  few symbols of the frontend outside that range are written in ASCII or by the name of their HTML entity. No fuel is used: a schedule of
  job attempts is a list, with as many turns for a job as it has attempts; \<open>navigate\<close> is partial and proved to return.

  \<^bold>\<open>Not modelled.\<close> Headers set by \<open>helmet\<close> and \<open>cors\<close>, what the logger writes (a log call is an event of the trace),
  indexes, texts with a NUL character, isolation below statements outside transfers, a worker that dies in the
  middle of an attempt (a stalled job), the order of the two
  probes of the health route, the text \<open>Intl.DateTimeFormat\<close> has for an instant (a parameter: locale data and time zone of the browser), styles, and the configuration of
  build tools, linters and tests.
\<close>

end
